theory Spec2Isabelle
  imports Main "HOL-Library.Word" "HOL-Library.Sublist"
begin

unbundle bit_operations_syntax

section \<open>Bytes, sockets and the length prefix\<close>

text \<open>
  The servers of this repository exchange length-prefixed messages over TCP sockets.
  A byte is a \<^typ>\<open>char\<close> (8 bits), a byte sequence and a \<open>std::string\<close> are a
  \<^typ>\<open>string\<close>, and \<open>uint32_t\<close> is a 32-bit word.

  Every variant defines the same constants (\<open>#define BUFFER_SIZE 4096\<close>,
  \<open>MAX_CONNECTIONS 2000\<close>, \<open>MAX_THREADS 100\<close>).
\<close>

type_synonym u32 = "32 word"

definition BUFFER_SIZE :: nat where
  "BUFFER_SIZE = 4096"

definition MAX_CONNECTIONS :: int where
  "MAX_CONNECTIONS = 2000"

definition MAX_THREADS :: int where
  "MAX_THREADS = 100"

text \<open>
  \<open>htonl\<close> followed by \<open>send(socket, &size, 4, 0)\<close> puts the four bytes of the value
  on the wire, most significant first; \<open>recv(socket, &size, 4, MSG_WAITALL)\<close> followed by
  \<open>ntohl\<close> reads them back. \<open>htonl\<close> is modelled as the four wire bytes of its
  argument and \<open>ntohl\<close> as the value of four wire bytes.
\<close>

definition htonl :: "u32 \<Rightarrow> string" where
  "htonl w = [char_of (unat (drop_bit 24 w)), char_of (unat (drop_bit 16 w)),
              char_of (unat (drop_bit 8 w)), char_of (unat w)]"

definition ntohl :: "string \<Rightarrow> u32" where
  "ntohl bs = push_bit 24 (of_nat (of_char (bs ! 0))) OR push_bit 16 (of_nat (of_char (bs ! 1)))
            OR push_bit 8 (of_nat (of_char (bs ! 2))) OR of_nat (of_char (bs ! 3))"

text \<open>
  One end of a connection: \<open>rx\<close> holds the bytes the peer sends before it closes (or
  before the receive timeout), in order; \<open>tx\<close> the bytes written so far; \<open>tx_room\<close>
  how many more bytes the peer takes before \<open>send\<close> fails.

  \<open>recv\<close> with \<open>MSG_WAITALL\<close> returns the \<open>n\<close> bytes asked for, or fewer when the
  stream ends first (the callers only compare the count with \<open>n\<close>, so a count of \<open>-1\<close>
  and a short count are the same to them). \<open>send\<close> returns the number of bytes written,
  or \<open>-1\<close> when nothing can be written.
\<close>

record socket =
  rx :: string
  tx :: string
  tx_room :: nat

definition recv_waitall :: "socket \<Rightarrow> nat \<Rightarrow> string \<times> socket" where
  "recv_waitall s n = (take n (rx s), s\<lparr>rx := drop n (rx s)\<rparr>)"

definition send :: "socket \<Rightarrow> string \<Rightarrow> int \<times> socket" where
  "send s buf =
     (if length buf \<le> tx_room s
      then (int (length buf), s\<lparr>tx := tx s @ buf, tx_room := tx_room s - length buf\<rparr>)
      else if tx_room s = 0 then (- 1, s)
      else (int (tx_room s), s\<lparr>tx := tx s @ take (tx_room s) buf, tx_room := 0\<rparr>))"

text \<open>
  \<open>receive_message_size\<close> is the same function in every variant: a short read of the
  prefix gives 0.
\<close>

definition receive_message_size :: "socket \<Rightarrow> u32 \<times> socket" where
  "receive_message_size s =
     (let (size_bytes, s1) = recv_waitall s 4
      in if length size_bytes \<noteq> 4 then (0, s1) else (ntohl size_bytes, s1))"

section \<open>Framing in app_simple.cpp\<close>

text \<open>
  \<open>receive_json_message\<close> (app_simple.cpp, lines 106-122) returns the empty string for
  every failure; \<open>send_json_message\<close> (lines 124-135) returns whether both writes were
  complete. \<open>message.length()\<close> is converted to \<open>uint32_t\<close> by \<open>htonl\<close>.
\<close>

definition receive_json_message_simple :: "socket \<Rightarrow> string \<times> socket" where
  "receive_json_message_simple s =
     (let (message_size, s1) = receive_message_size s
      in if message_size = 0 \<or> unat message_size > BUFFER_SIZE then ([], s1)
         else let (buffer, s2) = recv_waitall s1 (unat message_size)
              in if length buffer \<noteq> unat message_size then ([], s2) else (buffer, s2))"

definition send_json_message_simple :: "socket \<Rightarrow> string \<Rightarrow> bool \<times> socket" where
  "send_json_message_simple s message =
     (let message_size = htonl (of_nat (length message));
          (bytes_sent, s1) = send s message_size
      in if bytes_sent \<noteq> 4 then (False, s1)
         else let (bytes_sent2, s2) = send s1 message
              in (bytes_sent2 = int (length message), s2))"

section \<open>Framing in app.c and app_cjson.c\<close>

text \<open>
  \<open>receive_json_message\<close> of app.c (lines 120-135) fills the caller's buffer (a
  \<open>char[BUFFER_SIZE]\<close> on the worker's stack) and returns the length or \<open>-1\<close>;
  \<open>None\<close> stands for \<open>-1\<close>, \<open>Some p\<close> for the payload \<open>p\<close> left in the buffer.
  It never allocates.
\<close>

definition receive_json_message_c :: "socket \<Rightarrow> nat \<Rightarrow> string option \<times> socket" where
  "receive_json_message_c s buffer_size =
     (let (message_size, s1) = receive_message_size s
      in if message_size = 0 \<or> unat message_size \<ge> buffer_size then (None, s1)
         else let (buffer, s2) = recv_waitall s1 (unat message_size)
              in if length buffer \<noteq> unat message_size then (None, s2) else (Some buffer, s2))"

text \<open>
  \<open>receive_json_message\<close> of app_cjson.c (lines 88-110) allocates the buffer with
  \<open>malloc(message_size + 1)\<close>. \<open>malloc_ok n\<close> says whether the allocation of \<open>n\<close> bytes
  succeeds; the second component of the result lists the sizes \<open>malloc\<close> was asked for.
  \<open>None\<close> stands for \<open>NULL\<close>.
\<close>

definition receive_json_message_cjson ::
  "(nat \<Rightarrow> bool) \<Rightarrow> socket \<Rightarrow> string option \<times> nat list \<times> socket" where
  "receive_json_message_cjson malloc_ok s =
     (let (message_size, s1) = receive_message_size s
      in if message_size = 0 \<or> unat message_size > BUFFER_SIZE - 1 then (None, [], s1)
         else if \<not> malloc_ok (unat message_size + 1) then (None, [unat message_size + 1], s1)
         else let (buffer, s2) = recv_waitall s1 (unat message_size)
              in if length buffer \<noteq> unat message_size
                 then (None, [unat message_size + 1], s2)
                 else (Some buffer, [unat message_size + 1], s2))"

section \<open>Strings and numbers of the C and C++ libraries\<close>

text \<open>
  A position in a string (\<open>size_t pos\<close> into a \<open>std::string\<close>, \<open>char* pos\<close> into a
  C string) is modelled as the text from that position on.

  \<open>str_after json needle\<close> is the text after the first occurrence of \<open>needle\<close>: the
  position \<open>json.find(needle) + needle.length()\<close>, or \<open>strstr(json, needle) +
  strlen(needle)\<close>. \<open>None\<close> stands for \<open>npos\<close> and for \<open>NULL\<close>.
\<close>

fun str_after :: "string \<Rightarrow> string \<Rightarrow> string option" where
  "str_after [] needle = (if needle = [] then Some [] else None)"
| "str_after (c # cs) needle =
     (if prefix needle (c # cs) then Some (drop (length needle) (c # cs))
      else str_after cs needle)"

definition isspace :: "char \<Rightarrow> bool" where
  "isspace c = (c = CHR '' '' \<or> (9 \<le> (of_char c :: nat) \<and> (of_char c :: nat) \<le> 13))"

definition isdigit :: "char \<Rightarrow> bool" where
  "isdigit c = (48 \<le> (of_char c :: nat) \<and> (of_char c :: nat) \<le> 57)"

definition digits_value :: "string \<Rightarrow> int" where
  "digits_value ds = foldl (\<lambda>acc d. acc * 10 + (int (of_char d) - 48)) 0 ds"

definition LLONG_MAX :: int where
  "LLONG_MAX = 2 ^ 63 - 1"

definition LLONG_MIN :: int where
  "LLONG_MIN = - (2 ^ 63)"

text \<open>
  The arithmetic of the counters. An \<open>int\<close> has 32 bits and a \<open>long long\<close> 64, in
  two's complement: \<open>wrap_int x\<close> and \<open>wrap_llong x\<close> are the values stored when the
  exact result is \<open>x\<close>, and \<open>int_incr\<close> and \<open>llong_incr\<close> are \<open>++\<close>. On a
  \<open>std::atomic<int>\<close>, and with \<open>__sync_add_and_fetch\<close>, \<open>++\<close> is defined to wrap
  around; on a plain \<open>int\<close> that holds \<open>INT_MAX\<close> it is undefined in C and in C++, and
  the model gives it the same result.
\<close>

definition INT_MAX :: int where
  "INT_MAX = 2 ^ 31 - 1"

definition INT_MIN :: int where
  "INT_MIN = - (2 ^ 31)"

definition wrap_int :: "int \<Rightarrow> int" where
  "wrap_int x = (x + 2 ^ 31) mod 2 ^ 32 - 2 ^ 31"

definition wrap_llong :: "int \<Rightarrow> int" where
  "wrap_llong x = (x + 2 ^ 63) mod 2 ^ 64 - 2 ^ 63"

definition int_incr :: "int \<Rightarrow> int" where
  "int_incr x = wrap_int (x + 1)"

definition llong_incr :: "int \<Rightarrow> int" where
  "llong_incr x = wrap_llong (x + 1)"

text \<open>
  The number \<open>strtoll(str, NULL, 10)\<close> reads: white space, an optional sign, decimal
  digits; \<open>None\<close> when there is no digit. The value is not yet clamped.
\<close>

definition scan_integer :: "string \<Rightarrow> int option" where
  "scan_integer str =
     (let r = dropWhile isspace str;
          negative = (r \<noteq> [] \<and> hd r = CHR ''-'');
          r1 = (if r \<noteq> [] \<and> (hd r = CHR ''-'' \<or> hd r = CHR ''+'') then tl r else r);
          ds = takeWhile isdigit r1
      in if ds = [] then None
         else Some (if negative then - digits_value ds else digits_value ds))"

datatype exn = invalid_argument | out_of_range

text \<open>
  \<open>std::stoll\<close> throws \<open>std::invalid_argument\<close> when no conversion can be done and
  \<open>std::out_of_range\<close> when the value does not fit a \<open>long long\<close>.
\<close>

definition stoll :: "string \<Rightarrow> exn + int" where
  "stoll str =
     (case scan_integer str of
        None \<Rightarrow> Inl invalid_argument
      | Some v \<Rightarrow> if v < LLONG_MIN \<or> LLONG_MAX < v then Inl out_of_range else Inr v)"

text \<open>\<open>strtoll\<close> returns 0 when no conversion can be done and clamps to the range.\<close>

definition strtoll :: "string \<Rightarrow> int" where
  "strtoll str =
     (case scan_integer str of
        None \<Rightarrow> 0
      | Some v \<Rightarrow> if v < LLONG_MIN then LLONG_MIN else if LLONG_MAX < v then LLONG_MAX else v)"

text \<open>Decimal output of an integer (\<open>operator<<\<close>, \<open>%d\<close>, \<open>%lld\<close>).\<close>

fun show_nat :: "nat \<Rightarrow> string" where
  "show_nat n =
     (if n < 10 then [char_of (48 + n)] else show_nat (n div 10) @ [char_of (48 + n mod 10)])"

declare show_nat.simps [simp del]

definition show_int :: "int \<Rightarrow> string" where
  "show_int i = (if i < 0 then CHR ''-'' # show_nat (nat (- i)) else show_nat (nat i))"

section \<open>The message handler of app_simple.cpp\<close>

text \<open>
  \<open>extract_json_value\<close> (app_simple.cpp, lines 71-95): the value that follows the first
  occurrence of \<open>"key":\<close>, scanned by hand: a string value runs to the next double quote,
  any other value to the next comma or closing brace.
\<close>

definition extract_json_value :: "string \<Rightarrow> string \<Rightarrow> string" where
  \<open>extract_json_value json key =
     (let search_key = ''"'' @ key @ ''":''
      in case str_after json search_key of
           None \<Rightarrow> []
         | Some after_key \<Rightarrow>
             let pos = dropWhile (\<lambda>c. c = CHR '' '' \<or> c = CHR 0x09) after_key
             in if pos = [] then []
                else if hd pos = CHR ''"''
                then (if CHR ''"'' \<in> set (tl pos)
                      then takeWhile (\<lambda>c. c \<noteq> CHR ''"'') (tl pos)
                      else [])
                else takeWhile (\<lambda>c. c \<noteq> CHR '','' \<and> c \<noteq> CHR ''}'') pos)\<close>

text \<open>
  \<open>create_json_response\<close> (lines 52-68). Its parameter \<open>tipo\<close> is not used. The clock
  reading and the two atomic counters it loads are parameters here:
  \<open>now_ms\<close>, \<open>active\<close> (\<open>clientes_conectados\<close>) and \<open>messages\<close> (\<open>total_messages\<close>).
\<close>

definition create_json_response ::
  "string \<Rightarrow> string \<Rightarrow> int \<Rightarrow> int \<Rightarrow> int \<Rightarrow> int \<Rightarrow> int \<Rightarrow> string" where
  \<open>create_json_response tipo data timestamp message_id now_ms active messages =
     ''{'' @ ''"tipo":"RESPONSE",''
     @ ''"server_timestamp":'' @ show_int now_ms @ '',''
     @ ''"client_timestamp":'' @ show_int timestamp @ '',''
     @ ''"message_id":'' @ show_int message_id @ '',''
     @ ''"data":"'' @ data @ ''",''
     @ ''"server_stats":{''
     @ ''"active_connections":'' @ show_int active @ '',''
     @ ''"total_messages":'' @ show_int messages
     @ ''}''
     @ ''}''\<close>

text \<open>
  The dispatch of \<open>tratarCliente\<close> (lines 194-204): \<open>std::string\<close> equality with the
  three literals, in this order.
\<close>

definition response_data_simple :: "string \<Rightarrow> string \<Rightarrow> string" where
  "response_data_simple tipo data =
     (if tipo = ''PING'' then ''PONG''
      else if tipo = ''ECHO'' then data
      else if tipo = ''STATS'' then ''SERVER_STATS''
      else ''ACK'')"

text \<open>
  The body of the \<open>try\<close> block up to the response (lines 185-207): the three fields are
  extracted, the time stamp is converted with \<open>std::stoll\<close> when it is not empty, and the
  response is built. \<open>Inl\<close> is the exception that reaches the \<open>catch\<close>.
\<close>

definition handle_simple :: "string \<Rightarrow> int \<Rightarrow> int \<Rightarrow> int \<Rightarrow> int \<Rightarrow> exn + string" where
  "handle_simple message_json message_id now_ms active messages =
     (let tipo = extract_json_value message_json ''tipo'';
          data = extract_json_value message_json ''data'';
          timestamp_str = extract_json_value message_json ''timestamp''
      in case (if timestamp_str \<noteq> [] then stoll timestamp_str else Inr 0) of
           Inl e \<Rightarrow> Inl e
         | Inr timestamp \<Rightarrow>
             Inr (create_json_response tipo (response_data_simple tipo data) timestamp
                    message_id now_ms active messages))"

section \<open>The shared counters and a worker's state\<close>

text \<open>
  \<open>struct ServerStats\<close> of app_simple.cpp and app_json.cpp has four counters; the C
  variants (app.c, app_cjson.c) add \<open>peak_connections\<close> (and \<open>start_time\<close>, which only
  the report prints). \<open>total_messages\<close> is an \<open>int\<close> in the C++ variants and a
  \<open>long long\<close> in the C variants. The counters a worker increments for every message it
  reads or answers (\<open>server_stats.total_messages\<close>, the atomic \<open>total_messages\<close> and the
  local \<open>messages_from_client\<close>) are incremented with \<open>int_incr\<close> and \<open>llong_incr\<close>.
  The connection counters and \<open>errors\<close> are unbounded integers: what is proved of them
  follows one increment or compares them in one state, and a run in which one of them
  passes \<open>INT_MAX\<close> is outside the model.
\<close>

record ServerStats =
  total_connections :: int
  total_messages :: int
  active_threads :: int
  errors :: int

record ServerStats_c = ServerStats +
  peak_connections :: int

text \<open>
  The globals every worker shares: the run flag \<open>servidor_rodando\<close>, the connection count
  \<open>clientes_conectados\<close> and \<open>server_stats\<close>. The C++ variants have a second message
  counter, the atomic \<open>total_messages\<close>, here \<open>atomic_total_messages\<close>.
\<close>

record 'stats globals =
  servidor_rodando :: bool
  clientes_conectados :: int
  server_stats :: 'stats

record globals_cpp = "ServerStats globals" +
  atomic_total_messages :: int

text \<open>
  \<open>server_stats.errors++\<close>; \<open>server_stats.total_messages++\<close> on the \<open>int\<close> of the
  C++ variants; and the same on the \<open>long long\<close> of the C variants (app.c does it with
  \<open>__sync_add_and_fetch\<close>).
\<close>

definition errors_incr ::
  "('s ServerStats_scheme, 'g) globals_scheme \<Rightarrow> ('s ServerStats_scheme, 'g) globals_scheme" where
  "errors_incr g = g\<lparr>server_stats := (server_stats g)\<lparr>errors := errors (server_stats g) + 1\<rparr>\<rparr>"

definition total_messages_incr ::
  "('s ServerStats_scheme, 'g) globals_scheme \<Rightarrow> ('s ServerStats_scheme, 'g) globals_scheme" where
  "total_messages_incr g =
     g\<lparr>server_stats :=
         (server_stats g)\<lparr>total_messages := int_incr (total_messages (server_stats g))\<rparr>\<rparr>"

definition total_messages_incr_c ::
  "('s ServerStats_scheme, 'g) globals_scheme \<Rightarrow> ('s ServerStats_scheme, 'g) globals_scheme" where
  "total_messages_incr_c g =
     g\<lparr>server_stats :=
         (server_stats g)\<lparr>total_messages := llong_incr (total_messages (server_stats g))\<rparr>\<rparr>"

text \<open>
  A worker thread: its socket, the globals, and its local \<open>messages_from_client\<close>.
  The models run one worker on its own: no other thread changes the globals meanwhile,
  and \<open>servidor_rodando\<close> does not change during the run.
\<close>

record 'g worker =
  sock :: socket
  shared :: 'g
  messages_from_client :: int

text \<open>
  How one iteration of a worker's \<open>while (servidor_rodando)\<close> loop ends: \<open>Closed\<close>, no
  message could be read (\<open>break\<close>); \<open>Replied r\<close>, the response \<open>r\<close> was written and the
  loop goes on; \<open>Dropped\<close>, the message was not parsed (\<open>continue\<close>); \<open>Threw\<close>, an
  exception reached the \<open>catch\<close> (\<open>break\<close>); \<open>WriteFailed r\<close>, the response \<open>r\<close>
  could not be written in full (\<open>break\<close>). The adaptive pause after a response only
  sleeps and is left out.
\<close>

datatype 'r outcome = Closed | Replied 'r | Dropped | Threw | WriteFailed 'r

definition continues :: "'r outcome \<Rightarrow> bool" where
  "continues oc = (case oc of Replied r \<Rightarrow> True | Dropped \<Rightarrow> True | _ \<Rightarrow> False)"

section \<open>The worker of app_simple.cpp\<close>

text \<open>
  One iteration of the loop of \<open>tratarCliente\<close> (app_simple.cpp, lines 171-242).
  \<open>clock n\<close> is the reading of the system clock, in milliseconds, when the response to
  the \<open>n\<close>-th message is built.
\<close>

definition iteration_simple ::
  "(int \<Rightarrow> int) \<Rightarrow> globals_cpp worker \<Rightarrow> string outcome \<times> globals_cpp worker" where
  "iteration_simple clock w =
     (let (message_json, s1) = receive_json_message_simple (sock w)
      in if message_json = [] then (Closed, w\<lparr>sock := s1\<rparr>)
         else
           let n = int_incr (messages_from_client w);
               g1 = (shared w)\<lparr>atomic_total_messages :=
                                 int_incr (atomic_total_messages (shared w))\<rparr>
           in case handle_simple message_json n (clock n) (clientes_conectados g1)
                     (atomic_total_messages g1) of
                Inl e \<Rightarrow>
                  (Threw, w\<lparr>sock := s1, shared := errors_incr g1, messages_from_client := n\<rparr>)
              | Inr response_json \<Rightarrow>
                  let (ok, s2) = send_json_message_simple s1 response_json
                  in if \<not> ok
                     then (WriteFailed response_json,
                           w\<lparr>sock := s2, shared := g1, messages_from_client := n\<rparr>)
                     else (Replied response_json,
                           w\<lparr>sock := s2, shared := total_messages_incr g1,
                             messages_from_client := n\<rparr>))"

text \<open>Every iteration that reads a message consumes input, so the loop ends.\<close>

lemma rx_send: "rx (snd (send s buf)) = rx s"
  by (simp add: send_def)

lemma rx_send_json_message_simple: "rx (snd (send_json_message_simple s m)) = rx s"
  by (simp add: send_json_message_simple_def Let_def split: prod.splits)
     (metis rx_send snd_conv)

lemma receive_message_size_consumes:
  "receive_message_size s = (n, s1) \<Longrightarrow> n \<noteq> 0 \<Longrightarrow> length (rx s1) < length (rx s)"
  by (auto simp add: receive_message_size_def recv_waitall_def split: if_splits)

lemma receive_message_size_rx:
  "receive_message_size s = (n, s1) \<Longrightarrow> length (rx s1) \<le> length (rx s)"
  by (auto simp add: receive_message_size_def recv_waitall_def split: if_splits)

lemma receive_json_message_simple_consumes:
  "receive_json_message_simple s = (m, s1) \<Longrightarrow> m \<noteq> [] \<Longrightarrow> length (rx s1) < length (rx s)"
  by (auto simp add: receive_json_message_simple_def recv_waitall_def Let_def
      split: prod.splits if_splits dest!: receive_message_size_consumes)

lemma send_json_message_simple_rx:
  "send_json_message_simple s m = (ok, s2) \<Longrightarrow> rx s2 = rx s"
  using rx_send_json_message_simple [of s m] by simp

lemma iteration_simple_consumes:
  assumes "iteration_simple clock w = (oc, w1)" and "oc \<noteq> Closed"
  shows "length (rx (sock w1)) < length (rx (sock w))"
proof -
  obtain m s1 where r: "receive_json_message_simple (sock w) = (m, s1)"
    by (cases "receive_json_message_simple (sock w)")
  with assms have m: "m \<noteq> []"
    by (auto simp add: iteration_simple_def)
  with r have less: "length (rx s1) < length (rx (sock w))"
    by (rule receive_json_message_simple_consumes)
  have "rx (sock w1) = rx s1"
    using assms(1) r m
    by (auto simp add: iteration_simple_def Let_def
        split: prod.splits if_splits sum.splits dest: send_json_message_simple_rx)
  with less show ?thesis by simp
qed

text \<open>
  The loop. Its result is the list of the outcomes of the messages read, in order, and the
  state when the loop is left.
\<close>

function loop_simple ::
  "(int \<Rightarrow> int) \<Rightarrow> globals_cpp worker \<Rightarrow> string outcome list \<times> globals_cpp worker" where
  "loop_simple clock w =
     (if \<not> servidor_rodando (shared w) then ([], w)
      else let (oc, w1) = iteration_simple clock w
           in if continues oc
              then (let (log, w2) = loop_simple clock w1 in (oc # log, w2))
              else if oc = Closed then ([], w1) else ([oc], w1))"
  by pat_completeness auto
termination
proof (relation "measure (\<lambda>(clock, w). length (rx (sock w)))")
  show "wf (measure (\<lambda>(clock, w). length (rx (sock w))))" by simp
next
  fix clock :: "int \<Rightarrow> int" and w :: "globals_cpp worker" and x oc w1
  assume "x = iteration_simple clock w" and "(oc, w1) = x" and "continues oc"
  then have "iteration_simple clock w = (oc, w1)" and "oc \<noteq> Closed"
    by (auto simp add: continues_def)
  then have "length (rx (sock w1)) < length (rx (sock w))"
    by (rule iteration_simple_consumes)
  then show "((clock, w1), (clock, w)) \<in> measure (\<lambda>(clock, w). length (rx (sock w)))"
    by simp
qed

declare loop_simple.simps [simp del]


text \<open>
  \<open>tratarCliente\<close> (lines 137-255): the counters are updated on entry (lines 158-163),
  the loop runs, the socket is closed and the counters are updated on exit (lines
  247-251). app_json.cpp has the same two updates (lines 113-118 and 223-227).
\<close>

definition connect_cpp ::
  "('s ServerStats_scheme, 'g) globals_scheme \<Rightarrow> ('s ServerStats_scheme, 'g) globals_scheme" where
  "connect_cpp g =
     g\<lparr>server_stats := (server_stats g)
          \<lparr>total_connections := total_connections (server_stats g) + 1,
           active_threads := active_threads (server_stats g) + 1\<rparr>,
       clientes_conectados := clientes_conectados g + 1\<rparr>"

definition disconnect_cpp ::
  "('s ServerStats_scheme, 'g) globals_scheme \<Rightarrow> ('s ServerStats_scheme, 'g) globals_scheme" where
  "disconnect_cpp g =
     g\<lparr>server_stats := (server_stats g)\<lparr>active_threads := active_threads (server_stats g) - 1\<rparr>,
       clientes_conectados := clientes_conectados g - 1\<rparr>"

definition tratarCliente_simple ::
  "(int \<Rightarrow> int) \<Rightarrow> socket \<Rightarrow> globals_cpp \<Rightarrow> string outcome list \<times> globals_cpp worker" where
  "tratarCliente_simple clock socketCliente g =
     (let w0 = \<lparr>sock = socketCliente, shared = connect_cpp g, messages_from_client = 0\<rparr>;
          (log, w1) = loop_simple clock w0
      in (log, w1\<lparr>shared := disconnect_cpp (shared w1)\<rparr>))"

section \<open>The worker of app.c\<close>

text \<open>
  The receive buffer holds the payload followed by \<open>'\0'\<close>; the string functions of C
  see it up to its first zero byte.
\<close>

definition cstr :: "string \<Rightarrow> string" where
  "cstr buffer = takeWhile (\<lambda>c. c \<noteq> CHR 0x00) buffer"

text \<open>
  \<open>extract_json_value\<close> of app.c (lines 63-95), on a C string: \<open>None\<close> stands for
  \<open>NULL\<close>; the value is cut to \<open>buffer_size - 1\<close> characters.
\<close>

definition extract_json_value_c :: "string \<Rightarrow> string \<Rightarrow> nat \<Rightarrow> string option" where
  \<open>extract_json_value_c json key buffer_size =
     (let search_key = take 255 (''"'' @ key @ ''":'')
      in case str_after json search_key of
           None \<Rightarrow> None
         | Some after_key \<Rightarrow>
             let pos = dropWhile (\<lambda>c. c = CHR '' '' \<or> c = CHR 0x09) after_key
             in if pos \<noteq> [] \<and> hd pos = CHR ''"''
                then (if CHR ''"'' \<in> set (tl pos)
                      then Some (take (buffer_size - 1) (takeWhile (\<lambda>c. c \<noteq> CHR ''"'') (tl pos)))
                      else None)
                else Some (take (buffer_size - 1)
                             (takeWhile (\<lambda>c. c \<noteq> CHR '','' \<and> c \<noteq> CHR ''}'') pos)))\<close>

text \<open>
  \<open>create_json_response\<close> of app.c (lines 98-109): \<open>snprintf\<close> with the format of the
  source, which writes the data key as \<open>"data:"\<close>. The clock reading and the two globals
  it reads are parameters.
\<close>

definition create_json_response_c ::
  "nat \<Rightarrow> string \<Rightarrow> string \<Rightarrow> int \<Rightarrow> int \<Rightarrow> int \<Rightarrow> int \<Rightarrow> int \<Rightarrow> string" where
  \<open>create_json_response_c buffer_size tipo data timestamp message_id now_ms active messages =
     take (buffer_size - 1)
       (''{"tipo":"RESPONSE","server_timestamp":'' @ show_int now_ms
        @ '',"client_timestamp":'' @ show_int timestamp
        @ '',"message_id":'' @ show_int message_id
        @ '',"data:"'' @ data
        @ ''","server_stats":{"active_connections":'' @ show_int active
        @ '',"total_messages":'' @ show_int messages @ ''}}'')\<close>

text \<open>The dispatch of \<open>tratar_cliente\<close> (lines 218-228): \<open>strcmp\<close> with the three literals.\<close>

definition response_data_c :: "string option \<Rightarrow> string option \<Rightarrow> string" where
  "response_data_c tipo data =
     (if tipo = Some ''PING'' then ''PONG''
      else if tipo = Some ''ECHO'' then (case data of Some d \<Rightarrow> d | None \<Rightarrow> ''ECHO'')
      else if tipo = Some ''STATS'' then ''SERVER_STATS''
      else ''ACK'')"

text \<open>Lines 208-232: the fields are extracted and the response buffer is filled.\<close>

definition handle_c :: "string \<Rightarrow> int \<Rightarrow> int \<Rightarrow> int \<Rightarrow> int \<Rightarrow> string" where
  "handle_c buffer message_id now_ms active messages =
     (let json = cstr buffer;
          tipo = extract_json_value_c json ''tipo'' 256;
          data = extract_json_value_c json ''data'' 256;
          timestamp_str = extract_json_value_c json ''timestamp'' 64;
          timestamp = (case timestamp_str of None \<Rightarrow> 0 | Some t \<Rightarrow> strtoll t)
      in create_json_response_c BUFFER_SIZE
           (case tipo of Some t \<Rightarrow> t | None \<Rightarrow> ''UNKNOWN'')
           (response_data_c tipo data) timestamp message_id now_ms active messages)"

text \<open>\<open>send_json_message\<close> of app.c (lines 137-150): 0 or \<open>-1\<close>.\<close>

definition send_json_message_c :: "socket \<Rightarrow> string \<Rightarrow> int \<times> socket" where
  "send_json_message_c s message =
     (let message_len = length (cstr message);
          message_size = htonl (of_nat message_len);
          (bytes_sent, s1) = send s message_size
      in if bytes_sent \<noteq> 4 then (- 1, s1)
         else let (bytes_sent2, s2) = send s1 (cstr message)
              in (if bytes_sent2 = int message_len then 0 else - 1, s2))"

text \<open>
  One iteration of the loop of \<open>tratar_cliente\<close> (app.c, lines 196-254):
  \<open>server_stats.total_messages\<close> is incremented as soon as a message is read (line 206).
\<close>

definition iteration_c ::
  "(int \<Rightarrow> int) \<Rightarrow> ServerStats_c globals worker
     \<Rightarrow> string outcome \<times> ServerStats_c globals worker" where
  "iteration_c clock w =
     (let (received, s1) = receive_json_message_c (sock w) BUFFER_SIZE
      in case received of
           None \<Rightarrow> (Closed, w\<lparr>sock := s1\<rparr>)
         | Some buffer \<Rightarrow>
             let n = int_incr (messages_from_client w);
                 g1 = total_messages_incr_c (shared w);
                 response_buffer = handle_c buffer n (clock n) (clientes_conectados g1)
                                     (total_messages (server_stats g1));
                 (rc, s2) = send_json_message_c s1 response_buffer
             in if rc < 0
                then (WriteFailed response_buffer,
                      w\<lparr>sock := s2, shared := g1, messages_from_client := n\<rparr>)
                else (Replied response_buffer,
                      w\<lparr>sock := s2, shared := g1, messages_from_client := n\<rparr>))"

lemma send_json_message_c_rx:
  "send_json_message_c s m = (rc, s2) \<Longrightarrow> rx s2 = rx s"
  by (auto simp add: send_json_message_c_def Let_def send_def split: prod.splits if_splits)

lemma receive_json_message_c_consumes:
  "receive_json_message_c s n = (Some m, s1) \<Longrightarrow> length (rx s1) < length (rx s)"
  by (auto simp add: receive_json_message_c_def recv_waitall_def Let_def
      split: prod.splits if_splits dest!: receive_message_size_consumes)

lemma iteration_c_consumes:
  assumes "iteration_c clock w = (oc, w1)" and "oc \<noteq> Closed"
  shows "length (rx (sock w1)) < length (rx (sock w))"
proof -
  obtain r s1 where r: "receive_json_message_c (sock w) BUFFER_SIZE = (r, s1)"
    by (cases "receive_json_message_c (sock w) BUFFER_SIZE")
  with assms obtain m where m: "r = Some m"
    by (cases r) (auto simp add: iteration_c_def)
  with r have less: "length (rx s1) < length (rx (sock w))"
    by (simp add: receive_json_message_c_consumes)
  have "rx (sock w1) = rx s1"
    using assms(1) r m
    by (auto simp add: iteration_c_def Let_def
        split: prod.splits if_splits dest: send_json_message_c_rx)
  with less show ?thesis by simp
qed

function loop_c ::
  "(int \<Rightarrow> int) \<Rightarrow> ServerStats_c globals worker
     \<Rightarrow> string outcome list \<times> ServerStats_c globals worker" where
  "loop_c clock w =
     (if \<not> servidor_rodando (shared w) then ([], w)
      else let (oc, w1) = iteration_c clock w
           in if continues oc
              then (let (log, w2) = loop_c clock w1 in (oc # log, w2))
              else if oc = Closed then ([], w1) else ([oc], w1))"
  by pat_completeness auto
termination
proof (relation "measure (\<lambda>(clock, w). length (rx (sock w)))")
  show "wf (measure (\<lambda>(clock, w). length (rx (sock w))))" by simp
next
  fix clock :: "int \<Rightarrow> int" and w :: "ServerStats_c globals worker" and x oc w1
  assume "x = iteration_c clock w" and "(oc, w1) = x" and "continues oc"
  then have "iteration_c clock w = (oc, w1)" and "oc \<noteq> Closed"
    by (auto simp add: continues_def)
  then have "length (rx (sock w1)) < length (rx (sock w))"
    by (rule iteration_c_consumes)
  then show "((clock, w1), (clock, w)) \<in> measure (\<lambda>(clock, w). length (rx (sock w)))"
    by simp
qed

declare loop_c.simps [simp del]

text \<open>
  \<open>tratar_cliente\<close> (lines 152-272). On entry (lines 178-184, under \<open>stats_mutex\<close>) it
  counts the connection and compares \<open>clientes_conectados\<close>, which the accept loop has
  incremented, with the peak. On exit it decrements \<open>clientes_conectados\<close> under
  \<open>connection_mutex\<close> (lines 259-261) and then \<open>active_threads\<close> under \<open>stats_mutex\<close>
  (lines 263-265).
\<close>

definition connect_c :: "ServerStats_c globals \<Rightarrow> ServerStats_c globals" where
  "connect_c g =
     (let st = (server_stats g)
            \<lparr>total_connections := total_connections (server_stats g) + 1,
             active_threads := active_threads (server_stats g) + 1\<rparr>
      in g\<lparr>server_stats :=
             (if clientes_conectados g > peak_connections st
              then st\<lparr>peak_connections := clientes_conectados g\<rparr> else st)\<rparr>)"

definition leave_connection_c :: "ServerStats_c globals \<Rightarrow> ServerStats_c globals" where
  "leave_connection_c g = g\<lparr>clientes_conectados := clientes_conectados g - 1\<rparr>"

definition leave_stats_c :: "ServerStats_c globals \<Rightarrow> ServerStats_c globals" where
  "leave_stats_c g =
     g\<lparr>server_stats := (server_stats g)\<lparr>active_threads := active_threads (server_stats g) - 1\<rparr>\<rparr>"

definition tratar_cliente_c ::
  "(int \<Rightarrow> int) \<Rightarrow> socket \<Rightarrow> ServerStats_c globals
     \<Rightarrow> string outcome list \<times> ServerStats_c globals worker" where
  "tratar_cliente_c clock socket_cliente g =
     (let w0 = \<lparr>sock = socket_cliente, shared = connect_c g, messages_from_client = 0\<rparr>;
          (log, w1) = loop_c clock w0
      in (log, w1\<lparr>shared := leave_stats_c (leave_connection_c (shared w1))\<rparr>))"


section \<open>The JSON libraries\<close>

text \<open>
  app_json.cpp parses and prints with jsoncpp, app_cjson.c with cJSON. Neither library is
  part of the repository, so what the workers call is a parameter: a record of functions
  over the library's type \<open>'v\<close> of parsed values. \<open>reader_parse\<close> and \<open>cJSON_Parse\<close>
  return \<open>None\<close> for a text they reject. \<open>get_asString root key default\<close> stands for
  \<open>root.get(key, default).asString()\<close> and \<open>get_asInt64\<close> for the same with
  \<open>asInt64()\<close>; \<open>None\<close> when the call throws. \<open>number_item json key\<close> is the
  \<open>valueint\<close> of \<open>cJSON_GetObjectItem(json, key)\<close> when \<open>cJSON_IsNumber\<close> holds, and
  \<open>string_item\<close> its \<open>valuestring\<close> when \<open>cJSON_IsString\<close> holds.

  A response is built member by member; \<open>jv\<close> holds the members in the order of their
  first assignment.
\<close>

datatype jv = JString string | JInt int | JObject "(string \<times> jv) list"

record 'v jsoncpp =
  reader_parse :: "string \<Rightarrow> 'v option"
  get_asString :: "'v \<Rightarrow> string \<Rightarrow> string \<Rightarrow> string option"
  get_asInt64 :: "'v \<Rightarrow> string \<Rightarrow> int \<Rightarrow> int option"
  writeString :: "jv \<Rightarrow> string"

record 'v cjson =
  cJSON_Parse :: "string \<Rightarrow> 'v option"
  number_item :: "'v \<Rightarrow> string \<Rightarrow> int option"
  string_item :: "'v \<Rightarrow> string \<Rightarrow> string option"
  cJSON_Print :: "jv \<Rightarrow> string"

section \<open>The worker of app_json.cpp\<close>

text \<open>The response of app_json.cpp (lines 156-178).\<close>

definition response_json :: "string \<Rightarrow> string \<Rightarrow> int \<Rightarrow> int \<Rightarrow> int \<Rightarrow> globals_cpp \<Rightarrow> jv" where
  "response_json tipo data timestamp message_id now_ms g =
     (let head = [(''tipo'', JString ''RESPONSE''), (''server_timestamp'', JInt now_ms),
                  (''client_timestamp'', JInt timestamp), (''message_id'', JInt message_id)];
          stats = [(''active_connections'', JInt (clientes_conectados g)),
                   (''total_messages'', JInt (atomic_total_messages g))]
      in if tipo = ''PING''
         then JObject (head @ [(''server_stats'', JObject stats), (''data'', JString ''PONG''),
                               (''ping_data'', JString data)])
         else if tipo = ''ECHO''
         then JObject (head @ [(''server_stats'', JObject stats), (''data'', JString data)])
         else if tipo = ''STATS''
         then JObject (head @
                [(''server_stats'',
                  JObject (stats @
                    [(''total_connections'', JInt (total_connections (server_stats g))),
                     (''errors'', JInt (errors (server_stats g)))])),
                 (''data'', JString ''SERVER_STATS'')])
         else JObject (head @ [(''server_stats'', JObject stats), (''data'', JString ''ACK''),
                               (''original_data'', JString data)]))"

text \<open>
  One iteration of the loop of \<open>tratarCliente\<close> (app_json.cpp, lines 126-218).
  \<open>receive_json_message\<close> and \<open>send_json_message\<close> (lines 61-90) are the functions of
  app_simple.cpp, character for character.
\<close>

definition iteration_json ::
  "'v jsoncpp \<Rightarrow> (int \<Rightarrow> int) \<Rightarrow> globals_cpp worker \<Rightarrow> jv outcome \<times> globals_cpp worker" where
  "iteration_json lib clock w =
     (let (message_json, s1) = receive_json_message_simple (sock w)
      in if message_json = [] then (Closed, w\<lparr>sock := s1\<rparr>)
         else
           let n = int_incr (messages_from_client w);
               g1 = (shared w)\<lparr>atomic_total_messages :=
                                 int_incr (atomic_total_messages (shared w))\<rparr>;
               threw = (Threw, w\<lparr>sock := s1, shared := errors_incr g1, messages_from_client := n\<rparr>)
           in case reader_parse lib message_json of
                None \<Rightarrow>
                  (Dropped, w\<lparr>sock := s1, shared := errors_incr g1, messages_from_client := n\<rparr>)
              | Some root \<Rightarrow>
                  (case get_asString lib root ''tipo'' ''UNKNOWN'' of
                     None \<Rightarrow> threw
                   | Some tipo \<Rightarrow>
                  (case get_asString lib root ''data'' [] of
                     None \<Rightarrow> threw
                   | Some data \<Rightarrow>
                  (case get_asInt64 lib root ''timestamp'' 0 of
                     None \<Rightarrow> threw
                   | Some timestamp \<Rightarrow>
                       let response = response_json tipo data timestamp n (clock n) g1;
                           (ok, s2) = send_json_message_simple s1 (writeString lib response)
                       in if \<not> ok
                          then (WriteFailed response,
                                w\<lparr>sock := s2, shared := g1, messages_from_client := n\<rparr>)
                          else (Replied response,
                                w\<lparr>sock := s2, shared := total_messages_incr g1,
                                  messages_from_client := n\<rparr>)))))"

lemma iteration_json_consumes:
  assumes "iteration_json lib clock w = (oc, w1)" and "oc \<noteq> Closed"
  shows "length (rx (sock w1)) < length (rx (sock w))"
proof -
  obtain m s1 where r: "receive_json_message_simple (sock w) = (m, s1)"
    by (cases "receive_json_message_simple (sock w)")
  with assms have m: "m \<noteq> []"
    by (auto simp add: iteration_json_def)
  with r have less: "length (rx s1) < length (rx (sock w))"
    by (rule receive_json_message_simple_consumes)
  have "rx (sock w1) = rx s1"
    using assms(1) r m
    by (auto simp add: iteration_json_def Let_def
        split: prod.splits if_splits option.splits dest: send_json_message_simple_rx)
  with less show ?thesis by simp
qed

function loop_json ::
  "'v jsoncpp \<Rightarrow> (int \<Rightarrow> int) \<Rightarrow> globals_cpp worker \<Rightarrow> jv outcome list \<times> globals_cpp worker" where
  "loop_json lib clock w =
     (if \<not> servidor_rodando (shared w) then ([], w)
      else let (oc, w1) = iteration_json lib clock w
           in if continues oc
              then (let (log, w2) = loop_json lib clock w1 in (oc # log, w2))
              else if oc = Closed then ([], w1) else ([oc], w1))"
  by pat_completeness auto
termination
proof (relation "measure (\<lambda>(lib, clock, w). length (rx (sock w)))")
  show "wf (measure (\<lambda>(lib, clock, w). length (rx (sock w))))" by simp
next
  fix lib :: "'v jsoncpp" and clock :: "int \<Rightarrow> int" and w :: "globals_cpp worker" and x oc w1
  assume "x = iteration_json lib clock w" and "(oc, w1) = x" and "continues oc"
  then have "iteration_json lib clock w = (oc, w1)" and "oc \<noteq> Closed"
    by (auto simp add: continues_def)
  then have "length (rx (sock w1)) < length (rx (sock w))"
    by (rule iteration_json_consumes)
  then show "((lib, clock, w1), (lib, clock, w))
      \<in> measure (\<lambda>(lib, clock, w). length (rx (sock w)))"
    by simp
qed

declare loop_json.simps [simp del]

definition tratarCliente_json ::
  "'v jsoncpp \<Rightarrow> (int \<Rightarrow> int) \<Rightarrow> socket \<Rightarrow> globals_cpp
     \<Rightarrow> jv outcome list \<times> globals_cpp worker" where
  "tratarCliente_json lib clock socketCliente g =
     (let w0 = \<lparr>sock = socketCliente, shared = connect_cpp g, messages_from_client = 0\<rparr>;
          (log, w1) = loop_json lib clock w0
      in (log, w1\<lparr>shared := disconnect_cpp (shared w1)\<rparr>))"

section \<open>The worker of app_cjson.c\<close>

text \<open>\<open>send_json_response\<close> (app_cjson.c, lines 112-123).\<close>

definition send_json_response_cjson :: "socket \<Rightarrow> string \<Rightarrow> bool \<times> socket" where
  "send_json_response_cjson s response =
     (let response_size = (of_nat (length (cstr response)) :: u32);
          (bytes_sent, s1) = send s (htonl response_size)
      in if bytes_sent \<noteq> 4 then (False, s1)
         else let (bytes_sent2, s2) = send s1 (take (unat response_size) (cstr response))
              in (bytes_sent2 = int (unat response_size), s2))"

text \<open>
  One iteration of the loop of \<open>tratarCliente\<close> (app_cjson.c, lines 169-256).
  \<open>clock n\<close> is the JSON number made of the clock reading for the \<open>n\<close>-th message.
\<close>

definition iteration_cjson ::
  "'v cjson \<Rightarrow> (nat \<Rightarrow> bool) \<Rightarrow> (int \<Rightarrow> jv) \<Rightarrow> ServerStats_c globals worker
     \<Rightarrow> jv outcome \<times> ServerStats_c globals worker" where
  "iteration_cjson lib malloc_ok clock w =
     (let (received, allocs, s1) = receive_json_message_cjson malloc_ok (sock w)
      in case received of
           None \<Rightarrow> (Closed, w\<lparr>sock := s1\<rparr>)
         | Some message_json \<Rightarrow>
             let n = int_incr (messages_from_client w)
             in case cJSON_Parse lib (cstr message_json) of
                  None \<Rightarrow>
                    (Dropped,
                     w\<lparr>sock := s1, shared := errors_incr (shared w), messages_from_client := n\<rparr>)
                | Some json \<Rightarrow>
                    let msg_client_id = (case number_item lib json ''client_id'' of
                                           Some i \<Rightarrow> i | None \<Rightarrow> 0);
                        message_text = (case string_item lib json ''message'' of
                                          Some t \<Rightarrow> t | None \<Rightarrow> []);
                        sequence = (case number_item lib json ''sequence'' of
                                      Some i \<Rightarrow> i | None \<Rightarrow> 0);
                        response = JObject
                          [(''status'', JString ''ok''), (''client_id'', JInt msg_client_id),
                           (''original_message'', JString message_text),
                           (''sequence'', JInt sequence), (''server_timestamp'', clock n),
                           (''processed_by'', JString ''c_server'')];
                        (ok, s2) = send_json_response_cjson s1 (cJSON_Print lib response)
                    in if \<not> ok
                       then (WriteFailed response,
                             w\<lparr>sock := s2, shared := errors_incr (shared w),
                               messages_from_client := n\<rparr>)
                       else (Replied response,
                             w\<lparr>sock := s2, shared := total_messages_incr_c (shared w),
                               messages_from_client := n\<rparr>))"

lemma send_json_response_cjson_rx:
  "send_json_response_cjson s m = (ok, s2) \<Longrightarrow> rx s2 = rx s"
  by (auto simp add: send_json_response_cjson_def Let_def send_def split: prod.splits if_splits)

lemma receive_json_message_cjson_consumes:
  "receive_json_message_cjson malloc_ok s = (Some m, allocs, s1)
   \<Longrightarrow> length (rx s1) < length (rx s)"
  by (auto simp add: receive_json_message_cjson_def recv_waitall_def Let_def
      split: prod.splits if_splits dest!: receive_message_size_consumes)

lemma iteration_cjson_consumes:
  assumes "iteration_cjson lib malloc_ok clock w = (oc, w1)" and "oc \<noteq> Closed"
  shows "length (rx (sock w1)) < length (rx (sock w))"
proof -
  obtain r allocs s1 where r: "receive_json_message_cjson malloc_ok (sock w) = (r, allocs, s1)"
    by (cases "receive_json_message_cjson malloc_ok (sock w)")
  with assms obtain m where m: "r = Some m"
    by (cases r) (auto simp add: iteration_cjson_def)
  with r have less: "length (rx s1) < length (rx (sock w))"
    by (simp add: receive_json_message_cjson_consumes)
  have "rx (sock w1) = rx s1"
    using assms(1) r m
    by (auto simp add: iteration_cjson_def Let_def
        split: prod.splits if_splits option.splits dest: send_json_response_cjson_rx)
  with less show ?thesis by simp
qed

function loop_cjson ::
  "'v cjson \<Rightarrow> (nat \<Rightarrow> bool) \<Rightarrow> (int \<Rightarrow> jv) \<Rightarrow> ServerStats_c globals worker
     \<Rightarrow> jv outcome list \<times> ServerStats_c globals worker" where
  "loop_cjson lib malloc_ok clock w =
     (if \<not> servidor_rodando (shared w) then ([], w)
      else let (oc, w1) = iteration_cjson lib malloc_ok clock w
           in if continues oc
              then (let (log, w2) = loop_cjson lib malloc_ok clock w1 in (oc # log, w2))
              else if oc = Closed then ([], w1) else ([oc], w1))"
  by pat_completeness auto
termination
proof (relation "measure (\<lambda>(lib, malloc_ok, clock, w). length (rx (sock w)))")
  show "wf (measure (\<lambda>(lib, malloc_ok, clock, w). length (rx (sock w))))" by simp
next
  fix lib :: "'v cjson" and malloc_ok :: "nat \<Rightarrow> bool" and clock :: "int \<Rightarrow> jv"
    and w :: "ServerStats_c globals worker" and x oc w1
  assume "x = iteration_cjson lib malloc_ok clock w" and "(oc, w1) = x" and "continues oc"
  then have "iteration_cjson lib malloc_ok clock w = (oc, w1)" and "oc \<noteq> Closed"
    by (auto simp add: continues_def)
  then have "length (rx (sock w1)) < length (rx (sock w))"
    by (rule iteration_cjson_consumes)
  then show "((lib, malloc_ok, clock, w1), (lib, malloc_ok, clock, w))
      \<in> measure (\<lambda>(lib, malloc_ok, clock, w). length (rx (sock w)))"
    by simp
qed

declare loop_cjson.simps [simp del]


text \<open>
  \<open>tratarCliente\<close> of app_cjson.c (lines 125-280). On entry it counts the connection
  under \<open>stats_mutex\<close> (lines 150-153) and then, under \<open>connection_mutex\<close>, increments
  \<open>clientes_conectados\<close> and reconsiders the peak (lines 155-160). On exit it decrements
  \<open>active_threads\<close> (lines 270-272) and then \<open>clientes_conectados\<close> (lines 274-276).
\<close>

definition register_stats_cjson :: "ServerStats_c globals \<Rightarrow> ServerStats_c globals" where
  "register_stats_cjson g =
     g\<lparr>server_stats := (server_stats g)
          \<lparr>total_connections := total_connections (server_stats g) + 1,
           active_threads := active_threads (server_stats g) + 1\<rparr>\<rparr>"

definition register_connection_cjson :: "ServerStats_c globals \<Rightarrow> ServerStats_c globals" where
  "register_connection_cjson g =
     (let connected = clientes_conectados g + 1
      in g\<lparr>clientes_conectados := connected,
           server_stats :=
             (if connected > peak_connections (server_stats g)
              then (server_stats g)\<lparr>peak_connections := connected\<rparr>
              else server_stats g)\<rparr>)"

definition tratarCliente_cjson ::
  "'v cjson \<Rightarrow> (nat \<Rightarrow> bool) \<Rightarrow> (int \<Rightarrow> jv) \<Rightarrow> socket \<Rightarrow> ServerStats_c globals
     \<Rightarrow> jv outcome list \<times> ServerStats_c globals worker" where
  "tratarCliente_cjson lib malloc_ok clock socket_cliente g =
     (let w0 = \<lparr>sock = socket_cliente,
                shared = register_connection_cjson (register_stats_cjson g),
                messages_from_client = 0\<rparr>;
          (log, w1) = loop_cjson lib malloc_ok clock w0
      in (log, w1\<lparr>shared := leave_connection_c (leave_stats_c (shared w1))\<rparr>))"

section \<open>The batched message counter in the second half of app_cjson.c\<close>

text \<open>
  After the end of \<open>main\<close>, app_cjson.c holds the tail of another version of
  \<open>tratarCliente\<close> (lines 407-508). Its loop adds to \<open>server_stats.total_messages\<close> in
  batches (lines 476-485): after the response to a message, 100 when
  \<open>messages_from_client\<close> is a multiple of 100, else 1 when it is 1. On exit (lines
  494-496) it adds \<open>(messages_from_client % 100) - 1\<close> when that remainder is not 0.
  \<open>batch_increment k\<close> is what the loop adds after the response to the \<open>k\<close>-th message,
  and \<open>batched_total m\<close> what the thread has added in all when it ends after \<open>m\<close>
  answered messages.
\<close>

definition batch_increment :: "int \<Rightarrow> int" where
  "batch_increment k = (if k mod 100 = 0 then 100 else if k = 1 then 1 else 0)"

fun batched_in_loop :: "nat \<Rightarrow> int" where
  "batched_in_loop 0 = 0"
| "batched_in_loop (Suc m) = batched_in_loop m + batch_increment (int (Suc m))"

definition batched_total :: "nat \<Rightarrow> int" where
  "batched_total m =
     batched_in_loop m + (if int m mod 100 \<noteq> 0 then int m mod 100 - 1 else 0)"

section \<open>The accept loops\<close>

text \<open>
  One iteration of the accept loop of \<open>main\<close>, after \<open>accept\<close> has returned
  \<open>socket_cliente\<close>. \<open>malloc_ok\<close> and \<open>create_ok\<close> say whether \<open>malloc\<close> and
  \<open>pthread_create\<close> succeed. The result says what became of the socket: \<open>Retry\<close>, there
  is none; \<open>Close_Rejected\<close>, \<open>Close_NoMemory\<close>, \<open>Close_NoThread\<close>, it was closed;
  \<open>Start_Worker id\<close>, a worker thread with this \<open>client_id\<close> was started on it.
  The state is the globals and the local \<open>client_counter\<close>.
\<close>

datatype accepted = Retry | Close_Rejected | Close_NoMemory | Close_NoThread | Start_Worker int

text \<open>app.c, lines 346-399.\<close>

definition accept_iteration_c ::
  "int \<Rightarrow> bool \<Rightarrow> bool \<Rightarrow> ServerStats_c globals \<times> int
     \<Rightarrow> accepted \<times> ServerStats_c globals \<times> int" where
  "accept_iteration_c socket_cliente malloc_ok create_ok st =
     (let (g, client_counter) = st
      in if socket_cliente < 0
         then (Retry, if servidor_rodando g then errors_incr g else g, client_counter)
         else if clientes_conectados g \<ge> MAX_CONNECTIONS
         then (Close_Rejected, g, client_counter)
         else
           let g1 = g\<lparr>clientes_conectados := clientes_conectados g + 1\<rparr>;
               counter1 = client_counter + 1
           in if \<not> malloc_ok
              then (Close_NoMemory, g1\<lparr>clientes_conectados := clientes_conectados g1 - 1\<rparr>,
                    counter1)
              else if \<not> create_ok
              then (Close_NoThread, g1\<lparr>clientes_conectados := clientes_conectados g1 - 1\<rparr>,
                    counter1)
              else (Start_Worker counter1, g1, counter1))"

text \<open>app_cjson.c, lines 353-391.\<close>

definition accept_iteration_cjson ::
  "int \<Rightarrow> bool \<Rightarrow> bool \<Rightarrow> ServerStats_c globals \<times> int
     \<Rightarrow> accepted \<times> ServerStats_c globals \<times> int" where
  "accept_iteration_cjson socket_cliente malloc_ok create_ok st =
     (let (g, client_counter) = st
      in if socket_cliente = - 1 then (Retry, g, client_counter)
         else if active_threads (server_stats g) \<ge> MAX_THREADS
         then (Close_Rejected, g, client_counter)
         else if \<not> malloc_ok then (Close_NoMemory, g, client_counter)
         else if \<not> create_ok then (Close_NoThread, g, client_counter + 1)
         else (Start_Worker (client_counter + 1), g, client_counter + 1))"

section \<open>Interleavings of the accept loop and the workers\<close>

text \<open>
  The counters are updated in critical sections, each under one of the two mutexes. A
  schedule is a list of such sections in the order in which the threads run them:
  \<open>Accept\<close>, one iteration of the accept loop on a fresh socket; \<open>Register\<close>, the first
  section of a started worker; \<open>Register2\<close>, the second section on entry (app_cjson.c
  only); \<open>Leave\<close> and \<open>Leave2\<close>, the two sections on exit. The system state counts the
  workers in each phase; \<open>disconnects\<close> counts the sections run so far that decrement
  \<open>active_threads\<close>. A section of a worker that is not in the phase for it cannot run
  (\<open>None\<close>). Each section is one step: the entry section of app.c, which reads
  \<open>clientes_conectados\<close> while holding the other mutex, reads it once. What a worker does
  between entry and exit touches \<open>total_messages\<close> and \<open>errors\<close> only and is left out
  of the schedules.
\<close>

datatype transition = Accept | Register | Register2 | Leave | Leave2

record system =
  globals_of :: "ServerStats_c globals"
  client_counter :: int
  started :: nat
  entering :: nat
  running :: nat
  leaving :: nat
  disconnects :: nat

definition initial_system :: system where
  "initial_system =
     \<lparr>globals_of = \<lparr>servidor_rodando = True, clientes_conectados = 0,
                     server_stats = \<lparr>total_connections = 0, total_messages = 0,
                                     active_threads = 0, errors = 0, peak_connections = 0\<rparr>\<rparr>,
      client_counter = 0, started = 0, entering = 0, running = 0, leaving = 0,
      disconnects = 0\<rparr>"

fun step_c :: "transition \<Rightarrow> system \<Rightarrow> system option" where
  "step_c Accept s =
     (case accept_iteration_c 0 True True (globals_of s, client_counter s) of
        (Start_Worker client_id, g, counter) \<Rightarrow>
          Some (s\<lparr>globals_of := g, client_counter := counter, started := started s + 1\<rparr>)
      | (other, g, counter) \<Rightarrow> Some (s\<lparr>globals_of := g, client_counter := counter\<rparr>))"
| "step_c Register s =
     (if started s = 0 then None
      else Some (s\<lparr>globals_of := connect_c (globals_of s),
                   started := started s - 1, running := running s + 1\<rparr>))"
| "step_c Register2 s = None"
| "step_c Leave s =
     (if running s = 0 then None
      else Some (s\<lparr>globals_of := leave_connection_c (globals_of s),
                   running := running s - 1, leaving := leaving s + 1\<rparr>))"
| "step_c Leave2 s =
     (if leaving s = 0 then None
      else Some (s\<lparr>globals_of := leave_stats_c (globals_of s),
                   leaving := leaving s - 1, disconnects := disconnects s + 1\<rparr>))"

fun step_cjson :: "transition \<Rightarrow> system \<Rightarrow> system option" where
  "step_cjson Accept s =
     (case accept_iteration_cjson 0 True True (globals_of s, client_counter s) of
        (Start_Worker client_id, g, counter) \<Rightarrow>
          Some (s\<lparr>globals_of := g, client_counter := counter, started := started s + 1\<rparr>)
      | (other, g, counter) \<Rightarrow> Some (s\<lparr>globals_of := g, client_counter := counter\<rparr>))"
| "step_cjson Register s =
     (if started s = 0 then None
      else Some (s\<lparr>globals_of := register_stats_cjson (globals_of s),
                   started := started s - 1, entering := entering s + 1\<rparr>))"
| "step_cjson Register2 s =
     (if entering s = 0 then None
      else Some (s\<lparr>globals_of := register_connection_cjson (globals_of s),
                   entering := entering s - 1, running := running s + 1\<rparr>))"
| "step_cjson Leave s =
     (if running s = 0 then None
      else Some (s\<lparr>globals_of := leave_stats_c (globals_of s),
                   running := running s - 1, leaving := leaving s + 1,
                   disconnects := disconnects s + 1\<rparr>))"
| "step_cjson Leave2 s =
     (if leaving s = 0 then None
      else Some (s\<lparr>globals_of := leave_connection_c (globals_of s),
                   leaving := leaving s - 1\<rparr>))"

fun run_schedule ::
  "(transition \<Rightarrow> system \<Rightarrow> system option) \<Rightarrow> transition list \<Rightarrow> system \<Rightarrow> system option" where
  "run_schedule step [] s = Some s"
| "run_schedule step (t # ts) s =
     (case step t s of None \<Rightarrow> None | Some s1 \<Rightarrow> run_schedule step ts s1)"

section \<open>Reading a run\<close>

text \<open>
  The responses a worker wrote, in order; the \<open>message_id\<close> member of a response; the
  bytes \<open>send_json_message\<close> puts on the wire for a payload.
\<close>

fun replies :: "'r outcome list \<Rightarrow> 'r list" where
  "replies [] = []"
| "replies (Replied r # log) = r # replies log"
| "replies (oc # log) = replies log"

definition message_id_of :: "jv \<Rightarrow> jv option" where
  "message_id_of response =
     (case response of JObject members \<Rightarrow> map_of members ''message_id'' | _ \<Rightarrow> None)"

definition frame :: "string \<Rightarrow> string" where
  "frame payload = htonl (of_nat (length payload)) @ payload"

text \<open>
  The response whose write failed, if there was one, and the bytes of the responses that
  were written, as \<open>print\<close> renders them.
\<close>

fun failed :: "'r outcome list \<Rightarrow> 'r option" where
  "failed [] = None"
| "failed (WriteFailed r # log) = Some r"
| "failed (oc # log) = failed log"

definition frames_written :: "('r \<Rightarrow> string) \<Rightarrow> 'r outcome list \<Rightarrow> string" where
  "frames_written print log = concat (map (\<lambda>r. frame (print r)) (replies log))"

text \<open>
  The end of a client's stream: \<open>rest\<close> holds no further message when
  \<open>receive_json_message\<close> fails on it (the peer has closed the connection, or sends a
  prefix that is refused, or the frame is cut short).
\<close>

definition no_message_simple :: "string \<Rightarrow> bool" where
  "no_message_simple rest =
     (fst (receive_json_message_simple \<lparr>rx = rest, tx = [], tx_room = 0\<rparr>) = [])"

definition no_message_c :: "string \<Rightarrow> bool" where
  "no_message_c rest =
     (fst (receive_json_message_c \<lparr>rx = rest, tx = [], tx_room = 0\<rparr> BUFFER_SIZE) = None)"

definition no_message_cjson :: "(nat \<Rightarrow> bool) \<Rightarrow> string \<Rightarrow> bool" where
  "no_message_cjson malloc_ok rest =
     (fst (receive_json_message_cjson malloc_ok \<lparr>rx = rest, tx = [], tx_room = 0\<rparr>) = None)"

text \<open>
  What relates the counters to the phases of the workers in every reachable state of
  app.c and of app_cjson.c.
\<close>

definition stats_invariant_c :: "system \<Rightarrow> bool" where
  "stats_invariant_c s =
     (active_threads (server_stats (globals_of s)) = int (running s + leaving s)
      \<and> total_connections (server_stats (globals_of s))
          = int (running s + leaving s + disconnects s)
      \<and> clientes_conectados (globals_of s) = int (started s + running s)
      \<and> peak_connections (server_stats (globals_of s)) \<ge> int (running s))"

definition stats_invariant_cjson :: "system \<Rightarrow> bool" where
  "stats_invariant_cjson s =
     (active_threads (server_stats (globals_of s)) = int (entering s + running s)
      \<and> total_connections (server_stats (globals_of s))
          = int (entering s + running s + disconnects s)
      \<and> clientes_conectados (globals_of s) = int (running s + leaving s)
      \<and> peak_connections (server_stats (globals_of s)) \<ge> int (running s + leaving s))"

text \<open>
  Two stand-ins for the JSON libraries, for running the workers on concrete streams: they
  reject the text \<open>bad\<close>, accept every other text, find no member in it (so every
  field takes its default) and print every response as \<open>ok\<close>. With them, a clock that
  reads 0 at every message and a \<open>malloc\<close> that always succeeds.
\<close>

definition clock_zero :: "int \<Rightarrow> int" where
  "clock_zero n = 0"

definition clock_zero_json :: "int \<Rightarrow> jv" where
  "clock_zero_json n = JInt 0"

definition malloc_succeeds :: "nat \<Rightarrow> bool" where
  "malloc_succeeds n = True"

definition example_jsoncpp :: "string jsoncpp" where
  "example_jsoncpp =
     \<lparr>reader_parse = (\<lambda>payload. if payload = ''bad'' then None else Some payload),
      get_asString = (\<lambda>root key default. Some default),
      get_asInt64 = (\<lambda>root key default. Some default),
      writeString = (\<lambda>response. ''ok'')\<rparr>"

definition example_cjson :: "string cjson" where
  "example_cjson =
     \<lparr>cJSON_Parse = (\<lambda>payload. if payload = ''bad'' then None else Some payload),
      number_item = (\<lambda>json key. None),
      string_item = (\<lambda>json key. None),
      cJSON_Print = (\<lambda>response. ''ok'')\<rparr>"

section \<open>Properties of the framing\<close>

lemma byte_of_word: "(of_nat (unat (w::u32) mod 256) :: u32) = take_bit 8 w"
  by (simp add: take_bit_eq_mod word_unat_eq_iff unat_of_nat unat_mod_distrib)

lemma ntohl_htonl: "ntohl (htonl w) = w"
  unfolding ntohl_def htonl_def
  apply (simp add: byte_of_word)
  apply (rule bit_word_eqI)
  subgoal for n
    apply (simp add: bit_simps)
    apply (cases "n < 8"; cases "n < 16"; cases "n < 24"; auto)
    done
  done

lemma length_htonl: "length (htonl w) = 4"
  by (simp add: htonl_def)

lemma unat_length_u32: "n \<le> BUFFER_SIZE \<Longrightarrow> unat (of_nat n :: u32) = n"
  by (simp add: BUFFER_SIZE_def unat_of_nat)

lemma send_all:
  "length buf \<le> tx_room s \<Longrightarrow>
   send s buf = (int (length buf), s\<lparr>tx := tx s @ buf, tx_room := tx_room s - length buf\<rparr>)"
  by (simp add: send_def)

lemma send_json_message_simple_ok:
  assumes "4 + length p \<le> tx_room a"
  shows "send_json_message_simple a p =
           (True, a\<lparr>tx := tx a @ htonl (of_nat (length p)) @ p,
                     tx_room := tx_room a - (4 + length p)\<rparr>)"
  using assms by (simp add: send_json_message_simple_def send_all length_htonl)

lemma receive_json_message_simple_frame:
  assumes "0 < length p" and "length p \<le> BUFFER_SIZE"
    and "rx b = htonl (of_nat (length p)) @ p @ rest"
  shows "receive_json_message_simple b = (p, b\<lparr>rx := rest\<rparr>)"
proof -
  let ?w = "of_nat (length p) :: u32"
  have u: "unat ?w = length p"
    using assms(2) by (rule unat_length_u32)
  have nz: "?w \<noteq> 0"
    using u assms(1) by (metis less_numeral_extra(3) unat_0)
  have size: "receive_message_size b = (?w, b\<lparr>rx := p @ rest\<rparr>)"
    by (simp add: receive_message_size_def recv_waitall_def assms(3) length_htonl ntohl_htonl)
  show ?thesis
    using assms(2) nz
    by (simp add: receive_json_message_simple_def size u recv_waitall_def)
qed

text \<open>
  C1. Framing round trip (app_simple.cpp): for every payload \<open>p\<close> with
  \<open>0 < length p \<le> BUFFER_SIZE\<close>, \<open>send_json_message\<close> on a connection that takes the
  bytes succeeds and appends the 4-byte big-endian length and then the payload; and
  \<open>receive_json_message\<close> on a stream that starts with the bytes so written returns
  exactly \<open>p\<close> and consumes exactly that frame.
\<close>

theorem framing_round_trip:
  assumes "0 < length p" and "length p \<le> BUFFER_SIZE"
    and "4 + length p \<le> tx_room a"
    and "rx b = drop (length (tx a)) (tx (snd (send_json_message_simple a p))) @ rest"
  shows "fst (send_json_message_simple a p)
       \<and> tx (snd (send_json_message_simple a p)) = tx a @ htonl (of_nat (length p)) @ p
       \<and> receive_json_message_simple b = (p, b\<lparr>rx := rest\<rparr>)"
proof -
  have sent: "send_json_message_simple a p =
      (True, a\<lparr>tx := tx a @ htonl (of_nat (length p)) @ p,
                tx_room := tx_room a - (4 + length p)\<rparr>)"
    using assms(3) by (rule send_json_message_simple_ok)
  have wire: "rx b = htonl (of_nat (length p)) @ p @ rest"
    using assms(4) by (simp add: sent)
  have "receive_json_message_simple b = (p, b\<lparr>rx := rest\<rparr>)"
    using assms(1,2) wire by (rule receive_json_message_simple_frame)
  then show ?thesis
    by (simp add: sent)
qed

theorem framing_round_trip_witness:
  "fst (send_json_message_simple \<lparr>rx = [], tx = [], tx_room = 100\<rparr> ''PING'')
   \<and> tx (snd (send_json_message_simple \<lparr>rx = [], tx = [], tx_room = 100\<rparr> ''PING''))
       = tx \<lparr>rx = [], tx = [], tx_room = 100\<rparr> @ htonl (of_nat (length ''PING'')) @ ''PING''
   \<and> receive_json_message_simple
        \<lparr>rx = tx (snd (send_json_message_simple \<lparr>rx = [], tx = [], tx_room = 100\<rparr> ''PING'')) @ ''xy'',
         tx = [], tx_room = 0\<rparr>
       = (''PING'',
          \<lparr>rx = tx (snd (send_json_message_simple \<lparr>rx = [], tx = [], tx_room = 100\<rparr> ''PING'')) @ ''xy'',
           tx = [], tx_room = 0\<rparr>\<lparr>rx := ''xy''\<rparr>)"
  by (rule framing_round_trip) (simp_all add: BUFFER_SIZE_def)

text \<open>
  C2. Oversize rejection (app.c and app_cjson.c): when the stream holds a 4-byte prefix
  that decodes to 0 or to more than \<open>BUFFER_SIZE\<close>, \<open>receive_json_message\<close> returns
  its failure value (\<open>-1\<close> in app.c, \<open>NULL\<close> in app_cjson.c), has consumed the four
  bytes of the prefix and nothing else, and has asked \<open>malloc\<close> for nothing.
\<close>

theorem oversize_rejection:
  assumes "4 \<le> length (rx s)"
    and "ntohl (take 4 (rx s)) = 0 \<or> unat (ntohl (take 4 (rx s))) > BUFFER_SIZE"
  shows "receive_json_message_c s BUFFER_SIZE = (None, s\<lparr>rx := drop 4 (rx s)\<rparr>)
       \<and> receive_json_message_cjson malloc_ok s = (None, [], s\<lparr>rx := drop 4 (rx s)\<rparr>)"
proof -
  have size: "receive_message_size s = (ntohl (take 4 (rx s)), s\<lparr>rx := drop 4 (rx s)\<rparr>)"
    using assms(1) by (simp add: receive_message_size_def recv_waitall_def)
  show ?thesis
    using assms(2)
    by (auto simp add: receive_json_message_c_def receive_json_message_cjson_def size)
qed

lemma ntohl_8192: "ntohl [CHR 0x00, CHR 0x00, CHR 0x20, CHR 0x00] = 8192"
  by (simp add: ntohl_def)

theorem oversize_rejection_witness:
  "receive_json_message_c \<lparr>rx = [CHR 0x00, CHR 0x00, CHR 0x20, CHR 0x00] @ ''abc'', tx = [], tx_room = 0\<rparr>
       BUFFER_SIZE
     = (None, \<lparr>rx = ''abc'', tx = [], tx_room = 0\<rparr>)
   \<and> receive_json_message_cjson malloc_succeeds
       \<lparr>rx = [CHR 0x00, CHR 0x00, CHR 0x20, CHR 0x00] @ ''abc'', tx = [], tx_room = 0\<rparr>
     = (None, [], \<lparr>rx = ''abc'', tx = [], tx_room = 0\<rparr>)"
  using oversize_rejection
    [of "\<lparr>rx = [CHR 0x00, CHR 0x00, CHR 0x20, CHR 0x00] @ ''abc'', tx = [], tx_room = 0\<rparr>"
        malloc_succeeds]
  by (simp add: ntohl_8192 BUFFER_SIZE_def)

section \<open>Properties of the message handler of app_simple.cpp\<close>

lemma show_nat_digits: "c \<in> set (show_nat n) \<Longrightarrow> isdigit c"
proof (induction n rule: show_nat.induct)
  case (1 n)
  show ?case
  proof (cases "n < 10")
    case True
    with "1.prems" show ?thesis
      by (simp add: show_nat.simps [of n] isdigit_def of_char_of)
  next
    case False
    have "n mod 10 < 10" by simp
    with False "1.prems" "1.IH" show ?thesis
      by (auto simp add: show_nat.simps [of n] isdigit_def of_char_of)
  qed
qed

lemma show_nat_nonempty: "show_nat n \<noteq> []"
  by (simp add: show_nat.simps [of n])

lemma show_int_chars: "c \<in> set (show_int i) \<Longrightarrow> isdigit c \<or> c = CHR ''-''"
  by (auto simp add: show_int_def dest: show_nat_digits split: if_splits)

lemma show_int_nonempty: "show_int i \<noteq> []"
  by (simp add: show_int_def show_nat_nonempty)

lemma show_int_no_quote [simp]: \<open>CHR ''"'' \<notin> set (show_int i)\<close>
  using show_int_chars [of \<open>CHR ''"''\<close> i] by (auto simp add: isdigit_def)

lemma show_int_no_comma [simp]: \<open>CHR '','' \<notin> set (show_int i)\<close>
  using show_int_chars [of \<open>CHR '',''\<close> i] by (auto simp add: isdigit_def)

lemma show_int_no_brace [simp]: \<open>CHR ''}'' \<notin> set (show_int i)\<close>
  using show_int_chars [of \<open>CHR ''}''\<close> i] by (auto simp add: isdigit_def)

lemma hd_show_int: \<open>hd (show_int ts) \<noteq> CHR ''"''\<close>
  using show_int_nonempty [of ts] show_int_no_quote [of ts]
  by (cases "show_int ts") auto

lemma dropWhile_show_int:
  \<open>dropWhile (\<lambda>c. c = CHR '' '' \<or> c = CHR 0x09) (show_int ts @ xs) = show_int ts @ xs\<close>
proof (cases "show_int ts")
  case Nil
  then show ?thesis using show_int_nonempty [of ts] by simp
next
  case (Cons c cs)
  then have "c \<in> set (show_int ts)" by simp
  then have "isdigit c \<or> c = CHR ''-''" by (rule show_int_chars)
  then have "c \<noteq> CHR '' '' \<and> c \<noteq> CHR 0x09" by (auto simp add: isdigit_def)
  with Cons show ?thesis by simp
qed

lemma show_int_0: "show_int 0 = ''0''"
  by (simp add: show_int_def show_nat.simps [of 0] char_of_def bit_Suc_0_iff)

lemma show_int_1000: "show_int 1000 = ''1000''"
  by (simp add: show_int_def show_nat.simps [of 1000] show_nat.simps [of 100]
      show_nat.simps [of 10] show_nat.simps [of "Suc 0"] char_of_def bit_Suc_0_iff)

lemma str_after_skip:
  "q \<notin> set xs \<Longrightarrow> str_after (xs @ ys) (q # k) = str_after ys (q # k)"
  by (induction xs) auto

lemma takeWhile_until: "q \<notin> set xs \<Longrightarrow> takeWhile (\<lambda>c. c \<noteq> q) (xs @ q # ys) = xs"
  by (induction xs) auto

lemma takeWhile_until2:
  "a \<notin> set xs \<Longrightarrow> b \<notin> set xs \<Longrightarrow>
   takeWhile (\<lambda>c. c \<noteq> a \<and> c \<noteq> b) (xs @ a # ys) = xs"
  by (induction xs) auto

lemma no_key_prefix:
  "q \<notin> set s \<Longrightarrow> q \<notin> set k \<Longrightarrow> c \<noteq> d \<Longrightarrow> \<not> prefix (k @ [q, c]) (s @ q # d # r)"
proof (induction k arbitrary: s)
  case Nil
  then show ?case by (cases s) auto
next
  case (Cons y k)
  then show ?case by (cases s) auto
qed

text \<open>The fields of a response, read back with the scanner of the same file.\<close>

lemma response_data_field:
  assumes \<open>CHR ''"'' \<notin> set d\<close>
  shows \<open>extract_json_value (create_json_response tipo d ts mid now a m) ''data'' = d\<close>
  using assms
  by (simp add: extract_json_value_def create_json_response_def str_after_skip takeWhile_until)

lemma response_client_timestamp_field:
  \<open>extract_json_value (create_json_response tipo d ts mid now a m) ''client_timestamp''
     = show_int ts\<close>
  using show_int_nonempty [of ts]
  by (simp add: extract_json_value_def create_json_response_def str_after_skip takeWhile_until2
      dropWhile_show_int hd_show_int Let_def)

text \<open>The handler on the requests the claims name.\<close>

lemma handle_simple_tipo_ping:
  \<open>handle_simple ''{"tipo":"PING","timestamp":1000}'' mid now a m
     = Inr (create_json_response ''PING'' ''PONG'' 1000 mid now a m)\<close>
  by (simp add: handle_simple_def extract_json_value_def response_data_simple_def stoll_def
      scan_integer_def isspace_def isdigit_def digits_value_def LLONG_MAX_def LLONG_MIN_def)

lemma handle_simple_tipo_ping_no_timestamp:
  \<open>handle_simple ''{"tipo":"PING"}'' mid now a m
     = Inr (create_json_response ''PING'' ''PONG'' 0 mid now a m)\<close>
  by (simp add: handle_simple_def extract_json_value_def response_data_simple_def)

lemma handle_simple_type_ping:
  \<open>handle_simple ''{"type":"PING","timestamp":1000}'' mid now a m
     = Inr (create_json_response [] ''ACK'' 1000 mid now a m)\<close>
  by (simp add: handle_simple_def extract_json_value_def response_data_simple_def stoll_def
      scan_integer_def isspace_def isdigit_def digits_value_def LLONG_MAX_def LLONG_MIN_def)

lemma handle_simple_type_echo:
  \<open>handle_simple ''{"type":"ECHO","data":"hello"}'' mid now a m
     = Inr (create_json_response [] ''ACK'' 0 mid now a m)\<close>
  by (simp add: handle_simple_def extract_json_value_def response_data_simple_def)

lemma handle_simple_echo_quote:
  \<open>handle_simple ''{"tipo":"ECHO","data":"a"b"}'' mid now a m
     = Inr (create_json_response ''ECHO'' ''a'' 0 mid now a m)\<close>
  by (simp add: handle_simple_def extract_json_value_def response_data_simple_def)

lemma handle_simple_bad_timestamp:
  \<open>handle_simple ''{"tipo":"PING","timestamp":"abc"}'' mid now a m = Inl invalid_argument\<close>
  by (simp add: handle_simple_def extract_json_value_def response_data_simple_def stoll_def
      scan_integer_def isspace_def isdigit_def)


lemma handle_simple_echo:
  assumes \<open>CHR ''"'' \<notin> set s\<close>
  shows \<open>handle_simple (''{"tipo":"ECHO","data":"'' @ s @ ''"}'') mid now a m
     = Inr (create_json_response ''ECHO'' s 0 mid now a m)\<close>
proof -
  have no_timestamp: \<open>\<not> prefix ''timestamp":'' (s @ ''"}'')\<close>
    using no_key_prefix [of \<open>CHR ''"''\<close> s "''timestamp''" \<open>CHR '':''\<close> \<open>CHR ''}''\<close> "[]"] assms
    by simp
  show ?thesis
    using assms no_timestamp
    by (simp add: handle_simple_def extract_json_value_def response_data_simple_def
        str_after_skip takeWhile_until Let_def)
qed

text \<open>
  C3, as stated, fails: the handlers read the message type from the key \<open>tipo\<close>, so the
  request \<open>{"type":"PING","timestamp":1000}\<close> has no type for them and is answered with
  \<open>ACK\<close>, not \<open>PONG\<close> (the time stamp is echoed).
\<close>

theorem ping_type_key_counterexample:
  \<open>handle_simple ''{"type":"PING","timestamp":1000}'' 1 0 1 1
     = Inr (create_json_response [] ''ACK'' 1000 1 0 1 1)
   \<and> extract_json_value (create_json_response [] ''ACK'' 1000 1 0 1 1) ''data'' = ''ACK''
   \<and> extract_json_value (create_json_response [] ''ACK'' 1000 1 0 1 1) ''data'' \<noteq> ''PONG''\<close>
  by (simp add: handle_simple_type_ping response_data_field)

text \<open>
  C3, amended (app_simple.cpp): for every message number, clock reading and counter
  values, the request \<open>{"tipo":"PING","timestamp":1000}\<close> is answered with a response
  whose \<open>data\<close> field is \<open>PONG\<close> and whose \<open>client_timestamp\<close> field is \<open>1000\<close>; the
  same request without a time stamp is answered with \<open>client_timestamp\<close> 0.
\<close>

theorem ping_tipo_round_trip:
  \<open>handle_simple ''{"tipo":"PING","timestamp":1000}'' message_id now_ms active messages
     = Inr (create_json_response ''PING'' ''PONG'' 1000 message_id now_ms active messages)
   \<and> extract_json_value
        (create_json_response ''PING'' ''PONG'' 1000 message_id now_ms active messages) ''data''
     = ''PONG''
   \<and> extract_json_value
        (create_json_response ''PING'' ''PONG'' 1000 message_id now_ms active messages)
        ''client_timestamp''
     = ''1000''
   \<and> handle_simple ''{"tipo":"PING"}'' message_id now_ms active messages
     = Inr (create_json_response ''PING'' ''PONG'' 0 message_id now_ms active messages)
   \<and> extract_json_value
        (create_json_response ''PING'' ''PONG'' 0 message_id now_ms active messages)
        ''client_timestamp''
     = ''0''\<close>
  by (simp add: handle_simple_tipo_ping handle_simple_tipo_ping_no_timestamp
      response_data_field response_client_timestamp_field show_int_1000 show_int_0)

theorem ping_tipo_round_trip_witness:
  \<open>handle_simple ''{"tipo":"PING","timestamp":1000}'' 7 1700000000000 3 42
     = Inr (create_json_response ''PING'' ''PONG'' 1000 7 1700000000000 3 42)
   \<and> extract_json_value (create_json_response ''PING'' ''PONG'' 1000 7 1700000000000 3 42)
        ''data'' = ''PONG''
   \<and> extract_json_value (create_json_response ''PING'' ''PONG'' 1000 7 1700000000000 3 42)
        ''client_timestamp'' = ''1000''\<close>
  using ping_tipo_round_trip [of 7 1700000000000 3 42] by simp

text \<open>
  The same request to app.c: the type is found and \<open>PONG\<close> is chosen, but the format
  string of \<open>create_json_response\<close> writes the key as \<open>"data:"\<close>, so the scanner of
  the repository finds no \<open>data\<close> field in the response.
\<close>

lemma handle_c_tipo_ping:
  \<open>handle_c ''{"tipo":"PING","timestamp":1000}'' 1 0 1 1
   = ''{"tipo":"RESPONSE","server_timestamp":0,"client_timestamp":1000,"message_id":1,"data:"PONG","server_stats":{"active_connections":1,"total_messages":1}}''\<close>
  by code_simp

lemma handle_c_data_key:
  \<open>extract_json_value (handle_c ''{"tipo":"PING","timestamp":1000}'' 1 0 1 1) ''data'' = []\<close>
  by code_simp

text \<open>
  C4, as stated, fails twice: with the key \<open>type\<close> the request is answered with \<open>ACK\<close>;
  and the scanner of app_simple.cpp ends a string value at the first double quote, so a
  data string with a double quote in it comes back cut.
\<close>

theorem echo_identity_counterexample:
  \<open>handle_simple ''{"type":"ECHO","data":"hello"}'' 1 0 1 1
     = Inr (create_json_response [] ''ACK'' 0 1 0 1 1)
   \<and> extract_json_value (create_json_response [] ''ACK'' 0 1 0 1 1) ''data'' \<noteq> ''hello''
   \<and> handle_simple (''{"tipo":"ECHO","data":"'' @ ''a"b'' @ ''"}'') 1 0 1 1
     = Inr (create_json_response ''ECHO'' ''a'' 0 1 0 1 1)
   \<and> extract_json_value (create_json_response ''ECHO'' ''a'' 0 1 0 1 1) ''data'' \<noteq> ''a"b''\<close>
  using handle_simple_echo_quote [of 1 0 1 1]
  by (simp add: handle_simple_type_echo response_data_field)

text \<open>
  C4, amended (app_simple.cpp): for every string \<open>s\<close> without a double quote, the
  request \<open>{"tipo":"ECHO","data":"s"}\<close> is answered with a response whose \<open>data\<close> field is
  exactly \<open>s\<close>.
\<close>

theorem echo_identity_tipo:
  assumes \<open>CHR ''"'' \<notin> set s\<close>
  shows \<open>handle_simple (''{"tipo":"ECHO","data":"'' @ s @ ''"}'') message_id now_ms active messages
           = Inr (create_json_response ''ECHO'' s 0 message_id now_ms active messages)
         \<and> extract_json_value
              (create_json_response ''ECHO'' s 0 message_id now_ms active messages) ''data''
           = s\<close>
  using handle_simple_echo [OF assms, of message_id now_ms active messages]
    response_data_field [OF assms, of "''ECHO''" 0 message_id now_ms active messages]
  by simp

theorem echo_identity_tipo_witness:
  \<open>handle_simple (''{"tipo":"ECHO","data":"'' @ ''hello, world'' @ ''"}'') 2 5 1 2
     = Inr (create_json_response ''ECHO'' ''hello, world'' 0 2 5 1 2)
   \<and> extract_json_value (create_json_response ''ECHO'' ''hello, world'' 0 2 5 1 2) ''data''
     = ''hello, world''\<close>
  using echo_identity_tipo [of "''hello, world''" 2 5 1 2] by simp




section \<open>The accept loop at the ceiling\<close>




section \<open>The statistics under interleaving\<close>

lemma step_c_invariant:
  assumes "stats_invariant_c s" and "step_c t s = Some s1"
  shows "stats_invariant_c s1"
proof (cases t)
  case Accept
  with assms show ?thesis
    by (auto simp add: stats_invariant_c_def accept_iteration_c_def Let_def split: if_splits)
next
  case Register
  with assms show ?thesis
    by (auto simp add: stats_invariant_c_def connect_c_def Let_def split: if_splits)
next
  case Register2
  with assms show ?thesis by simp
next
  case Leave
  with assms show ?thesis
    by (auto simp add: stats_invariant_c_def leave_connection_c_def split: if_splits)
next
  case Leave2
  with assms show ?thesis
    by (auto simp add: stats_invariant_c_def leave_stats_c_def split: if_splits)
qed

lemma step_cjson_invariant:
  assumes "stats_invariant_cjson s" and "step_cjson t s = Some s1"
  shows "stats_invariant_cjson s1"
proof (cases t)
  case Accept
  with assms show ?thesis
    by (auto simp add: stats_invariant_cjson_def accept_iteration_cjson_def Let_def split: if_splits)
next
  case Register
  with assms show ?thesis
    by (auto simp add: stats_invariant_cjson_def register_stats_cjson_def split: if_splits)
next
  case Register2
  with assms show ?thesis
    by (auto simp add: stats_invariant_cjson_def register_connection_cjson_def Let_def
        split: if_splits)
next
  case Leave
  with assms show ?thesis
    by (auto simp add: stats_invariant_cjson_def leave_stats_c_def split: if_splits)
next
  case Leave2
  with assms show ?thesis
    by (auto simp add: stats_invariant_cjson_def leave_connection_c_def split: if_splits)
qed

lemma run_schedule_invariant:
  assumes "\<And>t s s1. P s \<Longrightarrow> step t s = Some s1 \<Longrightarrow> P s1"
  shows "P s \<Longrightarrow> run_schedule step ts s = Some s1 \<Longrightarrow> P s1"
proof (induction ts arbitrary: s)
  case Nil
  then show ?case by simp
next
  case (Cons t ts)
  then show ?case
    by (auto split: option.splits intro: assms)
qed

lemma initial_invariant_c: "stats_invariant_c initial_system"
  by (simp add: stats_invariant_c_def initial_system_def)

lemma initial_invariant_cjson: "stats_invariant_cjson initial_system"
  by (simp add: stats_invariant_cjson_def initial_system_def)

lemma run_c_example:
  "run_schedule step_c [Accept, Register, Leave, Accept, Register] initial_system
   = Some \<lparr>globals_of = \<lparr>servidor_rodando = True, clientes_conectados = 1,
                     server_stats = \<lparr>total_connections = 2, total_messages = 0,
                                     active_threads = 2, errors = 0, peak_connections = 1\<rparr>\<rparr>,
      client_counter = 2, started = 0, entering = 0, running = 1, leaving = 1,
      disconnects = 0\<rparr>"
  by (simp add: initial_system_def accept_iteration_c_def connect_c_def leave_connection_c_def MAX_CONNECTIONS_def Let_def)

lemma run_cjson_example:
  "run_schedule step_cjson [Accept, Accept, Register, Register, Register2] initial_system
   = Some \<lparr>globals_of = \<lparr>servidor_rodando = True, clientes_conectados = 1,
                     server_stats = \<lparr>total_connections = 2, total_messages = 0,
                                     active_threads = 2, errors = 0, peak_connections = 1\<rparr>\<rparr>,
      client_counter = 2, started = 0, entering = 1, running = 1, leaving = 0,
      disconnects = 0\<rparr>"
  by (simp add: initial_system_def accept_iteration_cjson_def register_stats_cjson_def register_connection_cjson_def MAX_THREADS_def Let_def)


text \<open>
  C6, as stated, fails in its second part. In app.c the peak is compared with
  \<open>clientes_conectados\<close>, which a leaving worker decrements before it decrements
  \<open>active_threads\<close>: after one worker has run the first of its two exit sections and a
  second connection has been accepted and registered, \<open>active_threads\<close> is 2 and
  \<open>peak_connections\<close> is 1. In app_cjson.c a worker counts itself in \<open>active_threads\<close>
  one section before it reconsiders the peak, with the same result.
\<close>

theorem statistics_invariant_counterexample:
  "run_schedule step_c [Accept, Register, Leave, Accept, Register] initial_system
   = Some \<lparr>globals_of = \<lparr>servidor_rodando = True, clientes_conectados = 1,
                     server_stats = \<lparr>total_connections = 2, total_messages = 0,
                                     active_threads = 2, errors = 0, peak_connections = 1\<rparr>\<rparr>,
      client_counter = 2, started = 0, entering = 0, running = 1, leaving = 1,
      disconnects = 0\<rparr>
   \<and> run_schedule step_cjson [Accept, Accept, Register, Register, Register2] initial_system
   = Some \<lparr>globals_of = \<lparr>servidor_rodando = True, clientes_conectados = 1,
                     server_stats = \<lparr>total_connections = 2, total_messages = 0,
                                     active_threads = 2, errors = 0, peak_connections = 1\<rparr>\<rparr>,
      client_counter = 2, started = 0, entering = 1, running = 1, leaving = 0,
      disconnects = 0\<rparr>
   \<and> \<not> peak_connections \<lparr>total_connections = 2, total_messages = 0, active_threads = 2,
                           errors = 0, peak_connections = 1\<rparr>
         \<ge> active_threads \<lparr>total_connections = 2, total_messages = 0, active_threads = 2,
                           errors = 0, peak_connections = 1\<rparr>"
  using run_c_example run_cjson_example by simp

text \<open>
  C6, amended (app.c and app_cjson.c): in every state the server reaches from its start,
  under every interleaving of the critical sections of the accept loop and the workers,
  \<open>active_threads\<close> equals \<open>total_connections\<close> minus the number of disconnect
  transitions run so far, and \<open>peak_connections\<close> is at least \<open>active_threads\<close> minus
  the number of workers that are between the two critical sections of a transition (in
  app.c between the two sections on exit, in app_cjson.c between the two sections on
  entry). So \<open>peak_connections \<ge> active_threads\<close> whenever no worker is in between.
\<close>

theorem statistics_invariant:
  assumes "run_schedule step_c schedule initial_system = Some s"
    and "run_schedule step_cjson schedule2 initial_system = Some s2"
  shows "active_threads (server_stats (globals_of s))
           = total_connections (server_stats (globals_of s)) - int (disconnects s)
       \<and> peak_connections (server_stats (globals_of s))
           \<ge> active_threads (server_stats (globals_of s)) - int (leaving s)
       \<and> active_threads (server_stats (globals_of s2))
           = total_connections (server_stats (globals_of s2)) - int (disconnects s2)
       \<and> peak_connections (server_stats (globals_of s2))
           \<ge> active_threads (server_stats (globals_of s2)) - int (entering s2)"
proof -
  have "stats_invariant_c s"
    using step_c_invariant initial_invariant_c assms(1) by (rule run_schedule_invariant)
  moreover have "stats_invariant_cjson s2"
    using step_cjson_invariant initial_invariant_cjson assms(2) by (rule run_schedule_invariant)
  ultimately show ?thesis
    by (simp add: stats_invariant_c_def stats_invariant_cjson_def)
qed

lemma run_c_example2:
  "run_schedule step_c [Accept, Register, Accept, Register, Leave, Leave2] initial_system
   = Some \<lparr>globals_of = \<lparr>servidor_rodando = True, clientes_conectados = 1,
                     server_stats = \<lparr>total_connections = 2, total_messages = 0,
                                     active_threads = 1, errors = 0, peak_connections = 2\<rparr>\<rparr>,
      client_counter = 2, started = 0, entering = 0, running = 1, leaving = 0,
      disconnects = 1\<rparr>"
  by (simp add: initial_system_def accept_iteration_c_def connect_c_def leave_connection_c_def
      leave_stats_c_def MAX_CONNECTIONS_def Let_def)

theorem statistics_invariant_witness:
  "run_schedule step_c [Accept, Register, Accept, Register, Leave, Leave2] initial_system
   = Some \<lparr>globals_of = \<lparr>servidor_rodando = True, clientes_conectados = 1,
                     server_stats = \<lparr>total_connections = 2, total_messages = 0,
                                     active_threads = 1, errors = 0, peak_connections = 2\<rparr>\<rparr>,
      client_counter = 2, started = 0, entering = 0, running = 1, leaving = 0,
      disconnects = 1\<rparr>
   \<and> run_schedule step_cjson [Accept, Accept, Register, Register, Register2] initial_system
   = Some \<lparr>globals_of = \<lparr>servidor_rodando = True, clientes_conectados = 1,
                     server_stats = \<lparr>total_connections = 2, total_messages = 0,
                                     active_threads = 2, errors = 0, peak_connections = 1\<rparr>\<rparr>,
      client_counter = 2, started = 0, entering = 1, running = 1, leaving = 0,
      disconnects = 0\<rparr>
   \<and> (1::int) = 2 - int 1 \<and> (2::int) \<ge> 1 - int 0 \<and> (2::int) = 2 - int 0 \<and> (1::int) \<ge> 2 - int 1"
  using statistics_invariant [OF run_c_example2 run_cjson_example]
  unfolding run_c_example2 run_cjson_example by simp

section \<open>Induction over the worker loops\<close>

lemma loop_json_rule:
  assumes run: "loop_json lib clock w = (log, w2)"
    and stop: "\<And>w. R w [] w"
    and closed: "\<And>w w1. iteration_json lib clock w = (Closed, w1) \<Longrightarrow> R w [] w1"
    and last: "\<And>w oc w1. iteration_json lib clock w = (oc, w1) \<Longrightarrow> oc \<noteq> Closed \<Longrightarrow>
                 \<not> continues oc \<Longrightarrow> R w [oc] w1"
    and more: "\<And>w oc w1 log w2. iteration_json lib clock w = (oc, w1) \<Longrightarrow> continues oc \<Longrightarrow>
                 R w1 log w2 \<Longrightarrow> R w (oc # log) w2"
  shows "R w log w2"
  using assms
proof (induction lib clock w arbitrary: log w2 rule: loop_json.induct)
  case (1 lib clock w)
  note run = "1.prems"(1) and stop = "1.prems"(2) and closed = "1.prems"(3)
    and last = "1.prems"(4) and more = "1.prems"(5)
  show ?case
  proof (cases "servidor_rodando (shared w)")
    case False
    with run show ?thesis
      by (simp add: loop_json.simps [of lib clock w] stop)
  next
    case running: True
    obtain oc w1 where it: "iteration_json lib clock w = (oc, w1)"
      by (cases "iteration_json lib clock w")
    show ?thesis
    proof (cases "continues oc")
      case cont: True
      obtain log1 w3 where rest: "loop_json lib clock w1 = (log1, w3)"
        by (cases "loop_json lib clock w1")
      from run running it cont rest have eq: "log = oc # log1" "w2 = w3"
        by (simp_all add: loop_json.simps [of lib clock w])
      have "R w1 log1 w3"
        by (rule "1.IH" [OF _ refl it [symmetric] cont rest stop closed last more])
          (simp_all add: running)
      with it cont show ?thesis
        unfolding eq by (rule more)
    next
      case stopped: False
      show ?thesis
      proof (cases "oc = Closed")
        case True
        with run running it stopped have eq: "log = []" "w2 = w1"
          by (simp_all add: loop_json.simps [of lib clock w])
        from it True show ?thesis
          unfolding eq by (simp add: closed)
      next
        case False
        with run running it stopped have eq: "log = [oc]" "w2 = w1"
          by (auto simp add: loop_json.simps [of lib clock w])
        from it False stopped show ?thesis
          unfolding eq by (rule last)
      qed
    qed
  qed
qed

lemma loop_c_rule:
  assumes run: "loop_c clock w = (log, w2)"
    and stop: "\<And>w. R w [] w"
    and closed: "\<And>w w1. iteration_c clock w = (Closed, w1) \<Longrightarrow> R w [] w1"
    and last: "\<And>w oc w1. iteration_c clock w = (oc, w1) \<Longrightarrow> oc \<noteq> Closed \<Longrightarrow>
                 \<not> continues oc \<Longrightarrow> R w [oc] w1"
    and more: "\<And>w oc w1 log w2. iteration_c clock w = (oc, w1) \<Longrightarrow> continues oc \<Longrightarrow>
                 R w1 log w2 \<Longrightarrow> R w (oc # log) w2"
  shows "R w log w2"
  using assms
proof (induction clock w arbitrary: log w2 rule: loop_c.induct)
  case (1 clock w)
  note run = "1.prems"(1) and stop = "1.prems"(2) and closed = "1.prems"(3)
    and last = "1.prems"(4) and more = "1.prems"(5)
  show ?case
  proof (cases "servidor_rodando (shared w)")
    case False
    with run show ?thesis
      by (simp add: loop_c.simps [of clock w] stop)
  next
    case running: True
    obtain oc w1 where it: "iteration_c clock w = (oc, w1)"
      by (cases "iteration_c clock w")
    show ?thesis
    proof (cases "continues oc")
      case cont: True
      obtain log1 w3 where rest: "loop_c clock w1 = (log1, w3)"
        by (cases "loop_c clock w1")
      from run running it cont rest have eq: "log = oc # log1" "w2 = w3"
        by (simp_all add: loop_c.simps [of clock w])
      have "R w1 log1 w3"
        by (rule "1.IH" [OF _ refl it [symmetric] cont rest stop closed last more])
          (simp_all add: running)
      with it cont show ?thesis
        unfolding eq by (rule more)
    next
      case stopped: False
      show ?thesis
      proof (cases "oc = Closed")
        case True
        with run running it stopped have eq: "log = []" "w2 = w1"
          by (simp_all add: loop_c.simps [of clock w])
        from it True show ?thesis
          unfolding eq by (simp add: closed)
      next
        case False
        with run running it stopped have eq: "log = [oc]" "w2 = w1"
          by (auto simp add: loop_c.simps [of clock w])
        from it False stopped show ?thesis
          unfolding eq by (rule last)
      qed
    qed
  qed
qed

lemma loop_cjson_rule:
  assumes run: "loop_cjson lib malloc_ok clock w = (log, w2)"
    and stop: "\<And>w. R w [] w"
    and closed: "\<And>w w1. iteration_cjson lib malloc_ok clock w = (Closed, w1) \<Longrightarrow> R w [] w1"
    and last: "\<And>w oc w1. iteration_cjson lib malloc_ok clock w = (oc, w1) \<Longrightarrow> oc \<noteq> Closed \<Longrightarrow>
                 \<not> continues oc \<Longrightarrow> R w [oc] w1"
    and more: "\<And>w oc w1 log w2. iteration_cjson lib malloc_ok clock w = (oc, w1) \<Longrightarrow> continues oc \<Longrightarrow>
                 R w1 log w2 \<Longrightarrow> R w (oc # log) w2"
  shows "R w log w2"
  using assms
proof (induction lib malloc_ok clock w arbitrary: log w2 rule: loop_cjson.induct)
  case (1 lib malloc_ok clock w)
  note run = "1.prems"(1) and stop = "1.prems"(2) and closed = "1.prems"(3)
    and last = "1.prems"(4) and more = "1.prems"(5)
  show ?case
  proof (cases "servidor_rodando (shared w)")
    case False
    with run show ?thesis
      by (simp add: loop_cjson.simps [of lib malloc_ok clock w] stop)
  next
    case running: True
    obtain oc w1 where it: "iteration_cjson lib malloc_ok clock w = (oc, w1)"
      by (cases "iteration_cjson lib malloc_ok clock w")
    show ?thesis
    proof (cases "continues oc")
      case cont: True
      obtain log1 w3 where rest: "loop_cjson lib malloc_ok clock w1 = (log1, w3)"
        by (cases "loop_cjson lib malloc_ok clock w1")
      from run running it cont rest have eq: "log = oc # log1" "w2 = w3"
        by (simp_all add: loop_cjson.simps [of lib malloc_ok clock w])
      have "R w1 log1 w3"
        by (rule "1.IH" [OF _ refl it [symmetric] cont rest stop closed last more])
          (simp_all add: running)
      with it cont show ?thesis
        unfolding eq by (rule more)
    next
      case stopped: False
      show ?thesis
      proof (cases "oc = Closed")
        case True
        with run running it stopped have eq: "log = []" "w2 = w1"
          by (simp_all add: loop_cjson.simps [of lib malloc_ok clock w])
        from it True show ?thesis
          unfolding eq by (simp add: closed)
      next
        case False
        with run running it stopped have eq: "log = [oc]" "w2 = w1"
          by (auto simp add: loop_cjson.simps [of lib malloc_ok clock w])
        from it False stopped show ?thesis
          unfolding eq by (rule last)
      qed
    qed
  qed
qed


section \<open>The arithmetic of the counters\<close>

text \<open>
  A counter that stays within the range of its type is not changed by the wrap-around:
  \<open>k\<close> increments add \<open>k\<close>.
\<close>

lemma wrap_int_id: "INT_MIN \<le> x \<Longrightarrow> x \<le> INT_MAX \<Longrightarrow> wrap_int x = x"
  by (simp add: wrap_int_def INT_MIN_def INT_MAX_def)

lemma wrap_llong_id: "LLONG_MIN \<le> x \<Longrightarrow> x \<le> LLONG_MAX \<Longrightarrow> wrap_llong x = x"
  by (simp add: wrap_llong_def LLONG_MIN_def LLONG_MAX_def)

lemma int_incr_funpow:
  "INT_MIN \<le> x \<Longrightarrow> x + int k \<le> INT_MAX \<Longrightarrow> (int_incr ^^ k) x = x + int k"
proof (induction k)
  case 0
  then show ?case by simp
next
  case (Suc k)
  then have ih: "(int_incr ^^ k) x = x + int k" by simp
  have "wrap_int (x + int k + 1) = x + int k + 1"
    using Suc.prems by (intro wrap_int_id) simp_all
  then have "int_incr (x + int k) = x + int (Suc k)"
    by (simp add: int_incr_def add.commute add.left_commute)
  with ih show ?case by simp
qed

lemma llong_incr_funpow:
  "LLONG_MIN \<le> x \<Longrightarrow> x + int k \<le> LLONG_MAX \<Longrightarrow> (llong_incr ^^ k) x = x + int k"
proof (induction k)
  case 0
  then show ?case by simp
next
  case (Suc k)
  then have ih: "(llong_incr ^^ k) x = x + int k" by simp
  have "wrap_llong (x + int k + 1) = x + int k + 1"
    using Suc.prems by (intro wrap_llong_id) simp_all
  then have "llong_incr (x + int k) = x + int (Suc k)"
    by (simp add: llong_incr_def add.commute add.left_commute)
  with ih show ?case by simp
qed

section \<open>What an iteration does to the socket and the counters\<close>

text \<open>
  \<open>send_json_message\<close> in closed form: it succeeds when the peer takes the whole frame,
  and in every case the bytes written are the part of the frame that the peer takes.
\<close>

lemma length_frame: "length (frame m) = 4 + length m"
  by (simp add: frame_def htonl_def)

lemma send_json_message_simple_exact:
  "send_json_message_simple s m
     = (4 + length m \<le> tx_room s,
        s\<lparr>tx := tx s @ take (tx_room s) (frame m), tx_room := tx_room s - (4 + length m)\<rparr>)"
  by (auto simp add: send_json_message_simple_def send_def frame_def length_htonl Let_def)

lemma receive_message_size_tx: "receive_message_size s = (n, s1) \<Longrightarrow> tx s1 = tx s"
  by (auto simp add: receive_message_size_def recv_waitall_def split: if_splits)

lemma receive_json_message_simple_tx:
  "receive_json_message_simple s = (m, s1) \<Longrightarrow> tx s1 = tx s"
  by (auto simp add: receive_json_message_simple_def recv_waitall_def Let_def
      split: prod.splits if_splits dest: receive_message_size_tx)

lemma take_strict_prefix: "n < length xs \<Longrightarrow> strict_prefix (take n xs) xs"
  by (metis append_take_drop_id drop_eq_Nil2 leD prefixI prefix_order.le_neq_trans
      append_self_conv)

lemma send_json_message_simple_tx_ok:
  "send_json_message_simple s m = (True, s2) \<Longrightarrow> tx s2 = tx s @ frame m"
  by (auto simp add: send_json_message_simple_exact length_frame)

lemma send_json_message_simple_tx_failed:
  assumes "send_json_message_simple s m = (False, s2)"
  shows "\<exists>p. tx s2 = tx s @ p \<and> strict_prefix p (frame m)"
proof -
  from assms have short: "tx_room s < length (frame m)"
    and "tx s2 = tx s @ take (tx_room s) (frame m)"
    by (auto simp add: send_json_message_simple_exact length_frame)
  with take_strict_prefix [OF short] show ?thesis
    by blast
qed

lemma iteration_json_tx:
  assumes "iteration_json lib clock w = (oc, w1)"
  shows "case oc of
           Replied r \<Rightarrow> tx (sock w1) = tx (sock w) @ frame (writeString lib r)
         | WriteFailed r \<Rightarrow>
             (\<exists>p. tx (sock w1) = tx (sock w) @ p \<and> strict_prefix p (frame (writeString lib r)))
         | _ \<Rightarrow> tx (sock w1) = tx (sock w)"
proof -
  obtain m s1 where r: "receive_json_message_simple (sock w) = (m, s1)"
    by (cases "receive_json_message_simple (sock w)")
  then have same: "tx s1 = tx (sock w)"
    by (rule receive_json_message_simple_tx)
  show ?thesis
    using assms r same
    by (auto simp add: iteration_json_def Let_def
        split: prod.splits if_splits option.splits
        dest: send_json_message_simple_tx_ok send_json_message_simple_tx_failed)
qed

lemma loop_json_tx:
  assumes "loop_json lib clock w = (log, w2)"
  shows "\<exists>p. tx (sock w2) = tx (sock w) @ frames_written (writeString lib) log @ p
           \<and> (case failed log of None \<Rightarrow> p = []
               | Some r \<Rightarrow> strict_prefix p (frame (writeString lib r)))"
  using assms
proof (rule loop_json_rule)
  fix wa wb wc :: "globals_cpp worker" and oc :: "jv outcome" and log1 :: "jv outcome list"
  assume it: "iteration_json lib clock wa = (oc, wb)" and "continues oc"
    and rest: "\<exists>p. tx (sock wc) = tx (sock wb) @ frames_written (writeString lib) log1 @ p
           \<and> (case failed log1 of None \<Rightarrow> p = []
               | Some r \<Rightarrow> strict_prefix p (frame (writeString lib r)))"
  then show "\<exists>p. tx (sock wc) = tx (sock wa) @ frames_written (writeString lib) (oc # log1) @ p
           \<and> (case failed (oc # log1) of None \<Rightarrow> p = []
               | Some r \<Rightarrow> strict_prefix p (frame (writeString lib r)))"
    using iteration_json_tx [OF it]
    by (cases oc) (auto simp add: continues_def frames_written_def)
next
  fix wa wb :: "globals_cpp worker" and oc :: "jv outcome"
  assume it: "iteration_json lib clock wa = (oc, wb)" and "\<not> continues oc" and "oc \<noteq> Closed"
  then show "\<exists>p. tx (sock wb) = tx (sock wa) @ frames_written (writeString lib) [oc] @ p
           \<and> (case failed [oc] of None \<Rightarrow> p = []
               | Some r \<Rightarrow> strict_prefix p (frame (writeString lib r)))"
    using iteration_json_tx [OF it]
    by (cases oc) (auto simp add: continues_def frames_written_def)
next
  fix wa wb :: "globals_cpp worker"
  assume it: "iteration_json lib clock wa = (Closed, wb)"
  then show "\<exists>p. tx (sock wb) = tx (sock wa) @ frames_written (writeString lib) [] @ p
           \<and> (case failed [] of None \<Rightarrow> p = []
               | Some r \<Rightarrow> strict_prefix p (frame (writeString lib r)))"
    using iteration_json_tx [OF it] by (simp add: frames_written_def)
qed (simp add: frames_written_def)

text \<open>The counters of app_json.cpp after one iteration and after the loop.\<close>

lemma iteration_json_counter:
  assumes "iteration_json lib clock w = (oc, w1)"
  shows "messages_from_client w1
         = (if oc = Closed then messages_from_client w else int_incr (messages_from_client w))"
  using assms
  by (auto simp add: iteration_json_def Let_def
      split: prod.splits if_splits option.splits)

lemma iteration_json_atomic:
  assumes "iteration_json lib clock w = (oc, w1)"
  shows "atomic_total_messages (shared w1)
         = (if oc = Closed then atomic_total_messages (shared w)
            else int_incr (atomic_total_messages (shared w)))"
  using assms
  by (auto simp add: iteration_json_def Let_def errors_incr_def total_messages_incr_def
      split: prod.splits if_splits option.splits)

lemma iteration_json_total_messages:
  assumes "iteration_json lib clock w = (oc, w1)"
  shows "total_messages (server_stats (shared w1))
         = (int_incr ^^ length (replies [oc])) (total_messages (server_stats (shared w)))"
  using assms
  by (auto simp add: iteration_json_def Let_def errors_incr_def total_messages_incr_def
      split: prod.splits if_splits option.splits)

lemma loop_json_counter:
  assumes "loop_json lib clock w = (log, w2)"
  shows "messages_from_client w2 = (int_incr ^^ length log) (messages_from_client w)"
  using assms
proof (rule loop_json_rule)
  fix wa wb wc :: "globals_cpp worker" and oc :: "jv outcome" and log1 :: "jv outcome list"
  assume "iteration_json lib clock wa = (oc, wb)" and "continues oc"
    and "messages_from_client wc = (int_incr ^^ length log1) (messages_from_client wb)"
  then show "messages_from_client wc = (int_incr ^^ length (oc # log1)) (messages_from_client wa)"
    using iteration_json_counter [of lib clock wa oc wb]
    by (auto simp add: continues_def funpow_swap1)
qed (auto dest: iteration_json_counter)

lemma loop_json_atomic:
  assumes "loop_json lib clock w = (log, w2)"
  shows "atomic_total_messages (shared w2)
         = (int_incr ^^ length log) (atomic_total_messages (shared w))"
  using assms
proof (rule loop_json_rule)
  fix wa wb wc :: "globals_cpp worker" and oc :: "jv outcome" and log1 :: "jv outcome list"
  assume "iteration_json lib clock wa = (oc, wb)" and "continues oc"
    and "atomic_total_messages (shared wc)
         = (int_incr ^^ length log1) (atomic_total_messages (shared wb))"
  then show "atomic_total_messages (shared wc)
         = (int_incr ^^ length (oc # log1)) (atomic_total_messages (shared wa))"
    using iteration_json_atomic [of lib clock wa oc wb]
    by (auto simp add: continues_def funpow_swap1)
qed (auto dest: iteration_json_atomic)

lemma loop_json_total_messages:
  assumes "loop_json lib clock w = (log, w2)"
  shows "total_messages (server_stats (shared w2))
         = (int_incr ^^ length (replies log)) (total_messages (server_stats (shared w)))"
  using assms
proof (rule loop_json_rule)
  fix wa wb wc :: "globals_cpp worker" and oc :: "jv outcome" and log1 :: "jv outcome list"
  assume "iteration_json lib clock wa = (oc, wb)" and "continues oc"
    and "total_messages (server_stats (shared wc))
         = (int_incr ^^ length (replies log1)) (total_messages (server_stats (shared wb)))"
  then show "total_messages (server_stats (shared wc))
         = (int_incr ^^ length (replies (oc # log1))) (total_messages (server_stats (shared wa)))"
    using iteration_json_total_messages [of lib clock wa oc wb]
    by (cases oc) (simp_all add: continues_def funpow_swap1)
qed (auto dest: iteration_json_total_messages)

lemma response_json_message_id:
  "message_id_of (response_json tipo data timestamp message_id now_ms g) = Some (JInt message_id)"
  by (simp add: message_id_of_def response_json_def Let_def)

lemma iteration_json_message_id:
  assumes "iteration_json lib clock w = (Replied r, w1)"
  shows "message_id_of r = Some (JInt (int_incr (messages_from_client w)))"
  using assms
  by (auto simp add: iteration_json_def Let_def response_json_message_id
      split: prod.splits if_splits option.splits)

lemma loop_json_message_ids:
  assumes "loop_json lib clock w = (log, w2)"
  shows "\<forall>i r. i < length log \<longrightarrow> log ! i = Replied r \<longrightarrow>
           message_id_of r = Some (JInt ((int_incr ^^ Suc i) (messages_from_client w)))"
  using assms
proof (rule loop_json_rule)
  fix wa wb wc :: "globals_cpp worker" and oc :: "jv outcome" and log1 :: "jv outcome list"
  assume it: "iteration_json lib clock wa = (oc, wb)" and cont: "continues oc"
    and rest: "\<forall>i r. i < length log1 \<longrightarrow> log1 ! i = Replied r \<longrightarrow>
           message_id_of r = Some (JInt ((int_incr ^^ Suc i) (messages_from_client wb)))"
  from it cont have next_counter: "messages_from_client wb = int_incr (messages_from_client wa)"
    using iteration_json_counter [of lib clock wa oc wb] by (auto simp add: continues_def)
  show "\<forall>i r. i < length (oc # log1) \<longrightarrow> (oc # log1) ! i = Replied r \<longrightarrow>
           message_id_of r = Some (JInt ((int_incr ^^ Suc i) (messages_from_client wa)))"
  proof (intro allI impI)
    fix i r
    assume less: "i < length (oc # log1)" and at: "(oc # log1) ! i = Replied r"
    show "message_id_of r = Some (JInt ((int_incr ^^ Suc i) (messages_from_client wa)))"
    proof (cases i)
      case 0
      with at it show ?thesis
        by (simp add: iteration_json_message_id)
    next
      case (Suc j)
      with less at rest have "message_id_of r
          = Some (JInt ((int_incr ^^ Suc j) (int_incr (messages_from_client wa))))"
        by (simp add: next_counter)
      then show ?thesis
        unfolding Suc by (simp only: funpow_swap1 funpow.simps o_apply)
    qed
  qed
next
  fix wa wb :: "globals_cpp worker" and oc :: "jv outcome"
  assume "iteration_json lib clock wa = (oc, wb)"
  then show "\<forall>i r. i < length [oc] \<longrightarrow> [oc] ! i = Replied r \<longrightarrow>
           message_id_of r = Some (JInt ((int_incr ^^ Suc i) (messages_from_client wa)))"
    by (auto dest: iteration_json_message_id)
qed simp_all

text \<open>What one iteration of app_json.cpp writes and whether it counts the message.\<close>

lemma iteration_json_counted:
  assumes "iteration_json lib clock w = (oc, w1)"
  shows "case oc of
           Replied r \<Rightarrow>
             tx (sock w1) = tx (sock w) @ frame (writeString lib r)
             \<and> total_messages (server_stats (shared w1))
                 = int_incr (total_messages (server_stats (shared w)))
         | WriteFailed r \<Rightarrow>
             (\<exists>p. tx (sock w1) = tx (sock w) @ p \<and> strict_prefix p (frame (writeString lib r)))
             \<and> total_messages (server_stats (shared w1))
                 = total_messages (server_stats (shared w))
         | _ \<Rightarrow>
             tx (sock w1) = tx (sock w)
             \<and> total_messages (server_stats (shared w1))
                 = total_messages (server_stats (shared w))"
  using iteration_json_tx [OF assms] iteration_json_total_messages [OF assms]
  by (cases oc) simp_all

text \<open>The counters of app.c and of app_cjson.c.\<close>

lemma iteration_c_total_messages:
  assumes "iteration_c clock w = (oc, w1)"
  shows "total_messages (server_stats (shared w1))
         = (if oc = Closed then total_messages (server_stats (shared w))
            else llong_incr (total_messages (server_stats (shared w))))"
  using assms
  by (auto simp add: iteration_c_def Let_def total_messages_incr_c_def
      split: prod.splits if_splits option.splits)

lemma iteration_c_answers:
  assumes "iteration_c clock w = (oc, w1)" and "oc \<noteq> Closed"
  shows "\<exists>r. oc = Replied r \<or> oc = WriteFailed r"
  using assms
  by (auto simp add: iteration_c_def Let_def split: prod.splits if_splits option.splits)

lemma loop_c_total_messages:
  assumes "loop_c clock w = (log, w2)"
  shows "total_messages (server_stats (shared w2))
         = (llong_incr ^^ length log) (total_messages (server_stats (shared w)))"
  using assms
proof (rule loop_c_rule)
  fix wa wb wc :: "ServerStats_c globals worker" and oc :: "string outcome"
    and log1 :: "string outcome list"
  assume "iteration_c clock wa = (oc, wb)" and "continues oc"
    and "total_messages (server_stats (shared wc))
         = (llong_incr ^^ length log1) (total_messages (server_stats (shared wb)))"
  then show "total_messages (server_stats (shared wc))
         = (llong_incr ^^ length (oc # log1)) (total_messages (server_stats (shared wa)))"
    using iteration_c_total_messages [of clock wa oc wb]
    by (auto simp add: continues_def funpow_swap1)
qed (auto dest: iteration_c_total_messages)

lemma iteration_cjson_counter:
  assumes "iteration_cjson lib malloc_ok clock w = (oc, w1)"
  shows "messages_from_client w1
         = (if oc = Closed then messages_from_client w else int_incr (messages_from_client w))"
  using assms
  by (auto simp add: iteration_cjson_def Let_def
      split: prod.splits if_splits option.splits)

lemma loop_cjson_counter:
  assumes "loop_cjson lib malloc_ok clock w = (log, w2)"
  shows "messages_from_client w2 = (int_incr ^^ length log) (messages_from_client w)"
  using assms
proof (rule loop_cjson_rule)
  fix wa wb wc :: "ServerStats_c globals worker" and oc :: "jv outcome"
    and log1 :: "jv outcome list"
  assume "iteration_cjson lib malloc_ok clock wa = (oc, wb)" and "continues oc"
    and "messages_from_client wc = (int_incr ^^ length log1) (messages_from_client wb)"
  then show "messages_from_client wc = (int_incr ^^ length (oc # log1)) (messages_from_client wa)"
    using iteration_cjson_counter [of lib malloc_ok clock wa oc wb]
    by (auto simp add: continues_def funpow_swap1)
qed (auto dest: iteration_cjson_counter)

lemma iteration_cjson_message_id:
  assumes "iteration_cjson lib malloc_ok clock w = (Replied r, w1)"
  shows "message_id_of r = None"
  using assms
  by (auto simp add: iteration_cjson_def Let_def message_id_of_def
      split: prod.splits if_splits option.splits)

lemma loop_cjson_message_ids:
  assumes "loop_cjson lib malloc_ok clock w = (log, w2)"
  shows "\<forall>r \<in> set (replies log). message_id_of r = None"
  using assms
proof (rule loop_cjson_rule)
  fix wa wb wc :: "ServerStats_c globals worker" and oc :: "jv outcome"
    and log1 :: "jv outcome list"
  assume "iteration_cjson lib malloc_ok clock wa = (oc, wb)" and "continues oc"
    and "\<forall>r \<in> set (replies log1). message_id_of r = None"
  then show "\<forall>r \<in> set (replies (oc # log1)). message_id_of r = None"
    by (cases oc) (auto dest: iteration_cjson_message_id)
next
  fix wa wb :: "ServerStats_c globals worker" and oc :: "jv outcome"
  assume "iteration_cjson lib malloc_ok clock wa = (oc, wb)"
  then show "\<forall>r \<in> set (replies [oc]). message_id_of r = None"
    by (cases oc) (auto dest: iteration_cjson_message_id)
qed simp_all

lemma length_replies: "length (replies log) \<le> length log"
  by (induction log rule: replies.induct) simp_all

section \<open>The workers on a stream of frames\<close>

text \<open>
  A worker whose stream holds the framed messages \<open>ms\<close> and then no further message
  reads them in order, one in each iteration. It either reads them all, or leaves the loop
  after a message that ended the connection (a failed write, an exception) and leaves
  the frames behind it in the stream. The three loops have the same shape, so this is
  proved once, for every \<open>loop\<close> that unfolds as they do.
\<close>

lemma loop_on_frames:
  fixes loop :: "'w \<Rightarrow> 'r outcome list \<times> 'w"
  assumes unfold: "\<And>w. loop w =
      (if \<not> alive w then ([], w)
       else let (oc, w1) = step w
            in if continues oc
               then (let (log, w2) = loop w1 in (oc # log, w2))
               else if oc = Closed then ([], w1) else ([oc], w1))"
    and on_frame: "\<And>w m r. alive w \<Longrightarrow> input w = frame m @ r \<Longrightarrow> valid m \<Longrightarrow>
        fst (step w) \<noteq> Closed \<and> input (snd (step w)) = r \<and> alive (snd (step w))
        \<and> Q m (fst (step w))"
    and at_end: "\<And>w. input w = rest \<Longrightarrow> fst (step w) = Closed"
    and stream: "input w = concat (map frame ms) @ rest"
    and valid: "\<forall>m \<in> set ms. valid m"
    and alive: "alive w"
    and run: "loop w = (log, w2)"
  shows "length log \<le> length ms
       \<and> (if log \<noteq> [] \<and> \<not> continues (last log)
          then input w2 = concat (map frame (drop (length log) ms)) @ rest
          else length log = length ms)
       \<and> (\<forall>i < length log. Q (ms ! i) (log ! i))"
  using stream valid alive run
proof (induction ms arbitrary: w log w2)
  case Nil
  obtain oc w1 where st: "step w = (oc, w1)"
    by (cases "step w")
  from Nil.prems(1) have "fst (step w) = Closed"
    by (simp add: at_end)
  with st have "oc = Closed" by simp
  with Nil.prems(3,4) st have "log = []"
    by (simp add: unfold [of w] continues_def)
  then show ?case by simp
next
  case (Cons m ms)
  obtain oc w1 where st: "step w = (oc, w1)"
    by (cases "step w")
  have "input w = frame m @ (concat (map frame ms) @ rest)"
    using Cons.prems(1) by simp
  moreover have "valid m"
    using Cons.prems(2) by simp
  ultimately have "fst (step w) \<noteq> Closed \<and> input (snd (step w)) = concat (map frame ms) @ rest
      \<and> alive (snd (step w)) \<and> Q m (fst (step w))"
    using Cons.prems(3) by (intro on_frame)
  with st have answered: "oc \<noteq> Closed" and input1: "input w1 = concat (map frame ms) @ rest"
    and alive1: "alive w1" and q: "Q m oc"
    by simp_all
  show ?case
  proof (cases "continues oc")
    case True
    obtain log1 w3 where rest1: "loop w1 = (log1, w3)"
      by (cases "loop w1")
    from Cons.prems(3,4) st True rest1 have eq: "log = oc # log1" "w2 = w3"
      by (simp_all add: unfold [of w])
    have valid1: "\<forall>m \<in> set ms. valid m"
      using Cons.prems(2) by simp
    have ih: "length log1 \<le> length ms
       \<and> (if log1 \<noteq> [] \<and> \<not> continues (last log1)
          then input w3 = concat (map frame (drop (length log1) ms)) @ rest
          else length log1 = length ms)
       \<and> (\<forall>i < length log1. Q (ms ! i) (log1 ! i))"
      using input1 valid1 alive1 rest1 by (rule Cons.IH)
    have "\<forall>i < length (oc # log1). Q ((m # ms) ! i) ((oc # log1) ! i)"
    proof (intro allI impI)
      fix i
      assume "i < length (oc # log1)"
      with ih q show "Q ((m # ms) ! i) ((oc # log1) ! i)"
        by (cases i) simp_all
    qed
    with ih True show ?thesis
      unfolding eq by (cases "log1 = []") auto
  next
    case False
    with Cons.prems(3,4) st answered have eq: "log = [oc]" "w2 = w1"
      by (simp_all add: unfold [of w])
    from False input1 q show ?thesis
      unfolding eq by simp
  qed
qed

text \<open>app_json.cpp.\<close>

lemma receive_json_message_simple_rx_only:
  "rx s = rx t \<Longrightarrow> fst (receive_json_message_simple s) = fst (receive_json_message_simple t)"
  by (simp add: receive_json_message_simple_def receive_message_size_def recv_waitall_def
      Let_def split_def)

lemma no_message_simpleD:
  "no_message_simple rest \<Longrightarrow> rx s = rest \<Longrightarrow> fst (receive_json_message_simple s) = []"
  using receive_json_message_simple_rx_only [of s "\<lparr>rx = rest, tx = [], tx_room = 0\<rparr>"]
  by (simp add: no_message_simple_def)

lemma receive_json_message_simple_frame2:
  assumes "m \<noteq> []" and "length m \<le> BUFFER_SIZE" and "rx b = frame m @ r"
  shows "receive_json_message_simple b = (m, b\<lparr>rx := r\<rparr>)"
  using assms by (intro receive_json_message_simple_frame) (simp_all add: frame_def)

lemma iteration_json_end:
  "no_message_simple rest \<Longrightarrow> rx (sock w) = rest \<Longrightarrow> fst (iteration_json lib clock w) = Closed"
  using no_message_simpleD [of rest "sock w"]
  by (simp add: iteration_json_def split_def)

lemma iteration_json_frame:
  assumes "rx (sock w) = frame m @ r" and "m \<noteq> [] \<and> length m \<le> BUFFER_SIZE"
  shows "fst (iteration_json lib clock w) \<noteq> Closed
       \<and> rx (sock (snd (iteration_json lib clock w))) = r
       \<and> servidor_rodando (shared (snd (iteration_json lib clock w)))
           = servidor_rodando (shared w)
       \<and> (fst (iteration_json lib clock w) = Dropped \<longleftrightarrow> reader_parse lib m = None)"
proof -
  have "receive_json_message_simple (sock w) = (m, (sock w)\<lparr>rx := r\<rparr>)"
    using assms by (intro receive_json_message_simple_frame2) simp_all
  then show ?thesis
    using assms(2)
    by (auto simp add: iteration_json_def Let_def send_json_message_simple_exact errors_incr_def
        total_messages_incr_def split: option.splits)
qed

lemma loop_json_frames:
  assumes "rx (sock w) = concat (map frame ms) @ rest"
    and "\<forall>m \<in> set ms. m \<noteq> [] \<and> length m \<le> BUFFER_SIZE"
    and "no_message_simple rest"
    and "servidor_rodando (shared w)"
    and "loop_json lib clock w = (log, w2)"
  shows "length log \<le> length ms
       \<and> (if log \<noteq> [] \<and> \<not> continues (last log)
          then rx (sock w2) = concat (map frame (drop (length log) ms)) @ rest
          else length log = length ms)
       \<and> (\<forall>i < length log. log ! i = Dropped \<longleftrightarrow> reader_parse lib (ms ! i) = None)"
proof (rule loop_on_frames
    [where loop = "loop_json lib clock" and step = "iteration_json lib clock"
       and alive = "\<lambda>w. servidor_rodando (shared w)" and input = "\<lambda>w. rx (sock w)"
       and valid = "\<lambda>m. m \<noteq> [] \<and> length m \<le> BUFFER_SIZE"
       and Q = "\<lambda>m oc. oc = Dropped \<longleftrightarrow> reader_parse lib m = None"
       and rest = rest and w = w and ms = ms])
  show "loop_json lib clock w =
      (if \<not> servidor_rodando (shared w) then ([], w)
       else let (oc, w1) = iteration_json lib clock w
            in if continues oc
               then (let (log, w2) = loop_json lib clock w1 in (oc # log, w2))
               else if oc = Closed then ([], w1) else ([oc], w1))" for w
    by (rule loop_json.simps)
  show "fst (iteration_json lib clock w) \<noteq> Closed
      \<and> rx (sock (snd (iteration_json lib clock w))) = r
      \<and> servidor_rodando (shared (snd (iteration_json lib clock w)))
      \<and> (fst (iteration_json lib clock w) = Dropped \<longleftrightarrow> reader_parse lib m = None)"
    if "servidor_rodando (shared w)" and "rx (sock w) = frame m @ r"
      and "m \<noteq> [] \<and> length m \<le> BUFFER_SIZE" for w m r
    using iteration_json_frame [OF that(2,3), of lib clock] that(1) by simp
  show "fst (iteration_json lib clock w) = Closed" if "rx (sock w) = rest" for w
    using assms(3) that by (rule iteration_json_end)
qed (use assms in simp_all)

text \<open>app.c.\<close>

lemma receive_json_message_c_rx_only:
  "rx s = rx t \<Longrightarrow> fst (receive_json_message_c s n) = fst (receive_json_message_c t n)"
  by (simp add: receive_json_message_c_def receive_message_size_def recv_waitall_def
      Let_def split_def)

lemma receive_json_message_c_frame:
  assumes "m \<noteq> []" and "length m < BUFFER_SIZE" and "rx b = frame m @ r"
  shows "receive_json_message_c b BUFFER_SIZE = (Some m, b\<lparr>rx := r\<rparr>)"
proof -
  let ?w = "of_nat (length m) :: u32"
  have u: "unat ?w = length m"
    using assms(2) by (intro unat_length_u32) simp
  have nz: "?w \<noteq> 0"
    using u assms(1) by (metis length_0_conv unat_0)
  have size: "receive_message_size b = (?w, b\<lparr>rx := m @ r\<rparr>)"
    by (simp add: receive_message_size_def recv_waitall_def assms(3) frame_def length_htonl
        ntohl_htonl)
  show ?thesis
    using assms(2) nz
    by (simp add: receive_json_message_c_def size u recv_waitall_def)
qed

lemma iteration_c_end:
  assumes "no_message_c rest" and "rx (sock w) = rest"
  shows "fst (iteration_c clock w) = Closed"
proof -
  have "fst (receive_json_message_c (sock w) BUFFER_SIZE) = None"
    using assms receive_json_message_c_rx_only
      [of "sock w" "\<lparr>rx = rest, tx = [], tx_room = 0\<rparr>" BUFFER_SIZE]
    by (simp add: no_message_c_def)
  then show ?thesis
    by (simp add: iteration_c_def split_def)
qed

lemma iteration_c_frame:
  assumes "rx (sock w) = frame m @ r" and "m \<noteq> [] \<and> length m < BUFFER_SIZE"
  shows "fst (iteration_c clock w) \<noteq> Closed
       \<and> rx (sock (snd (iteration_c clock w))) = r
       \<and> servidor_rodando (shared (snd (iteration_c clock w))) = servidor_rodando (shared w)"
proof -
  have "receive_json_message_c (sock w) BUFFER_SIZE = (Some m, (sock w)\<lparr>rx := r\<rparr>)"
    using assms by (intro receive_json_message_c_frame) simp_all
  then show ?thesis
    by (auto simp add: iteration_c_def Let_def total_messages_incr_c_def
        split: prod.splits dest: send_json_message_c_rx)
qed

lemma loop_c_frames:
  assumes "rx (sock w) = concat (map frame ms) @ rest"
    and "\<forall>m \<in> set ms. m \<noteq> [] \<and> length m < BUFFER_SIZE"
    and "no_message_c rest"
    and "servidor_rodando (shared w)"
    and "loop_c clock w = (log, w2)"
  shows "length log \<le> length ms
       \<and> (if log \<noteq> [] \<and> \<not> continues (last log)
          then rx (sock w2) = concat (map frame (drop (length log) ms)) @ rest
          else length log = length ms)"
proof -
  have "length log \<le> length ms
       \<and> (if log \<noteq> [] \<and> \<not> continues (last log)
          then rx (sock w2) = concat (map frame (drop (length log) ms)) @ rest
          else length log = length ms)
       \<and> (\<forall>i < length log. True)"
  proof (rule loop_on_frames
      [where loop = "loop_c clock" and step = "iteration_c clock"
         and alive = "\<lambda>w. servidor_rodando (shared w)" and input = "\<lambda>w. rx (sock w)"
         and valid = "\<lambda>m. m \<noteq> [] \<and> length m < BUFFER_SIZE"
         and Q = "\<lambda>m oc. True"
         and rest = rest and w = w and ms = ms])
    show "loop_c clock w =
        (if \<not> servidor_rodando (shared w) then ([], w)
         else let (oc, w1) = iteration_c clock w
              in if continues oc
                 then (let (log, w2) = loop_c clock w1 in (oc # log, w2))
                 else if oc = Closed then ([], w1) else ([oc], w1))" for w
      by (rule loop_c.simps)
    show "fst (iteration_c clock w) \<noteq> Closed
        \<and> rx (sock (snd (iteration_c clock w))) = r
        \<and> servidor_rodando (shared (snd (iteration_c clock w)))
        \<and> True"
      if "servidor_rodando (shared w)" and "rx (sock w) = frame m @ r"
        and "m \<noteq> [] \<and> length m < BUFFER_SIZE" for w m r
      using iteration_c_frame [OF that(2,3), of clock] that(1) by simp
    show "fst (iteration_c clock w) = Closed" if "rx (sock w) = rest" for w
      using assms(3) that by (rule iteration_c_end)
  qed (use assms in simp_all)
  then show ?thesis by simp
qed

text \<open>app_cjson.c.\<close>

lemma receive_json_message_cjson_rx_only:
  "rx s = rx t \<Longrightarrow>
   fst (receive_json_message_cjson malloc_ok s) = fst (receive_json_message_cjson malloc_ok t)"
  by (simp add: receive_json_message_cjson_def receive_message_size_def recv_waitall_def
      Let_def split_def)

lemma receive_json_message_cjson_frame:
  assumes "m \<noteq> []" and "length m < BUFFER_SIZE" and "malloc_ok (length m + 1)"
    and "rx b = frame m @ r"
  shows "receive_json_message_cjson malloc_ok b = (Some m, [length m + 1], b\<lparr>rx := r\<rparr>)"
proof -
  let ?w = "of_nat (length m) :: u32"
  have u: "unat ?w = length m"
    using assms(2) by (intro unat_length_u32) simp
  have nz: "?w \<noteq> 0"
    using u assms(1) by (metis length_0_conv unat_0)
  have size: "receive_message_size b = (?w, b\<lparr>rx := m @ r\<rparr>)"
    by (simp add: receive_message_size_def recv_waitall_def assms(4) frame_def length_htonl
        ntohl_htonl)
  show ?thesis
    using assms(2,3) nz
    by (simp add: receive_json_message_cjson_def size u recv_waitall_def)
qed

lemma iteration_cjson_end:
  assumes "no_message_cjson malloc_ok rest" and "rx (sock w) = rest"
  shows "fst (iteration_cjson lib malloc_ok clock w) = Closed"
proof -
  have "fst (receive_json_message_cjson malloc_ok (sock w)) = None"
    using assms receive_json_message_cjson_rx_only
      [of "sock w" "\<lparr>rx = rest, tx = [], tx_room = 0\<rparr>" malloc_ok]
    by (simp add: no_message_cjson_def)
  then show ?thesis
    by (simp add: iteration_cjson_def split_def)
qed

lemma iteration_cjson_frame:
  assumes "rx (sock w) = frame m @ r"
    and "m \<noteq> [] \<and> length m < BUFFER_SIZE \<and> malloc_ok (length m + 1)"
  shows "fst (iteration_cjson lib malloc_ok clock w) \<noteq> Closed
       \<and> rx (sock (snd (iteration_cjson lib malloc_ok clock w))) = r
       \<and> servidor_rodando (shared (snd (iteration_cjson lib malloc_ok clock w)))
           = servidor_rodando (shared w)
       \<and> (fst (iteration_cjson lib malloc_ok clock w) = Dropped
            \<longleftrightarrow> cJSON_Parse lib (cstr m) = None)"
proof -
  have "receive_json_message_cjson malloc_ok (sock w)
      = (Some m, [length m + 1], (sock w)\<lparr>rx := r\<rparr>)"
    using assms by (intro receive_json_message_cjson_frame) simp_all
  then show ?thesis
    by (auto simp add: iteration_cjson_def Let_def total_messages_incr_c_def errors_incr_def
        split: prod.splits option.splits dest: send_json_response_cjson_rx)
qed

lemma loop_cjson_frames:
  assumes "rx (sock w) = concat (map frame ms) @ rest"
    and "\<forall>m \<in> set ms. m \<noteq> [] \<and> length m < BUFFER_SIZE \<and> malloc_ok (length m + 1)"
    and "no_message_cjson malloc_ok rest"
    and "servidor_rodando (shared w)"
    and "loop_cjson lib malloc_ok clock w = (log, w2)"
  shows "length log \<le> length ms
       \<and> (if log \<noteq> [] \<and> \<not> continues (last log)
          then rx (sock w2) = concat (map frame (drop (length log) ms)) @ rest
          else length log = length ms)
       \<and> (\<forall>i < length log. log ! i = Dropped \<longleftrightarrow> cJSON_Parse lib (cstr (ms ! i)) = None)"
proof (rule loop_on_frames
    [where loop = "loop_cjson lib malloc_ok clock" and step = "iteration_cjson lib malloc_ok clock"
       and alive = "\<lambda>w. servidor_rodando (shared w)" and input = "\<lambda>w. rx (sock w)"
       and valid = "\<lambda>m. m \<noteq> [] \<and> length m < BUFFER_SIZE \<and> malloc_ok (length m + 1)"
       and Q = "\<lambda>m oc. oc = Dropped \<longleftrightarrow> cJSON_Parse lib (cstr m) = None"
       and rest = rest and w = w and ms = ms])
  show "loop_cjson lib malloc_ok clock w =
      (if \<not> servidor_rodando (shared w) then ([], w)
       else let (oc, w1) = iteration_cjson lib malloc_ok clock w
            in if continues oc
               then (let (log, w2) = loop_cjson lib malloc_ok clock w1 in (oc # log, w2))
               else if oc = Closed then ([], w1) else ([oc], w1))" for w
    by (rule loop_cjson.simps)
  show "fst (iteration_cjson lib malloc_ok clock w) \<noteq> Closed
      \<and> rx (sock (snd (iteration_cjson lib malloc_ok clock w))) = r
      \<and> servidor_rodando (shared (snd (iteration_cjson lib malloc_ok clock w)))
      \<and> (fst (iteration_cjson lib malloc_ok clock w) = Dropped
           \<longleftrightarrow> cJSON_Parse lib (cstr m) = None)"
    if "servidor_rodando (shared w)" and "rx (sock w) = frame m @ r"
      and "m \<noteq> [] \<and> length m < BUFFER_SIZE \<and> malloc_ok (length m + 1)" for w m r
    using iteration_cjson_frame [of w m r malloc_ok lib clock] that by simp
  show "fst (iteration_cjson lib malloc_ok clock w) = Closed" if "rx (sock w) = rest" for w
    using assms(3) that by (rule iteration_cjson_end)
qed (use assms in simp_all)

section \<open>Every stream is a sequence of frames and a rest\<close>

text \<open>
  \<open>htonl\<close> inverts \<open>ntohl\<close> on four bytes, so a message that \<open>receive_json_message\<close>
  returns was in the stream as a frame. Hence every byte stream is a sequence of framed
  messages, each of a length the variant accepts, followed by a rest that holds no further
  message: the form the stream has in the theorems on the message counters.
\<close>

lemma of_char_less: "(of_char c :: nat) < 256"
  using mod_less_divisor [of 256 "of_char c :: nat"] by simp

lemma of_char_take_bit: "take_bit 8 (of_char c :: nat) = of_char c"
  using of_char_less [of c] by (intro take_bit_nat_eq_self) simp

lemma bit_of_char_high: "bit (of_char c :: nat) n \<Longrightarrow> n < 8"
  using of_char_take_bit [of c] by (metis bit_take_bit_iff)

lemma unat_of_char: "unat (of_nat (of_char c) :: u32) = of_char c"
proof -
  have "(of_char c :: nat) < 4294967296"
    using of_char_less [of c] by linarith
  then show ?thesis
    by (simp add: unat_of_nat)
qed

lemma char_of_low_byte:
  assumes "take_bit 8 w = (of_nat (of_char c) :: u32)"
  shows "char_of (unat w) = c"
proof -
  have "take_bit 8 (unat w) = unat (take_bit 8 w)"
    by (simp add: unsigned_take_bit_eq)
  also have "\<dots> = of_char c"
    by (simp add: assms unat_of_char)
  finally show ?thesis
    by (simp only: char_of_eq_iff)
qed

lemma htonl_ntohl: "htonl (ntohl [a, b, c, d]) = [a, b, c, d]"
proof -
  let ?w = "ntohl [a, b, c, d]"
  have a: "take_bit 8 (drop_bit 24 ?w) = of_nat (of_char a)"
    by (rule bit_word_eqI) (auto simp add: ntohl_def bit_simps dest: bit_of_char_high)
  have b: "take_bit 8 (drop_bit 16 ?w) = of_nat (of_char b)"
    by (rule bit_word_eqI) (auto simp add: ntohl_def bit_simps dest: bit_of_char_high)
  have c: "take_bit 8 (drop_bit 8 ?w) = of_nat (of_char c)"
    by (rule bit_word_eqI) (auto simp add: ntohl_def bit_simps dest: bit_of_char_high)
  have d: "take_bit 8 ?w = of_nat (of_char d)"
    by (rule bit_word_eqI) (auto simp add: ntohl_def bit_simps dest: bit_of_char_high)
  show ?thesis
    unfolding htonl_def
    using char_of_low_byte [OF a] char_of_low_byte [OF b] char_of_low_byte [OF c]
      char_of_low_byte [OF d]
    by simp
qed

lemma take_4: "length bs = 4 \<Longrightarrow> \<exists>a b c d. bs = [a, b, c, d]"
  by (cases bs; cases "tl bs"; cases "tl (tl bs)"; cases "tl (tl (tl bs))") auto

lemma receive_message_size_prefix:
  assumes "receive_message_size s = (n, s1)" and "n \<noteq> 0"
  shows "rx s = htonl n @ rx s1"
proof -
  from assms have len: "length (take 4 (rx s)) = 4" and n: "n = ntohl (take 4 (rx s))"
    and s1: "rx s1 = drop 4 (rx s)"
    by (auto simp add: receive_message_size_def recv_waitall_def split: if_splits)
  from take_4 [OF len] obtain a b c d where bytes: "take 4 (rx s) = [a, b, c, d]"
    by blast
  have "htonl n = take 4 (rx s)"
    unfolding n bytes by (rule htonl_ntohl)
  then show ?thesis
    by (simp add: s1)
qed

lemma receive_json_message_simple_some:
  assumes "receive_json_message_simple s = (m, s1)" and "m \<noteq> []"
  shows "rx s = frame m @ rx s1 \<and> length m \<le> BUFFER_SIZE"
proof -
  obtain n s0 where size: "receive_message_size s = (n, s0)"
    by (cases "receive_message_size s")
  from assms size have n: "n \<noteq> 0" and small: "unat n \<le> BUFFER_SIZE"
    and m: "m = take (unat n) (rx s0)" and len: "length m = unat n"
    and s1: "rx s1 = drop (unat n) (rx s0)"
    by (auto simp add: receive_json_message_simple_def recv_waitall_def Let_def
        split: if_splits)
  have "rx s = htonl n @ rx s0"
    using size n by (rule receive_message_size_prefix)
  moreover have "rx s0 = m @ rx s1"
    by (simp add: m s1)
  moreover have "of_nat (length m) = n"
    by (simp add: len)
  ultimately show ?thesis
    using small len by (simp add: frame_def)
qed

lemma stream_frames_simple:
  "\<exists>ms rest. bs = concat (map frame ms) @ rest
     \<and> (\<forall>m \<in> set ms. m \<noteq> [] \<and> length m \<le> BUFFER_SIZE) \<and> no_message_simple rest"
proof (induction bs rule: length_induct)
  case (1 bs)
  obtain m s1 where r: "receive_json_message_simple \<lparr>rx = bs, tx = [], tx_room = 0\<rparr> = (m, s1)"
    by (cases "receive_json_message_simple \<lparr>rx = bs, tx = [], tx_room = 0\<rparr>")
  show ?case
  proof (cases "m = []")
    case True
    with r have "no_message_simple bs"
      by (simp add: no_message_simple_def)
    then have "bs = concat (map frame []) @ bs
        \<and> (\<forall>m \<in> set []. m \<noteq> [] \<and> length m \<le> BUFFER_SIZE) \<and> no_message_simple bs"
      by simp
    then show ?thesis by blast
  next
    case False
    with r have split: "bs = frame m @ rx s1" and small: "length m \<le> BUFFER_SIZE"
      using receive_json_message_simple_some [OF r False] by simp_all
    then have "length (rx s1) < length bs"
      by (simp add: length_frame)
    with "1.IH" obtain ms rest where "rx s1 = concat (map frame ms) @ rest"
      and "\<forall>m \<in> set ms. m \<noteq> [] \<and> length m \<le> BUFFER_SIZE" and "no_message_simple rest"
      by blast
    with split small False have "bs = concat (map frame (m # ms)) @ rest
        \<and> (\<forall>m \<in> set (m # ms). m \<noteq> [] \<and> length m \<le> BUFFER_SIZE) \<and> no_message_simple rest"
      by simp
    then show ?thesis by blast
  qed
qed

lemma receive_json_message_c_some:
  assumes "receive_json_message_c s BUFFER_SIZE = (Some m, s1)"
  shows "rx s = frame m @ rx s1 \<and> m \<noteq> [] \<and> length m < BUFFER_SIZE"
proof -
  obtain n s0 where size: "receive_message_size s = (n, s0)"
    by (cases "receive_message_size s")
  from assms size have n: "n \<noteq> 0" and small: "unat n < BUFFER_SIZE"
    and m: "m = take (unat n) (rx s0)" and len: "length m = unat n"
    and s1: "rx s1 = drop (unat n) (rx s0)"
    by (auto simp add: receive_json_message_c_def recv_waitall_def Let_def
        split: if_splits)
  have "rx s = htonl n @ rx s0"
    using size n by (rule receive_message_size_prefix)
  moreover have "rx s0 = m @ rx s1"
    by (simp add: m s1)
  moreover have "of_nat (length m) = n"
    by (simp add: len)
  moreover have "m \<noteq> []"
    using n len by (metis length_0_conv unat_eq_zero)
  ultimately show ?thesis
    using small len by (simp add: frame_def)
qed

lemma stream_frames_c:
  "\<exists>ms rest. bs = concat (map frame ms) @ rest
     \<and> (\<forall>m \<in> set ms. m \<noteq> [] \<and> length m < BUFFER_SIZE) \<and> no_message_c rest"
proof (induction bs rule: length_induct)
  case (1 bs)
  obtain r s1 where r: "receive_json_message_c \<lparr>rx = bs, tx = [], tx_room = 0\<rparr> BUFFER_SIZE = (r, s1)"
    by (cases "receive_json_message_c \<lparr>rx = bs, tx = [], tx_room = 0\<rparr> BUFFER_SIZE")
  show ?case
  proof (cases r)
    case None
    with r have "no_message_c bs"
      by (simp add: no_message_c_def)
    then have "bs = concat (map frame []) @ bs
        \<and> (\<forall>m \<in> set []. m \<noteq> [] \<and> length m < BUFFER_SIZE) \<and> no_message_c bs"
      by simp
    then show ?thesis by blast
  next
    case (Some m)
    with r have split: "bs = frame m @ rx s1" and valid: "m \<noteq> []" "length m < BUFFER_SIZE"
      using receive_json_message_c_some [of "\<lparr>rx = bs, tx = [], tx_room = 0\<rparr>" m s1]
      by simp_all
    then have "length (rx s1) < length bs"
      by (simp add: length_frame)
    with "1.IH" obtain ms rest where "rx s1 = concat (map frame ms) @ rest"
      and "\<forall>m \<in> set ms. m \<noteq> [] \<and> length m < BUFFER_SIZE" and "no_message_c rest"
      by blast
    with split valid have "bs = concat (map frame (m # ms)) @ rest
        \<and> (\<forall>m \<in> set (m # ms). m \<noteq> [] \<and> length m < BUFFER_SIZE) \<and> no_message_c rest"
      by simp
    then show ?thesis by blast
  qed
qed

lemma receive_json_message_cjson_some:
  assumes "receive_json_message_cjson malloc_ok s = (Some m, allocs, s1)"
  shows "rx s = frame m @ rx s1 \<and> m \<noteq> [] \<and> length m < BUFFER_SIZE
       \<and> malloc_ok (length m + 1)"
proof -
  obtain n s0 where size: "receive_message_size s = (n, s0)"
    by (cases "receive_message_size s")
  from assms size have n: "n \<noteq> 0" and small: "unat n \<le> BUFFER_SIZE - 1"
    and ok: "malloc_ok (unat n + 1)"
    and m: "m = take (unat n) (rx s0)" and len: "length m = unat n"
    and s1: "rx s1 = drop (unat n) (rx s0)"
    by (auto simp add: receive_json_message_cjson_def recv_waitall_def Let_def
        split: if_splits)
  have "rx s = htonl n @ rx s0"
    using size n by (rule receive_message_size_prefix)
  moreover have "rx s0 = m @ rx s1"
    by (simp add: m s1)
  moreover have "of_nat (length m) = n"
    by (simp add: len)
  moreover have "m \<noteq> []"
    using n len by (metis length_0_conv unat_eq_zero)
  ultimately show ?thesis
    using small len ok by (simp add: frame_def BUFFER_SIZE_def)
qed

lemma stream_frames_cjson:
  "\<exists>ms rest. bs = concat (map frame ms) @ rest
     \<and> (\<forall>m \<in> set ms. m \<noteq> [] \<and> length m < BUFFER_SIZE \<and> malloc_ok (length m + 1))
     \<and> no_message_cjson malloc_ok rest"
proof (induction bs rule: length_induct)
  case (1 bs)
  obtain r allocs s1
    where r: "receive_json_message_cjson malloc_ok \<lparr>rx = bs, tx = [], tx_room = 0\<rparr>
        = (r, allocs, s1)"
    by (cases "receive_json_message_cjson malloc_ok \<lparr>rx = bs, tx = [], tx_room = 0\<rparr>")
  show ?case
  proof (cases r)
    case None
    with r have "no_message_cjson malloc_ok bs"
      by (simp add: no_message_cjson_def)
    then have "bs = concat (map frame []) @ bs
        \<and> (\<forall>m \<in> set []. m \<noteq> [] \<and> length m < BUFFER_SIZE \<and> malloc_ok (length m + 1))
        \<and> no_message_cjson malloc_ok bs"
      by simp
    then show ?thesis by blast
  next
    case (Some m)
    with r have split: "bs = frame m @ rx s1"
      and valid: "m \<noteq> []" "length m < BUFFER_SIZE" "malloc_ok (length m + 1)"
      using receive_json_message_cjson_some
        [of malloc_ok "\<lparr>rx = bs, tx = [], tx_room = 0\<rparr>" m allocs s1]
      by simp_all
    then have "length (rx s1) < length bs"
      by (simp add: length_frame)
    with "1.IH" obtain ms rest where "rx s1 = concat (map frame ms) @ rest"
      and "\<forall>m \<in> set ms. m \<noteq> [] \<and> length m < BUFFER_SIZE \<and> malloc_ok (length m + 1)"
      and "no_message_cjson malloc_ok rest"
      by blast
    with split valid have "bs = concat (map frame (m # ms)) @ rest
        \<and> (\<forall>m \<in> set (m # ms).
              m \<noteq> [] \<and> length m < BUFFER_SIZE \<and> malloc_ok (length m + 1))
        \<and> no_message_cjson malloc_ok rest"
      by simp
    then show ?thesis by blast
  qed
qed

section \<open>Some runs\<close>

text \<open>
  app_json.cpp and app_cjson.c on a stream of three framed messages, \<open>a\<close>, \<open>bad\<close> and
  \<open>c\<close>, of which the library rejects the second; app.c on one message, with a peer
  that takes no byte of the response. Then single iterations: of app_json.cpp when the
  atomic \<open>total_messages\<close> holds \<open>INT_MAX\<close> (the counter wraps around and the response
  reports \<open>INT_MIN\<close>); of app.c on the seventh message of a connection, with a peer that
  takes no byte; of app_cjson.c on a seventh message that the library rejects.
\<close>

lemma json_example_run:
  "tratarCliente_json example_jsoncpp clock_zero
     \<lparr>rx = [CHR 0x00, CHR 0x00, CHR 0x00, CHR 0x01] @ ''a''
           @ [CHR 0x00, CHR 0x00, CHR 0x00, CHR 0x03] @ ''bad''
           @ [CHR 0x00, CHR 0x00, CHR 0x00, CHR 0x01] @ ''c'',
      tx = [], tx_room = 100\<rparr>
     \<lparr>servidor_rodando = True, clientes_conectados = 0,
      server_stats = \<lparr>total_connections = 0, total_messages = 0, active_threads = 0,
                      errors = 0\<rparr>,
      atomic_total_messages = 0\<rparr>
   = ([Replied (response_json ''UNKNOWN'' [] 0 1 0
                 \<lparr>servidor_rodando = True, clientes_conectados = 1,
                  server_stats = \<lparr>total_connections = 1, total_messages = 0,
                                  active_threads = 1, errors = 0\<rparr>,
                  atomic_total_messages = 1\<rparr>),
       Dropped,
       Replied (response_json ''UNKNOWN'' [] 0 3 0
                 \<lparr>servidor_rodando = True, clientes_conectados = 1,
                  server_stats = \<lparr>total_connections = 1, total_messages = 1,
                                  active_threads = 1, errors = 1\<rparr>,
                  atomic_total_messages = 3\<rparr>)],
      \<lparr>sock = \<lparr>rx = [],
               tx = [CHR 0x00, CHR 0x00, CHR 0x00, CHR 0x02] @ ''ok''
                    @ [CHR 0x00, CHR 0x00, CHR 0x00, CHR 0x02] @ ''ok'',
               tx_room = 88\<rparr>,
       shared = \<lparr>servidor_rodando = True, clientes_conectados = 0,
                 server_stats = \<lparr>total_connections = 1, total_messages = 2,
                                 active_threads = 0, errors = 1\<rparr>,
                 atomic_total_messages = 3\<rparr>,
       messages_from_client = 3\<rparr>)"
  by code_simp

lemma cjson_example_run:
  "tratarCliente_cjson example_cjson malloc_succeeds clock_zero_json
     \<lparr>rx = [CHR 0x00, CHR 0x00, CHR 0x00, CHR 0x01] @ ''a''
           @ [CHR 0x00, CHR 0x00, CHR 0x00, CHR 0x03] @ ''bad''
           @ [CHR 0x00, CHR 0x00, CHR 0x00, CHR 0x01] @ ''c'',
      tx = [], tx_room = 100\<rparr>
     \<lparr>servidor_rodando = True, clientes_conectados = 0,
      server_stats = \<lparr>total_connections = 0, total_messages = 0, active_threads = 0,
                      errors = 0, peak_connections = 0\<rparr>\<rparr>
   = ([Replied (JObject [(''status'', JString ''ok''), (''client_id'', JInt 0),
                         (''original_message'', JString []), (''sequence'', JInt 0),
                         (''server_timestamp'', JInt 0), (''processed_by'', JString ''c_server'')]),
       Dropped,
       Replied (JObject [(''status'', JString ''ok''), (''client_id'', JInt 0),
                         (''original_message'', JString []), (''sequence'', JInt 0),
                         (''server_timestamp'', JInt 0), (''processed_by'', JString ''c_server'')])],
      \<lparr>sock = \<lparr>rx = [],
               tx = [CHR 0x00, CHR 0x00, CHR 0x00, CHR 0x02] @ ''ok''
                    @ [CHR 0x00, CHR 0x00, CHR 0x00, CHR 0x02] @ ''ok'',
               tx_room = 88\<rparr>,
       shared = \<lparr>servidor_rodando = True, clientes_conectados = 0,
                 server_stats = \<lparr>total_connections = 1, total_messages = 2,
                                 active_threads = 0, errors = 1, peak_connections = 1\<rparr>\<rparr>,
       messages_from_client = 3\<rparr>)"
  by code_simp

lemma c_write_failed_run:
  \<open>tratar_cliente_c clock_zero
     \<lparr>rx = [CHR 0x00, CHR 0x00, CHR 0x00, CHR 0x0F] @ ''{"tipo":"PING"}'',
      tx = [], tx_room = 0\<rparr>
     \<lparr>servidor_rodando = True, clientes_conectados = 1,
      server_stats = \<lparr>total_connections = 0, total_messages = 0, active_threads = 0,
                      errors = 0, peak_connections = 0\<rparr>\<rparr>
   = ([WriteFailed (handle_c ''{"tipo":"PING"}'' 1 0 1 1)],
      \<lparr>sock = \<lparr>rx = [], tx = [], tx_room = 0\<rparr>,
       shared = \<lparr>servidor_rodando = True, clientes_conectados = 0,
                 server_stats = \<lparr>total_connections = 1, total_messages = 1,
                                 active_threads = 0, errors = 0, peak_connections = 1\<rparr>\<rparr>,
       messages_from_client = 1\<rparr>)\<close>
  by code_simp

lemma atomic_total_messages_wraps:
  "iteration_json example_jsoncpp clock_zero
     \<lparr>sock = \<lparr>rx = [CHR 0x00, CHR 0x00, CHR 0x00, CHR 0x01] @ ''a'', tx = [], tx_room = 9\<rparr>,
      shared = \<lparr>servidor_rodando = True, clientes_conectados = 1,
                server_stats = \<lparr>total_connections = 1, total_messages = 0,
                                active_threads = 1, errors = 0\<rparr>,
                atomic_total_messages = 2147483647\<rparr>,
      messages_from_client = 0\<rparr>
   = (Replied (JObject
        [(''tipo'', JString ''RESPONSE''), (''server_timestamp'', JInt 0),
         (''client_timestamp'', JInt 0), (''message_id'', JInt 1),
         (''server_stats'',
          JObject [(''active_connections'', JInt 1),
                   (''total_messages'', JInt (- 2147483648))]),
         (''data'', JString ''ACK''), (''original_data'', JString [])]),
      \<lparr>sock = \<lparr>rx = [], tx = [CHR 0x00, CHR 0x00, CHR 0x00, CHR 0x02] @ ''ok'',
               tx_room = 3\<rparr>,
       shared = \<lparr>servidor_rodando = True, clientes_conectados = 1,
                 server_stats = \<lparr>total_connections = 1, total_messages = 1,
                                 active_threads = 1, errors = 0\<rparr>,
                 atomic_total_messages = - 2147483648\<rparr>,
       messages_from_client = 1\<rparr>)"
  by code_simp

lemma c_example_iteration:
  \<open>iteration_c clock_zero
     \<lparr>sock = \<lparr>rx = [CHR 0x00, CHR 0x00, CHR 0x00, CHR 0x0F] @ ''{"tipo":"PING"}'',
               tx = [], tx_room = 0\<rparr>,
      shared = \<lparr>servidor_rodando = True, clientes_conectados = 1,
                server_stats = \<lparr>total_connections = 1, total_messages = 41,
                                active_threads = 1, errors = 0, peak_connections = 1\<rparr>\<rparr>,
      messages_from_client = 6\<rparr>
   = (WriteFailed (handle_c ''{"tipo":"PING"}'' 7 0 1 42),
      \<lparr>sock = \<lparr>rx = [], tx = [], tx_room = 0\<rparr>,
       shared = \<lparr>servidor_rodando = True, clientes_conectados = 1,
                 server_stats = \<lparr>total_connections = 1, total_messages = 42,
                                 active_threads = 1, errors = 0, peak_connections = 1\<rparr>\<rparr>,
       messages_from_client = 7\<rparr>)\<close>
  by code_simp

lemma cjson_example_iteration:
  "iteration_cjson example_cjson malloc_succeeds clock_zero_json
     \<lparr>sock = \<lparr>rx = [CHR 0x00, CHR 0x00, CHR 0x00, CHR 0x03] @ ''bad'', tx = [], tx_room = 9\<rparr>,
      shared = \<lparr>servidor_rodando = True, clientes_conectados = 1,
                server_stats = \<lparr>total_connections = 1, total_messages = 0,
                                active_threads = 1, errors = 0, peak_connections = 1\<rparr>\<rparr>,
      messages_from_client = 6\<rparr>
   = (Dropped,
      \<lparr>sock = \<lparr>rx = [], tx = [], tx_room = 9\<rparr>,
       shared = \<lparr>servidor_rodando = True, clientes_conectados = 1,
                 server_stats = \<lparr>total_connections = 1, total_messages = 0,
                                 active_threads = 1, errors = 1, peak_connections = 1\<rparr>\<rparr>,
       messages_from_client = 7\<rparr>)"
  by code_simp

section \<open>The message counters\<close>

text \<open>
  The batched counter of the second half of app_cjson.c: right for 99 answered messages,
  one too many for 100.
\<close>

lemma batched_total_99: "batched_total 99 = 99"
  by code_simp

lemma batched_total_100: "batched_total 100 = 101"
  by code_simp

text \<open>
  C9, as stated, fails on app.c: \<open>server_stats.total_messages\<close> is incremented when a
  message has been read, before its response is built. Here the peer takes no byte of the
  response: nothing is written, the worker leaves the loop, and the counter has gone from
  0 to 1.
\<close>

theorem total_messages_counterexample:
  \<open>tratar_cliente_c clock_zero
     \<lparr>rx = [CHR 0x00, CHR 0x00, CHR 0x00, CHR 0x0F] @ ''{"tipo":"PING"}'',
      tx = [], tx_room = 0\<rparr>
     \<lparr>servidor_rodando = True, clientes_conectados = 1,
      server_stats = \<lparr>total_connections = 0, total_messages = 0, active_threads = 0,
                      errors = 0, peak_connections = 0\<rparr>\<rparr>
   = ([WriteFailed (handle_c ''{"tipo":"PING"}'' 1 0 1 1)],
      \<lparr>sock = \<lparr>rx = [], tx = [], tx_room = 0\<rparr>,
       shared = \<lparr>servidor_rodando = True, clientes_conectados = 0,
                 server_stats = \<lparr>total_connections = 1, total_messages = 1,
                                 active_threads = 0, errors = 0, peak_connections = 1\<rparr>\<rparr>,
       messages_from_client = 1\<rparr>)
   \<and> replies [WriteFailed (handle_c ''{"tipo":"PING"}'' 1 0 1 1)] = []\<close>
  using c_write_failed_run by simp

text \<open>
  C9, amended. In app_json.cpp \<open>server_stats.total_messages\<close> is incremented by exactly
  one for each message whose response is successfully written, and only then.

  For one message: when the stream of a worker starts with a framed message, the iteration
  reads it and increments the atomic \<open>total_messages\<close>. If the response is written in
  full, \<open>server_stats.total_messages\<close> is incremented. If the write fails, so that only
  a part of the frame is on the wire, or if the message is dropped or an exception is
  thrown, so that nothing is written, it is left as it was.

  For a connection to a running server whose stream holds the framed messages \<open>ms\<close> and
  then no further message, with the counters far enough from the end of their range for
  \<open>length ms\<close> increments: when the worker ends, \<open>server_stats.total_messages\<close> has
  grown by the number of responses it wrote, and the bytes it put on the wire are exactly
  these responses, framed, followed by nothing, or by an incomplete frame of the one
  response whose write failed. The worker reads the frames in order: either it has read
  them all, or it left the loop after a message whose handling ended the connection and
  the frames behind that message are still in the stream. The atomic \<open>total_messages\<close>
  has grown by the number of framed messages read.

  In app.c \<open>server_stats.total_messages\<close> is incremented for every framed message read,
  whether its response is then written or not: with every iteration that reads a message,
  and over a connection by the number of framed messages read.
\<close>

theorem total_messages_counts_replies:
  assumes "rx (sock v) = frame m @ r"
    and "m \<noteq> [] \<and> length m \<le> BUFFER_SIZE"
    and "iteration_json lib clock v = (oc, v1)"
    and "rx socketCliente = concat (map frame ms) @ rest"
    and "\<forall>m \<in> set ms. m \<noteq> [] \<and> length m \<le> BUFFER_SIZE"
    and "no_message_simple rest"
    and "servidor_rodando g"
    and "INT_MIN \<le> total_messages (server_stats g)"
    and "total_messages (server_stats g) + int (length ms) \<le> INT_MAX"
    and "INT_MIN \<le> atomic_total_messages g"
    and "atomic_total_messages g + int (length ms) \<le> INT_MAX"
    and "tratarCliente_json lib clock socketCliente g = (log, w)"
    and "rx (sock v_c) = frame m_c @ r_c"
    and "m_c \<noteq> [] \<and> length m_c < BUFFER_SIZE"
    and "iteration_c clock_c v_c = (oc_c, v1_c)"
    and "rx socket_cliente = concat (map frame ms_c) @ rest_c"
    and "\<forall>m \<in> set ms_c. m \<noteq> [] \<and> length m < BUFFER_SIZE"
    and "no_message_c rest_c"
    and "servidor_rodando h"
    and "LLONG_MIN \<le> total_messages (server_stats h)"
    and "total_messages (server_stats h) + int (length ms_c) \<le> LLONG_MAX"
    and "tratar_cliente_c clock_c socket_cliente h = (log_c, w_c)"
  shows "(oc \<noteq> Closed \<and> rx (sock v1) = r
        \<and> atomic_total_messages (shared v1) = int_incr (atomic_total_messages (shared v))
        \<and> (case oc of
              Replied resp \<Rightarrow>
                tx (sock v1) = tx (sock v) @ frame (writeString lib resp)
                \<and> total_messages (server_stats (shared v1))
                    = int_incr (total_messages (server_stats (shared v)))
            | WriteFailed resp \<Rightarrow>
                (\<exists>p. tx (sock v1) = tx (sock v) @ p
                   \<and> strict_prefix p (frame (writeString lib resp)))
                \<and> total_messages (server_stats (shared v1))
                    = total_messages (server_stats (shared v))
            | _ \<Rightarrow>
                tx (sock v1) = tx (sock v)
                \<and> total_messages (server_stats (shared v1))
                    = total_messages (server_stats (shared v))))
       \<and> (total_messages (server_stats (shared w))
            = total_messages (server_stats g) + int (length (replies log))
          \<and> (\<exists>p. tx (sock w) = tx socketCliente @ frames_written (writeString lib) log @ p
                \<and> (case failed log of None \<Rightarrow> p = []
                    | Some resp \<Rightarrow> strict_prefix p (frame (writeString lib resp))))
          \<and> length log \<le> length ms
          \<and> (if log \<noteq> [] \<and> \<not> continues (last log)
             then rx (sock w) = concat (map frame (drop (length log) ms)) @ rest
             else length log = length ms)
          \<and> atomic_total_messages (shared w) = atomic_total_messages g + int (length log))
       \<and> (oc_c \<noteq> Closed \<and> rx (sock v1_c) = r_c
          \<and> (\<exists>resp. oc_c = Replied resp \<or> oc_c = WriteFailed resp)
          \<and> total_messages (server_stats (shared v1_c))
              = llong_incr (total_messages (server_stats (shared v_c))))
       \<and> (length log_c \<le> length ms_c
          \<and> (if log_c \<noteq> [] \<and> \<not> continues (last log_c)
             then rx (sock w_c) = concat (map frame (drop (length log_c) ms_c)) @ rest_c
             else length log_c = length ms_c)
          \<and> total_messages (server_stats (shared w_c))
              = total_messages (server_stats h) + int (length log_c))"
proof -
  have read1: "oc \<noteq> Closed" "rx (sock v1) = r"
    using iteration_json_frame [OF assms(1,2), of lib clock] assms(3) by simp_all
  then have atomic1: "atomic_total_messages (shared v1)
      = int_incr (atomic_total_messages (shared v))"
    using iteration_json_atomic [OF assms(3)] by simp
  note counted1 = iteration_json_counted [OF assms(3)]
  let ?w0 = "\<lparr>sock = socketCliente, shared = connect_cpp g, messages_from_client = 0\<rparr>"
  obtain w1 where loop: "loop_json lib clock ?w0 = (log, w1)"
    and w: "w = w1\<lparr>shared := disconnect_cpp (shared w1)\<rparr>"
    using assms(12) by (auto simp add: tratarCliente_json_def Let_def split: prod.splits)
  have "rx (sock ?w0) = concat (map frame ms) @ rest" and "servidor_rodando (shared ?w0)"
    using assms(4,7) by (simp_all add: connect_cpp_def)
  from loop_json_frames [OF this(1) assms(5,6) this(2) loop]
  have read: "length log \<le> length ms"
    and left: "if log \<noteq> [] \<and> \<not> continues (last log)
          then rx (sock w) = concat (map frame (drop (length log) ms)) @ rest
          else length log = length ms"
    by (simp_all add: w)
  have few: "length (replies log) \<le> length ms"
    using read length_replies [of log] by simp
  have "total_messages (server_stats (shared w1))
          = (int_incr ^^ length (replies log)) (total_messages (server_stats (shared ?w0)))"
    using loop by (rule loop_json_total_messages)
  moreover have "(int_incr ^^ length (replies log)) (total_messages (server_stats g))
          = total_messages (server_stats g) + int (length (replies log))"
    using assms(8,9) few by (intro int_incr_funpow) simp_all
  ultimately have counted: "total_messages (server_stats (shared w))
          = total_messages (server_stats g) + int (length (replies log))"
    by (simp add: w connect_cpp_def disconnect_cpp_def)
  have "\<exists>p. tx (sock w1) = tx (sock ?w0) @ frames_written (writeString lib) log @ p
           \<and> (case failed log of None \<Rightarrow> p = []
               | Some resp \<Rightarrow> strict_prefix p (frame (writeString lib resp)))"
    using loop by (rule loop_json_tx)
  then have written: "\<exists>p. tx (sock w) = tx socketCliente @ frames_written (writeString lib) log @ p
           \<and> (case failed log of None \<Rightarrow> p = []
               | Some resp \<Rightarrow> strict_prefix p (frame (writeString lib resp)))"
    by (simp add: w)
  have "atomic_total_messages (shared w1)
          = (int_incr ^^ length log) (atomic_total_messages (shared ?w0))"
    using loop by (rule loop_json_atomic)
  moreover have "(int_incr ^^ length log) (atomic_total_messages g)
          = atomic_total_messages g + int (length log)"
    using assms(10,11) read by (intro int_incr_funpow) simp_all
  ultimately have atomic: "atomic_total_messages (shared w)
          = atomic_total_messages g + int (length log)"
    by (simp add: w connect_cpp_def disconnect_cpp_def)
  have read1_c: "oc_c \<noteq> Closed" "rx (sock v1_c) = r_c"
    using iteration_c_frame [OF assms(13,14), of clock_c] assms(15) by simp_all
  then have received1: "total_messages (server_stats (shared v1_c))
      = llong_incr (total_messages (server_stats (shared v_c)))"
    using iteration_c_total_messages [OF assms(15)] by simp
  have answers1: "\<exists>resp. oc_c = Replied resp \<or> oc_c = WriteFailed resp"
    using assms(15) read1_c(1) by (rule iteration_c_answers)
  let ?v0 = "\<lparr>sock = socket_cliente, shared = connect_c h, messages_from_client = 0\<rparr>"
  obtain v2 where loop_c: "loop_c clock_c ?v0 = (log_c, v2)"
    and v: "w_c = v2\<lparr>shared := leave_stats_c (leave_connection_c (shared v2))\<rparr>"
    using assms(22) by (auto simp add: tratar_cliente_c_def Let_def split: prod.splits)
  have "rx (sock ?v0) = concat (map frame ms_c) @ rest_c" and "servidor_rodando (shared ?v0)"
    using assms(16,19) by (simp_all add: connect_c_def Let_def)
  from loop_c_frames [OF this(1) assms(17,18) this(2) loop_c]
  have read_c: "length log_c \<le> length ms_c"
    and left_c: "if log_c \<noteq> [] \<and> \<not> continues (last log_c)
          then rx (sock w_c) = concat (map frame (drop (length log_c) ms_c)) @ rest_c
          else length log_c = length ms_c"
    by (simp_all add: v)
  have "total_messages (server_stats (shared v2))
          = (llong_incr ^^ length log_c) (total_messages (server_stats (shared ?v0)))"
    using loop_c by (rule loop_c_total_messages)
  moreover have "(llong_incr ^^ length log_c) (total_messages (server_stats h))
          = total_messages (server_stats h) + int (length log_c)"
    using assms(20,21) read_c by (intro llong_incr_funpow) simp_all
  ultimately have received: "total_messages (server_stats (shared w_c))
          = total_messages (server_stats h) + int (length log_c)"
    by (simp add: v connect_c_def leave_stats_c_def leave_connection_c_def Let_def)
  from read1 atomic1 counted1 counted written read left atomic read1_c answers1 received1
    read_c left_c received
  show ?thesis
    by (intro conjI)
qed

theorem total_messages_counts_replies_witness:
  \<open>total_messages (server_stats (shared (snd (tratarCliente_json example_jsoncpp clock_zero
     \<lparr>rx = [CHR 0x00, CHR 0x00, CHR 0x00, CHR 0x01] @ ''a''
           @ [CHR 0x00, CHR 0x00, CHR 0x00, CHR 0x03] @ ''bad''
           @ [CHR 0x00, CHR 0x00, CHR 0x00, CHR 0x01] @ ''c'',
      tx = [], tx_room = 100\<rparr>
     \<lparr>servidor_rodando = True, clientes_conectados = 0,
      server_stats = \<lparr>total_connections = 0, total_messages = 0, active_threads = 0,
                      errors = 0\<rparr>,
      atomic_total_messages = 0\<rparr>)))) = 2
   \<and> length (replies (fst (tratarCliente_json example_jsoncpp clock_zero
     \<lparr>rx = [CHR 0x00, CHR 0x00, CHR 0x00, CHR 0x01] @ ''a''
           @ [CHR 0x00, CHR 0x00, CHR 0x00, CHR 0x03] @ ''bad''
           @ [CHR 0x00, CHR 0x00, CHR 0x00, CHR 0x01] @ ''c'',
      tx = [], tx_room = 100\<rparr>
     \<lparr>servidor_rodando = True, clientes_conectados = 0,
      server_stats = \<lparr>total_connections = 0, total_messages = 0, active_threads = 0,
                      errors = 0\<rparr>,
      atomic_total_messages = 0\<rparr>))) = 2
   \<and> tx (sock (snd (tratarCliente_json example_jsoncpp clock_zero
     \<lparr>rx = [CHR 0x00, CHR 0x00, CHR 0x00, CHR 0x01] @ ''a''
           @ [CHR 0x00, CHR 0x00, CHR 0x00, CHR 0x03] @ ''bad''
           @ [CHR 0x00, CHR 0x00, CHR 0x00, CHR 0x01] @ ''c'',
      tx = [], tx_room = 100\<rparr>
     \<lparr>servidor_rodando = True, clientes_conectados = 0,
      server_stats = \<lparr>total_connections = 0, total_messages = 0, active_threads = 0,
                      errors = 0\<rparr>,
      atomic_total_messages = 0\<rparr>))) = frame ''ok'' @ frame ''ok''
   \<and> atomic_total_messages (shared (snd (tratarCliente_json example_jsoncpp clock_zero
     \<lparr>rx = [CHR 0x00, CHR 0x00, CHR 0x00, CHR 0x01] @ ''a''
           @ [CHR 0x00, CHR 0x00, CHR 0x00, CHR 0x03] @ ''bad''
           @ [CHR 0x00, CHR 0x00, CHR 0x00, CHR 0x01] @ ''c'',
      tx = [], tx_room = 100\<rparr>
     \<lparr>servidor_rodando = True, clientes_conectados = 0,
      server_stats = \<lparr>total_connections = 0, total_messages = 0, active_threads = 0,
                      errors = 0\<rparr>,
      atomic_total_messages = 0\<rparr>))) = 3
   \<and> length (fst (tratarCliente_json example_jsoncpp clock_zero
     \<lparr>rx = [CHR 0x00, CHR 0x00, CHR 0x00, CHR 0x01] @ ''a''
           @ [CHR 0x00, CHR 0x00, CHR 0x00, CHR 0x03] @ ''bad''
           @ [CHR 0x00, CHR 0x00, CHR 0x00, CHR 0x01] @ ''c'',
      tx = [], tx_room = 100\<rparr>
     \<lparr>servidor_rodando = True, clientes_conectados = 0,
      server_stats = \<lparr>total_connections = 0, total_messages = 0, active_threads = 0,
                      errors = 0\<rparr>,
      atomic_total_messages = 0\<rparr>)) = 3
   \<and> total_messages (server_stats (shared (snd (tratar_cliente_c clock_zero
     \<lparr>rx = [CHR 0x00, CHR 0x00, CHR 0x00, CHR 0x0F] @ ''{"tipo":"PING"}'',
      tx = [], tx_room = 0\<rparr>
     \<lparr>servidor_rodando = True, clientes_conectados = 1,
      server_stats = \<lparr>total_connections = 0, total_messages = 0, active_threads = 0,
                      errors = 0, peak_connections = 0\<rparr>\<rparr>)))) = 1
   \<and> length (fst (tratar_cliente_c clock_zero
     \<lparr>rx = [CHR 0x00, CHR 0x00, CHR 0x00, CHR 0x0F] @ ''{"tipo":"PING"}'',
      tx = [], tx_room = 0\<rparr>
     \<lparr>servidor_rodando = True, clientes_conectados = 1,
      server_stats = \<lparr>total_connections = 0, total_messages = 0, active_threads = 0,
                      errors = 0, peak_connections = 0\<rparr>\<rparr>)) = 1\<close>
proof -
  have stream: "rx \<lparr>rx = [CHR 0x00, CHR 0x00, CHR 0x00, CHR 0x01] @ ''a''
           @ [CHR 0x00, CHR 0x00, CHR 0x00, CHR 0x03] @ ''bad''
           @ [CHR 0x00, CHR 0x00, CHR 0x00, CHR 0x01] @ ''c'',
      tx = [], tx_room = 100\<rparr>
      = concat (map frame [''a'', ''bad'', ''c'']) @ []"
    by code_simp
  have valid: "\<forall>m \<in> set [''a'', ''bad'', ''c'']. m \<noteq> [] \<and> length m \<le> BUFFER_SIZE"
    by (simp add: BUFFER_SIZE_def)
  have ending: "no_message_simple []"
    by code_simp
  have alive: "servidor_rodando \<lparr>servidor_rodando = True, clientes_conectados = 0,
      server_stats = \<lparr>total_connections = 0, total_messages = 0, active_threads = 0,
                      errors = 0\<rparr>,
      atomic_total_messages = 0\<rparr>"
    by simp
  have low: "INT_MIN \<le> total_messages (server_stats \<lparr>servidor_rodando = True, clientes_conectados = 0,
      server_stats = \<lparr>total_connections = 0, total_messages = 0, active_threads = 0,
                      errors = 0\<rparr>,
      atomic_total_messages = 0\<rparr>)"
    and high: "total_messages (server_stats \<lparr>servidor_rodando = True, clientes_conectados = 0,
      server_stats = \<lparr>total_connections = 0, total_messages = 0, active_threads = 0,
                      errors = 0\<rparr>,
      atomic_total_messages = 0\<rparr>)
        + int (length [''a'', ''bad'', ''c'']) \<le> INT_MAX"
    and low_atomic: "INT_MIN \<le> atomic_total_messages \<lparr>servidor_rodando = True, clientes_conectados = 0,
      server_stats = \<lparr>total_connections = 0, total_messages = 0, active_threads = 0,
                      errors = 0\<rparr>,
      atomic_total_messages = 0\<rparr>"
    and high_atomic: "atomic_total_messages \<lparr>servidor_rodando = True, clientes_conectados = 0,
      server_stats = \<lparr>total_connections = 0, total_messages = 0, active_threads = 0,
                      errors = 0\<rparr>,
      atomic_total_messages = 0\<rparr>
        + int (length [''a'', ''bad'', ''c'']) \<le> INT_MAX"
    by (simp_all add: INT_MIN_def INT_MAX_def)
  have stream_c: \<open>rx \<lparr>rx = [CHR 0x00, CHR 0x00, CHR 0x00, CHR 0x0F] @ ''{"tipo":"PING"}'',
      tx = [], tx_room = 0\<rparr>
      = concat (map frame [''{"tipo":"PING"}'']) @ []\<close>
    by code_simp
  have valid_c: \<open>\<forall>m \<in> set [''{"tipo":"PING"}'']. m \<noteq> [] \<and> length m < BUFFER_SIZE\<close>
    by (simp add: BUFFER_SIZE_def)
  have ending_c: "no_message_c []"
    by code_simp
  have alive_c: "servidor_rodando \<lparr>servidor_rodando = True, clientes_conectados = 1,
      server_stats = \<lparr>total_connections = 0, total_messages = 0, active_threads = 0,
                      errors = 0, peak_connections = 0\<rparr>\<rparr>"
    by simp
  have low_c: "LLONG_MIN \<le> total_messages (server_stats \<lparr>servidor_rodando = True, clientes_conectados = 1,
      server_stats = \<lparr>total_connections = 0, total_messages = 0, active_threads = 0,
                      errors = 0, peak_connections = 0\<rparr>\<rparr>)"
    and high_c: \<open>total_messages (server_stats \<lparr>servidor_rodando = True, clientes_conectados = 1,
      server_stats = \<lparr>total_connections = 0, total_messages = 0, active_threads = 0,
                      errors = 0, peak_connections = 0\<rparr>\<rparr>)
        + int (length [''{"tipo":"PING"}'']) \<le> LLONG_MAX\<close>
    by (simp_all add: LLONG_MIN_def LLONG_MAX_def)
  have wire: "frame ''ok'' = [CHR 0x00, CHR 0x00, CHR 0x00, CHR 0x02] @ ''ok''"
    by code_simp
  have first: "rx (sock \<lparr>sock = \<lparr>rx = [CHR 0x00, CHR 0x00, CHR 0x00, CHR 0x01] @ ''a'', tx = [], tx_room = 9\<rparr>,
      shared = \<lparr>servidor_rodando = True, clientes_conectados = 1,
                server_stats = \<lparr>total_connections = 1, total_messages = 0,
                                active_threads = 1, errors = 0\<rparr>,
                atomic_total_messages = 2147483647\<rparr>,
      messages_from_client = 0\<rparr>)
      = frame ''a'' @ []"
    by code_simp
  have valid1: "''a'' \<noteq> [] \<and> length ''a'' \<le> BUFFER_SIZE"
    by (simp add: BUFFER_SIZE_def)
  have first_c: \<open>rx (sock \<lparr>sock = \<lparr>rx = [CHR 0x00, CHR 0x00, CHR 0x00, CHR 0x0F] @ ''{"tipo":"PING"}'',
               tx = [], tx_room = 0\<rparr>,
      shared = \<lparr>servidor_rodando = True, clientes_conectados = 1,
                server_stats = \<lparr>total_connections = 1, total_messages = 41,
                                active_threads = 1, errors = 0, peak_connections = 1\<rparr>\<rparr>,
      messages_from_client = 6\<rparr>)
      = frame ''{"tipo":"PING"}'' @ []\<close>
    by code_simp
  have valid1_c: \<open>''{"tipo":"PING"}'' \<noteq> [] \<and> length ''{"tipo":"PING"}'' < BUFFER_SIZE\<close>
    by (simp add: BUFFER_SIZE_def)
  note run = total_messages_counts_replies
      [OF first valid1 atomic_total_messages_wraps
          stream valid ending alive low high low_atomic high_atomic json_example_run
          first_c valid1_c c_example_iteration
          stream_c valid_c ending_c alive_c low_c high_c c_write_failed_run]
  show ?thesis
    using run [THEN conjunct2, THEN conjunct1, THEN conjunct1]
    unfolding json_example_run c_write_failed_run
    by (simp add: wire)
qed

text \<open>
  C10, as stated, fails for app_cjson.c: its worker counts the framed messages in
  \<open>messages_from_client\<close> as app_json.cpp does, but its responses carry no
  \<open>message_id\<close> (they echo the \<open>sequence\<close> member of the request). Here it reads three
  messages and answers two: the counter ends at 3 and neither response has a
  \<open>message_id\<close>.
\<close>

theorem message_id_counterexample:
  "tratarCliente_cjson example_cjson malloc_succeeds clock_zero_json
     \<lparr>rx = [CHR 0x00, CHR 0x00, CHR 0x00, CHR 0x01] @ ''a''
           @ [CHR 0x00, CHR 0x00, CHR 0x00, CHR 0x03] @ ''bad''
           @ [CHR 0x00, CHR 0x00, CHR 0x00, CHR 0x01] @ ''c'',
      tx = [], tx_room = 100\<rparr>
     \<lparr>servidor_rodando = True, clientes_conectados = 0,
      server_stats = \<lparr>total_connections = 0, total_messages = 0, active_threads = 0,
                      errors = 0, peak_connections = 0\<rparr>\<rparr>
   = ([Replied (JObject [(''status'', JString ''ok''), (''client_id'', JInt 0),
                         (''original_message'', JString []), (''sequence'', JInt 0),
                         (''server_timestamp'', JInt 0), (''processed_by'', JString ''c_server'')]),
       Dropped,
       Replied (JObject [(''status'', JString ''ok''), (''client_id'', JInt 0),
                         (''original_message'', JString []), (''sequence'', JInt 0),
                         (''server_timestamp'', JInt 0), (''processed_by'', JString ''c_server'')])],
      \<lparr>sock = \<lparr>rx = [],
               tx = [CHR 0x00, CHR 0x00, CHR 0x00, CHR 0x02] @ ''ok''
                    @ [CHR 0x00, CHR 0x00, CHR 0x00, CHR 0x02] @ ''ok'',
               tx_room = 88\<rparr>,
       shared = \<lparr>servidor_rodando = True, clientes_conectados = 0,
                 server_stats = \<lparr>total_connections = 1, total_messages = 2,
                                 active_threads = 0, errors = 1, peak_connections = 1\<rparr>\<rparr>,
       messages_from_client = 3\<rparr>)
   \<and> message_id_of (JObject [(''status'', JString ''ok''), (''client_id'', JInt 0),
                         (''original_message'', JString []), (''sequence'', JInt 0),
                         (''server_timestamp'', JInt 0), (''processed_by'', JString ''c_server'')]) = None"
  using cjson_example_run by (simp add: message_id_of_def)

text \<open>
  C10, amended. In app_json.cpp and in app_cjson.c \<open>messages_from_client\<close> is
  incremented for every framed message read, also for one the parser rejects and drops.

  For one message: when the stream of a worker starts with a framed message, the iteration
  reads it and increments the counter; the message is dropped exactly when the parser
  rejects it. In app_json.cpp a response carries the new value of the counter as its
  \<open>message_id\<close>; in app_cjson.c a response has no \<open>message_id\<close>.

  For a connection to a running server whose stream holds fewer than \<open>2^31\<close> framed
  messages \<open>ms\<close> and then no further message: the worker reads the frames in order, and
  when it ends the counter is the number of framed messages read (all of them, unless a
  failed write or an exception ended the connection before). The message at position
  \<open>i\<close> of the stream is dropped exactly when the parser rejects it. In app_json.cpp the
  response to it, if there is one, carries \<open>message_id\<close> \<open>i + 1\<close>, and these responses,
  framed, are what the worker puts on the wire: the ids of the responses sent skip the
  dropped messages. In app_cjson.c no response carries a \<open>message_id\<close>.
\<close>

theorem message_id_counts_framed_messages:
  assumes "rx (sock v) = frame m @ r"
    and "m \<noteq> [] \<and> length m \<le> BUFFER_SIZE"
    and "iteration_json lib clock v = (oc, v1)"
    and "rx socketCliente = concat (map frame ms) @ rest"
    and "\<forall>m \<in> set ms. m \<noteq> [] \<and> length m \<le> BUFFER_SIZE"
    and "no_message_simple rest"
    and "servidor_rodando g"
    and "int (length ms) \<le> INT_MAX"
    and "tratarCliente_json lib clock socketCliente g = (log, w)"
    and "rx (sock v2) = frame m2 @ r2"
    and "m2 \<noteq> [] \<and> length m2 < BUFFER_SIZE \<and> malloc_ok (length m2 + 1)"
    and "iteration_cjson lib2 malloc_ok clock2 v2 = (oc2, v3)"
    and "rx socket_cliente = concat (map frame ms2) @ rest2"
    and "\<forall>m \<in> set ms2. m \<noteq> [] \<and> length m < BUFFER_SIZE \<and> malloc_ok (length m + 1)"
    and "no_message_cjson malloc_ok rest2"
    and "servidor_rodando h"
    and "int (length ms2) \<le> INT_MAX"
    and "tratarCliente_cjson lib2 malloc_ok clock2 socket_cliente h = (log2, w2)"
  shows "(oc \<noteq> Closed \<and> rx (sock v1) = r
        \<and> messages_from_client v1 = int_incr (messages_from_client v)
        \<and> (oc = Dropped \<longleftrightarrow> reader_parse lib m = None)
        \<and> (\<forall>resp. oc = Replied resp
             \<longrightarrow> message_id_of resp = Some (JInt (int_incr (messages_from_client v)))))
       \<and> (length log \<le> length ms
          \<and> (if log \<noteq> [] \<and> \<not> continues (last log)
             then rx (sock w) = concat (map frame (drop (length log) ms)) @ rest
             else length log = length ms)
          \<and> messages_from_client w = int (length log)
          \<and> (\<forall>i < length log.
               (log ! i = Dropped \<longleftrightarrow> reader_parse lib (ms ! i) = None)
               \<and> (\<forall>resp. log ! i = Replied resp
                    \<longrightarrow> message_id_of resp = Some (JInt (int i + 1))))
          \<and> (\<exists>p. tx (sock w) = tx socketCliente @ frames_written (writeString lib) log @ p
                \<and> (case failed log of None \<Rightarrow> p = []
                    | Some resp \<Rightarrow> strict_prefix p (frame (writeString lib resp)))))
       \<and> (oc2 \<noteq> Closed \<and> rx (sock v3) = r2
          \<and> messages_from_client v3 = int_incr (messages_from_client v2)
          \<and> (oc2 = Dropped \<longleftrightarrow> cJSON_Parse lib2 (cstr m2) = None)
          \<and> (\<forall>resp. oc2 = Replied resp \<longrightarrow> message_id_of resp = None))
       \<and> (length log2 \<le> length ms2
          \<and> (if log2 \<noteq> [] \<and> \<not> continues (last log2)
             then rx (sock w2) = concat (map frame (drop (length log2) ms2)) @ rest2
             else length log2 = length ms2)
          \<and> messages_from_client w2 = int (length log2)
          \<and> (\<forall>i < length log2.
               log2 ! i = Dropped \<longleftrightarrow> cJSON_Parse lib2 (cstr (ms2 ! i)) = None)
          \<and> (\<forall>resp \<in> set (replies log2). message_id_of resp = None))"
proof -
  have read1: "oc \<noteq> Closed" "rx (sock v1) = r"
    and dropped1: "oc = Dropped \<longleftrightarrow> reader_parse lib m = None"
    using iteration_json_frame [OF assms(1,2), of lib clock] assms(3) by simp_all
  then have counter1: "messages_from_client v1 = int_incr (messages_from_client v)"
    using iteration_json_counter [OF assms(3)] by simp
  have id1: "\<forall>resp. oc = Replied resp
      \<longrightarrow> message_id_of resp = Some (JInt (int_incr (messages_from_client v)))"
    using assms(3) by (auto dest: iteration_json_message_id)
  let ?w0 = "\<lparr>sock = socketCliente, shared = connect_cpp g, messages_from_client = 0\<rparr>"
  obtain w1 where loop: "loop_json lib clock ?w0 = (log, w1)"
    and w: "w = w1\<lparr>shared := disconnect_cpp (shared w1)\<rparr>"
    using assms(9) by (auto simp add: tratarCliente_json_def Let_def split: prod.splits)
  have "rx (sock ?w0) = concat (map frame ms) @ rest" and "servidor_rodando (shared ?w0)"
    using assms(4,7) by (simp_all add: connect_cpp_def)
  from loop_json_frames [OF this(1) assms(5,6) this(2) loop]
  have read: "length log \<le> length ms"
    and left: "if log \<noteq> [] \<and> \<not> continues (last log)
          then rx (sock w) = concat (map frame (drop (length log) ms)) @ rest
          else length log = length ms"
    and dropped: "\<forall>i < length log. log ! i = Dropped \<longleftrightarrow> reader_parse lib (ms ! i) = None"
    by (simp_all add: w)
  have small: "(int_incr ^^ k) 0 = int k" if "k \<le> length ms" for k
    using int_incr_funpow [of 0 k] assms(8) that by (simp add: INT_MIN_def)
  have "messages_from_client w1 = (int_incr ^^ length log) (messages_from_client ?w0)"
    using loop by (rule loop_json_counter)
  with small [OF read] have counter: "messages_from_client w = int (length log)"
    by (simp add: w)
  have ids: "\<forall>resp. log ! i = Replied resp \<longrightarrow> message_id_of resp = Some (JInt (int i + 1))"
    if "i < length log" for i
  proof -
    from that read have "Suc i \<le> length ms" by simp
    then have "(int_incr ^^ Suc i) 0 = int (Suc i)" by (rule small)
    with loop_json_message_ids [OF loop] that show ?thesis
      by (simp add: add.commute)
  qed
  have "\<exists>p. tx (sock w1) = tx (sock ?w0) @ frames_written (writeString lib) log @ p
           \<and> (case failed log of None \<Rightarrow> p = []
               | Some resp \<Rightarrow> strict_prefix p (frame (writeString lib resp)))"
    using loop by (rule loop_json_tx)
  then have written: "\<exists>p. tx (sock w) = tx socketCliente @ frames_written (writeString lib) log @ p
           \<and> (case failed log of None \<Rightarrow> p = []
               | Some resp \<Rightarrow> strict_prefix p (frame (writeString lib resp)))"
    by (simp add: w)
  have read1_2: "oc2 \<noteq> Closed" "rx (sock v3) = r2"
    and dropped1_2: "oc2 = Dropped \<longleftrightarrow> cJSON_Parse lib2 (cstr m2) = None"
    using iteration_cjson_frame [of v2 m2 r2 malloc_ok lib2 clock2] assms(10,11,12)
    by simp_all
  then have counter1_2: "messages_from_client v3 = int_incr (messages_from_client v2)"
    using iteration_cjson_counter [OF assms(12)] by simp
  have id1_2: "\<forall>resp. oc2 = Replied resp \<longrightarrow> message_id_of resp = None"
    using assms(12) by (auto dest: iteration_cjson_message_id)
  let ?v0 = "\<lparr>sock = socket_cliente,
              shared = register_connection_cjson (register_stats_cjson h),
              messages_from_client = 0\<rparr>"
  obtain v4 where loop2: "loop_cjson lib2 malloc_ok clock2 ?v0 = (log2, v4)"
    and v: "w2 = v4\<lparr>shared := leave_connection_c (leave_stats_c (shared v4))\<rparr>"
    using assms(18) by (auto simp add: tratarCliente_cjson_def Let_def split: prod.splits)
  have "rx (sock ?v0) = concat (map frame ms2) @ rest2" and "servidor_rodando (shared ?v0)"
    using assms(13,16)
    by (simp_all add: register_connection_cjson_def register_stats_cjson_def Let_def)
  from loop_cjson_frames [OF this(1) assms(14,15) this(2) loop2]
  have read2: "length log2 \<le> length ms2"
    and left2: "if log2 \<noteq> [] \<and> \<not> continues (last log2)
          then rx (sock w2) = concat (map frame (drop (length log2) ms2)) @ rest2
          else length log2 = length ms2"
    and dropped2: "\<forall>i < length log2.
            log2 ! i = Dropped \<longleftrightarrow> cJSON_Parse lib2 (cstr (ms2 ! i)) = None"
    by (simp_all add: v)
  have "messages_from_client v4 = (int_incr ^^ length log2) (messages_from_client ?v0)"
    using loop2 by (rule loop_cjson_counter)
  moreover have "(int_incr ^^ length log2) 0 = int (length log2)"
    using int_incr_funpow [of 0 "length log2"] assms(17) read2 by (simp add: INT_MIN_def)
  ultimately have counter2: "messages_from_client w2 = int (length log2)"
    by (simp add: v)
  have no_ids: "\<forall>resp \<in> set (replies log2). message_id_of resp = None"
    using loop2 by (rule loop_cjson_message_ids)
  from read1 counter1 dropped1 id1 read left counter dropped ids written
    read1_2 counter1_2 dropped1_2 id1_2 read2 left2 counter2 dropped2 no_ids
  show ?thesis
    by simp
qed


theorem message_id_counts_framed_messages_witness:
  \<open>map message_id_of (replies (fst (tratarCliente_json example_jsoncpp clock_zero
     \<lparr>rx = [CHR 0x00, CHR 0x00, CHR 0x00, CHR 0x01] @ ''a''
           @ [CHR 0x00, CHR 0x00, CHR 0x00, CHR 0x03] @ ''bad''
           @ [CHR 0x00, CHR 0x00, CHR 0x00, CHR 0x01] @ ''c'',
      tx = [], tx_room = 100\<rparr>
     \<lparr>servidor_rodando = True, clientes_conectados = 0,
      server_stats = \<lparr>total_connections = 0, total_messages = 0, active_threads = 0,
                      errors = 0\<rparr>,
      atomic_total_messages = 0\<rparr>)))
     = [Some (JInt 1), Some (JInt 3)]
   \<and> fst (tratarCliente_json example_jsoncpp clock_zero
     \<lparr>rx = [CHR 0x00, CHR 0x00, CHR 0x00, CHR 0x01] @ ''a''
           @ [CHR 0x00, CHR 0x00, CHR 0x00, CHR 0x03] @ ''bad''
           @ [CHR 0x00, CHR 0x00, CHR 0x00, CHR 0x01] @ ''c'',
      tx = [], tx_room = 100\<rparr>
     \<lparr>servidor_rodando = True, clientes_conectados = 0,
      server_stats = \<lparr>total_connections = 0, total_messages = 0, active_threads = 0,
                      errors = 0\<rparr>,
      atomic_total_messages = 0\<rparr>) ! 1 = Dropped
   \<and> messages_from_client (snd (tratarCliente_json example_jsoncpp clock_zero
     \<lparr>rx = [CHR 0x00, CHR 0x00, CHR 0x00, CHR 0x01] @ ''a''
           @ [CHR 0x00, CHR 0x00, CHR 0x00, CHR 0x03] @ ''bad''
           @ [CHR 0x00, CHR 0x00, CHR 0x00, CHR 0x01] @ ''c'',
      tx = [], tx_room = 100\<rparr>
     \<lparr>servidor_rodando = True, clientes_conectados = 0,
      server_stats = \<lparr>total_connections = 0, total_messages = 0, active_threads = 0,
                      errors = 0\<rparr>,
      atomic_total_messages = 0\<rparr>)) = 3
   \<and> messages_from_client (snd (tratarCliente_cjson example_cjson malloc_succeeds clock_zero_json
     \<lparr>rx = [CHR 0x00, CHR 0x00, CHR 0x00, CHR 0x01] @ ''a''
           @ [CHR 0x00, CHR 0x00, CHR 0x00, CHR 0x03] @ ''bad''
           @ [CHR 0x00, CHR 0x00, CHR 0x00, CHR 0x01] @ ''c'',
      tx = [], tx_room = 100\<rparr>
     \<lparr>servidor_rodando = True, clientes_conectados = 0,
      server_stats = \<lparr>total_connections = 0, total_messages = 0, active_threads = 0,
                      errors = 0, peak_connections = 0\<rparr>\<rparr>)) = 3\<close>
proof -
  have stream: "rx \<lparr>rx = [CHR 0x00, CHR 0x00, CHR 0x00, CHR 0x01] @ ''a''
           @ [CHR 0x00, CHR 0x00, CHR 0x00, CHR 0x03] @ ''bad''
           @ [CHR 0x00, CHR 0x00, CHR 0x00, CHR 0x01] @ ''c'',
      tx = [], tx_room = 100\<rparr>
      = concat (map frame [''a'', ''bad'', ''c'']) @ []"
    by code_simp
  have valid: "\<forall>m \<in> set [''a'', ''bad'', ''c'']. m \<noteq> [] \<and> length m \<le> BUFFER_SIZE"
    by (simp add: BUFFER_SIZE_def)
  have ending: "no_message_simple []"
    by code_simp
  have alive: "servidor_rodando \<lparr>servidor_rodando = True, clientes_conectados = 0,
      server_stats = \<lparr>total_connections = 0, total_messages = 0, active_threads = 0,
                      errors = 0\<rparr>,
      atomic_total_messages = 0\<rparr>"
    by simp
  have few: "int (length [''a'', ''bad'', ''c'']) \<le> INT_MAX"
    by (simp add: INT_MAX_def)
  have valid2: "\<forall>m \<in> set [''a'', ''bad'', ''c''].
      m \<noteq> [] \<and> length m < BUFFER_SIZE \<and> malloc_succeeds (length m + 1)"
    by (simp add: BUFFER_SIZE_def malloc_succeeds_def)
  have ending2: "no_message_cjson malloc_succeeds []"
    by code_simp
  have alive2: "servidor_rodando \<lparr>servidor_rodando = True, clientes_conectados = 0,
      server_stats = \<lparr>total_connections = 0, total_messages = 0, active_threads = 0,
                      errors = 0, peak_connections = 0\<rparr>\<rparr>"
    by simp
  have first: "rx (sock \<lparr>sock = \<lparr>rx = [CHR 0x00, CHR 0x00, CHR 0x00, CHR 0x01] @ ''a'', tx = [], tx_room = 9\<rparr>,
      shared = \<lparr>servidor_rodando = True, clientes_conectados = 1,
                server_stats = \<lparr>total_connections = 1, total_messages = 0,
                                active_threads = 1, errors = 0\<rparr>,
                atomic_total_messages = 2147483647\<rparr>,
      messages_from_client = 0\<rparr>)
      = frame ''a'' @ []"
    by code_simp
  have valid1: "''a'' \<noteq> [] \<and> length ''a'' \<le> BUFFER_SIZE"
    by (simp add: BUFFER_SIZE_def)
  have first2: "rx (sock \<lparr>sock = \<lparr>rx = [CHR 0x00, CHR 0x00, CHR 0x00, CHR 0x03] @ ''bad'', tx = [], tx_room = 9\<rparr>,
      shared = \<lparr>servidor_rodando = True, clientes_conectados = 1,
                server_stats = \<lparr>total_connections = 1, total_messages = 0,
                                active_threads = 1, errors = 0, peak_connections = 1\<rparr>\<rparr>,
      messages_from_client = 6\<rparr>)
      = frame ''bad'' @ []"
    by code_simp
  have valid1_2: "''bad'' \<noteq> [] \<and> length ''bad'' < BUFFER_SIZE
      \<and> malloc_succeeds (length ''bad'' + 1)"
    by (simp add: BUFFER_SIZE_def malloc_succeeds_def)
  note run = message_id_counts_framed_messages
      [OF first valid1 atomic_total_messages_wraps
          stream valid ending alive few json_example_run
          first2 valid1_2 cjson_example_iteration
          stream valid2 ending2 alive2 few cjson_example_run]
  show ?thesis
    using run [THEN conjunct2, THEN conjunct1, THEN conjunct2, THEN conjunct2, THEN conjunct1]
    unfolding json_example_run cjson_example_run
    by (simp add: response_json_message_id)
qed

section \<open>Messages that do not parse\<close>

text \<open>
  C5, as stated, fails on app_simple.cpp. Its scanner has no failure: a payload that is
  not JSON at all is answered with \<open>ACK\<close> and no error is counted. And the one way a
  malformed message fails there is fatal: a time stamp that is not a number makes
  \<open>std::stoll\<close> throw, the \<open>catch\<close> counts an error and leaves the loop. Here the first
  of two messages has such a time stamp: no response is written and the second message
  is never read.
\<close>

theorem parse_failure_counterexample:
  \<open>handle_simple ''not json'' 1 0 1 1 = Inr (create_json_response [] ''ACK'' 0 1 0 1 1)
   \<and> tratarCliente_simple clock_zero
     \<lparr>rx = [CHR 0x00, CHR 0x00, CHR 0x00, CHR 0x21] @ ''{"tipo":"PING","timestamp":"abc"}''
           @ [CHR 0x00, CHR 0x00, CHR 0x00, CHR 0x0F] @ ''{"tipo":"PING"}'',
      tx = [], tx_room = 1000\<rparr>
     \<lparr>servidor_rodando = True, clientes_conectados = 0,
      server_stats = \<lparr>total_connections = 0, total_messages = 0, active_threads = 0,
                      errors = 0\<rparr>,
      atomic_total_messages = 0\<rparr>
   = ([Threw],
      \<lparr>sock = \<lparr>rx = [CHR 0x00, CHR 0x00, CHR 0x00, CHR 0x0F] @ ''{"tipo":"PING"}'',
               tx = [], tx_room = 1000\<rparr>,
       shared = \<lparr>servidor_rodando = True, clientes_conectados = 0,
                 server_stats = \<lparr>total_connections = 1, total_messages = 0,
                                 active_threads = 0, errors = 1\<rparr>,
                 atomic_total_messages = 1\<rparr>,
       messages_from_client = 1\<rparr>)\<close>
  by code_simp

text \<open>
  C5, amended (app_cjson.c and app_json.cpp, the variants that parse with a library): for
  every framed message whose payload the library's parser rejects, the worker increments
  the error counter, writes nothing, and goes on with the next iteration of its loop: the
  log of the run is \<open>Dropped\<close> followed by the log of the run from the next state.
\<close>

theorem parse_failure_drops_message:
  assumes "servidor_rodando (shared w)"
    and "receive_json_message_cjson malloc_ok (sock w) = (Some message_json, allocs, s1)"
    and "cJSON_Parse lib (cstr message_json) = None"
    and "servidor_rodando (shared v)"
    and "receive_json_message_simple (sock v) = (message, s2)" and "message \<noteq> []"
    and "reader_parse lib2 message = None"
  shows "iteration_cjson lib malloc_ok clock w
           = (Dropped, w\<lparr>sock := s1, shared := errors_incr (shared w),
                          messages_from_client := int_incr (messages_from_client w)\<rparr>)
       \<and> tx s1 = tx (sock w)
       \<and> errors (server_stats (errors_incr (shared w))) = errors (server_stats (shared w)) + 1
       \<and> loop_cjson lib malloc_ok clock w
           = (Dropped # fst (loop_cjson lib malloc_ok clock
                               (w\<lparr>sock := s1, shared := errors_incr (shared w),
                                  messages_from_client := int_incr (messages_from_client w)\<rparr>)),
              snd (loop_cjson lib malloc_ok clock
                               (w\<lparr>sock := s1, shared := errors_incr (shared w),
                                  messages_from_client := int_incr (messages_from_client w)\<rparr>)))
       \<and> iteration_json lib2 clock2 v
           = (Dropped,
              v\<lparr>sock := s2,
                shared := errors_incr
                  ((shared v)\<lparr>atomic_total_messages := int_incr (atomic_total_messages (shared v))\<rparr>),
                messages_from_client := int_incr (messages_from_client v)\<rparr>)
       \<and> tx s2 = tx (sock v)
       \<and> loop_json lib2 clock2 v
           = (Dropped # fst (loop_json lib2 clock2
                (v\<lparr>sock := s2,
                   shared := errors_incr
                     ((shared v)\<lparr>atomic_total_messages := int_incr (atomic_total_messages (shared v))\<rparr>),
                   messages_from_client := int_incr (messages_from_client v)\<rparr>)),
              snd (loop_json lib2 clock2
                (v\<lparr>sock := s2,
                   shared := errors_incr
                     ((shared v)\<lparr>atomic_total_messages := int_incr (atomic_total_messages (shared v))\<rparr>),
                   messages_from_client := int_incr (messages_from_client v)\<rparr>)))"
proof -
  have it: "iteration_cjson lib malloc_ok clock w
           = (Dropped, w\<lparr>sock := s1, shared := errors_incr (shared w),
                          messages_from_client := int_incr (messages_from_client w)\<rparr>)"
    using assms(2,3) by (simp add: iteration_cjson_def)
  have same: "tx s1 = tx (sock w)"
    using assms(2)
    by (auto simp add: receive_json_message_cjson_def recv_waitall_def Let_def
        split: prod.splits if_splits dest: receive_message_size_tx)
  have it2: "iteration_json lib2 clock2 v
           = (Dropped,
              v\<lparr>sock := s2,
                shared := errors_incr
                  ((shared v)\<lparr>atomic_total_messages := int_incr (atomic_total_messages (shared v))\<rparr>),
                messages_from_client := int_incr (messages_from_client v)\<rparr>)"
    using assms(5,6,7) by (simp add: iteration_json_def Let_def)
  have same2: "tx s2 = tx (sock v)"
    using assms(5) by (rule receive_json_message_simple_tx)
  show ?thesis
    using assms(1,4) same same2
    by (simp add: loop_cjson.simps [of lib malloc_ok clock w] loop_json.simps [of lib2 clock2 v]
        it it2 continues_def errors_incr_def split: prod.splits)
qed


theorem parse_failure_drops_message_witness:
  "iteration_cjson example_cjson malloc_succeeds clock_zero_json
     \<lparr>sock = \<lparr>rx = [CHR 0x00, CHR 0x00, CHR 0x00, CHR 0x03] @ ''bad'', tx = [], tx_room = 9\<rparr>,
      shared = \<lparr>servidor_rodando = True, clientes_conectados = 1,
      server_stats = \<lparr>total_connections = 0, total_messages = 0, active_threads = 0,
                      errors = 0, peak_connections = 0\<rparr>\<rparr>,
      messages_from_client = 1\<rparr>
   = (Dropped,
      \<lparr>sock = \<lparr>rx = [], tx = [], tx_room = 9\<rparr>,
       shared = \<lparr>servidor_rodando = True, clientes_conectados = 1,
                 server_stats = \<lparr>total_connections = 0, total_messages = 0, active_threads = 0,
                                 errors = 1, peak_connections = 0\<rparr>\<rparr>,
       messages_from_client = 2\<rparr>)
   \<and> iteration_json example_jsoncpp clock_zero
     \<lparr>sock = \<lparr>rx = [CHR 0x00, CHR 0x00, CHR 0x00, CHR 0x03] @ ''bad'', tx = [], tx_room = 9\<rparr>,
      shared = \<lparr>servidor_rodando = True, clientes_conectados = 0,
      server_stats = \<lparr>total_connections = 0, total_messages = 0, active_threads = 0,
                      errors = 0\<rparr>,
      atomic_total_messages = 0\<rparr>,
      messages_from_client = 1\<rparr>
   = (Dropped,
      \<lparr>sock = \<lparr>rx = [], tx = [], tx_room = 9\<rparr>,
       shared = \<lparr>servidor_rodando = True, clientes_conectados = 0,
                 server_stats = \<lparr>total_connections = 0, total_messages = 0, active_threads = 0,
                                 errors = 1\<rparr>,
                 atomic_total_messages = 1\<rparr>,
       messages_from_client = 2\<rparr>)"
proof -
  let ?s = "\<lparr>rx = [CHR 0x00, CHR 0x00, CHR 0x00, CHR 0x03] @ ''bad'', tx = [], tx_room = 9\<rparr>"
  let ?w = "\<lparr>sock = ?s, shared = \<lparr>servidor_rodando = True, clientes_conectados = 1,
      server_stats = \<lparr>total_connections = 0, total_messages = 0, active_threads = 0,
                      errors = 0, peak_connections = 0\<rparr>\<rparr>, messages_from_client = 1\<rparr>"
  let ?v = "\<lparr>sock = ?s, shared = \<lparr>servidor_rodando = True, clientes_conectados = 0,
      server_stats = \<lparr>total_connections = 0, total_messages = 0, active_threads = 0,
                      errors = 0\<rparr>,
      atomic_total_messages = 0\<rparr>, messages_from_client = 1\<rparr>"
  have running: "servidor_rodando (shared ?w)" "servidor_rodando (shared ?v)"
    by simp_all
  have received: "receive_json_message_cjson malloc_succeeds (sock ?w)
      = (Some ''bad'', [4], \<lparr>rx = [], tx = [], tx_room = 9\<rparr>)"
    by code_simp
  have rejected: "cJSON_Parse example_cjson (cstr ''bad'') = None"
    by code_simp
  have received2: "receive_json_message_simple (sock ?v)
      = (''bad'', \<lparr>rx = [], tx = [], tx_room = 9\<rparr>)"
    by code_simp
  have rejected2: "reader_parse example_jsoncpp ''bad'' = None"
    by code_simp
  show ?thesis
    using parse_failure_drops_message
      [OF running(1) received rejected running(2) received2 _ rejected2,
        of clock_zero_json clock_zero]
    by (simp add: errors_incr_def int_incr_def wrap_int_def)
qed

end
